theory Spec2Isabelle
  imports Main "HOL-Library.Word"
begin

unbundle bit_operations_syntax

section \<open>The relational store: rows and tables\<close>

text \<open>
  The tables of \<^verbatim>\<open>supabase-schema.sql\<close>, with the columns the routes read or
  write. Identifiers travel through the routes as the text of a request parameter and
  are compared with the identifier column by equality, so they are strings here.
  Timestamps are points of a clock, counted as naturals; \<^verbatim>\<open>NULL\<close> is
  \<open>None\<close>. A table is the list of its rows: the schema's constraints (primary keys,
  \<^verbatim>\<open>UNIQUE\<close>, \<^verbatim>\<open>CHECK\<close>) are stated apart, as predicates on the tables.
\<close>

type_synonym user_id = string
type_synonym res_id = string
type_synonym timestamp = nat

record file_row =
  f_id :: res_id
  f_name :: string
  f_size :: nat
  f_format :: string
  f_path :: string
  f_storage_path :: string
  f_owner_id :: user_id
  f_folder_id :: "res_id option"
  f_share_token :: "string option"
  f_is_public :: bool
  f_deleted_at :: "timestamp option"
  f_created_at :: timestamp
  f_updated_at :: timestamp

record folder_row =
  fo_id :: res_id
  fo_name :: string
  fo_owner_id :: user_id
  fo_parent_id :: "res_id option"
  fo_deleted_at :: "timestamp option"
  fo_created_at :: timestamp
  fo_updated_at :: timestamp

text \<open>
  A row of \<^verbatim>\<open>file_permissions\<close> or of \<^verbatim>\<open>folder_permissions\<close>: the two tables
  have the same columns, \<open>p_resource\<close> being \<^verbatim>\<open>file_id\<close> in the one and
  \<^verbatim>\<open>folder_id\<close> in the other. The \<^verbatim>\<open>permission\<close> column is text
  (\<^verbatim>\<open>VARCHAR(10)\<close>).
\<close>

record permission_row =
  p_resource :: res_id
  p_user_id :: user_id
  p_permission :: string

record db =
  files :: "file_row list"
  folders :: "folder_row list"
  file_permissions :: "permission_row list"
  folder_permissions :: "permission_row list"

text \<open>
  PostgREST's \<^verbatim>\<open>.single()\<close>: the one row of the result, and an error (no data)
  when the result has no row or more than one.
\<close>

fun single :: "'a list \<Rightarrow> 'a option" where
  "single [x] = Some x"
| "single _ = None"

text \<open>The constraints of the schema.\<close>

definition primary_key :: "('a \<Rightarrow> res_id) \<Rightarrow> 'a list \<Rightarrow> bool" where
  "primary_key key rows = distinct (map key rows)"

definition unique_grants :: "permission_row list \<Rightarrow> bool" where
  "unique_grants ps = distinct (map (\<lambda>p. (p_resource p, p_user_id p)) ps)"

definition check_permission_column :: "permission_row list \<Rightarrow> bool" where
  "check_permission_column ps =
     list_all (\<lambda>p. p_permission p \<in> {''view'', ''edit'', ''owner''}) ps"

definition unique_share_token :: "file_row list \<Rightarrow> bool" where
  "unique_share_token fs = distinct (List.map_filter f_share_token fs)"

definition schema_ok :: "db \<Rightarrow> bool" where
  "schema_ok d =
     (primary_key f_id (files d) \<and> primary_key fo_id (folders d) \<and>
      unique_share_token (files d) \<and>
      unique_grants (file_permissions d) \<and> check_permission_column (file_permissions d) \<and>
      unique_grants (folder_permissions d) \<and> check_permission_column (folder_permissions d))"

section \<open>Responses\<close>

text \<open>
  A failing response is its HTTP status with the literal message of the route, or with
  the store's own message passed through \<^verbatim>\<open>sanitizeErrorMessage\<close> (whose text is
  the store's, not the program's).
\<close>

datatype error = Error nat string | StoreError nat

fun status :: "error \<Rightarrow> nat" where
  "status (Error s m) = s"
| "status (StoreError s) = s"

section \<open>The permission middleware\<close>

text \<open>
  \<^verbatim>\<open>requiredPermission: 'view' | 'edit' | 'owner'\<close> is a union of three literals;
  the level stored in a grant row is the text of the column.
\<close>

datatype level = View | Edit | Owner

fun level_name :: "level \<Rightarrow> string" where
  "level_name View = ''view''"
| "level_name Edit = ''edit''"
| "level_name Owner = ''owner''"

text \<open>\<^verbatim>\<open>const permissionLevels: Record<string, number> = { view: 1, edit: 2, owner: 3 }\<close>\<close>

definition permissionLevels :: "string \<Rightarrow> nat option" where
  "permissionLevels = map_of [(''view'', 1), (''edit'', 2), (''owner'', 3)]"

text \<open>JavaScript's \<^verbatim>\<open><\<close> on two numbers either of which may be \<^verbatim>\<open>undefined\<close>:
  an undefined operand makes the comparison false.\<close>

fun js_less :: "nat option \<Rightarrow> nat option \<Rightarrow> bool" where
  "js_less (Some a) (Some b) = (a < b)"
| "js_less _ _ = False"

text \<open>A middleware either hands the request on (\<^verbatim>\<open>next()\<close>) or answers it.\<close>

datatype decision = Next | Respond error

definition checkFilePermission :: "level \<Rightarrow> db \<Rightarrow> res_id \<Rightarrow> user_id \<Rightarrow> decision" where
  "checkFilePermission requiredPermission d ident userId =
     (let file = single (filter (\<lambda>f. f_id f = ident) (files d)) in
      if map_option f_owner_id file = Some userId then Next
      else
        (case single (filter (\<lambda>p. p_resource p = ident \<and> p_user_id p = userId)
                        (file_permissions d)) of
           None \<Rightarrow> Respond (Error 403 ''Access denied'')
         | Some permission \<Rightarrow>
             if js_less (permissionLevels (p_permission permission))
                        (permissionLevels (level_name requiredPermission))
             then Respond (Error 403 ''Insufficient permissions'')
             else Next))"

definition checkFolderPermission :: "level \<Rightarrow> db \<Rightarrow> res_id \<Rightarrow> user_id \<Rightarrow> decision" where
  "checkFolderPermission requiredPermission d ident userId =
     (let folder = single (filter (\<lambda>fo. fo_id fo = ident) (folders d)) in
      if map_option fo_owner_id folder = Some userId then Next
      else
        (case single (filter (\<lambda>p. p_resource p = ident \<and> p_user_id p = userId)
                        (folder_permissions d)) of
           None \<Rightarrow> Respond (Error 403 ''Access denied'')
         | Some permission \<Rightarrow>
             if js_less (permissionLevels (p_permission permission))
                        (permissionLevels (level_name requiredPermission))
             then Respond (Error 403 ''Insufficient permissions'')
             else Next))"

text \<open>The total order of the levels: view(1) < edit(2) < owner(3).\<close>

fun level_rank :: "level \<Rightarrow> nat" where
  "level_rank View = 1"
| "level_rank Edit = 2"
| "level_rank Owner = 3"

text \<open>
  What the resolver's contract says of a caller who is not the owner, as a predicate on
  the decision: no grant row for (resource, caller) is \<^verbatim>\<open>Access denied\<close>; a grant
  row allows exactly when its level is at least the required one, and is
  \<^verbatim>\<open>Insufficient permissions\<close> when it is below.
\<close>

definition grant_rule ::
  "permission_row list \<Rightarrow> res_id \<Rightarrow> user_id \<Rightarrow> level \<Rightarrow> decision \<Rightarrow> bool" where
  "grant_rule grants ident caller required result =
     (((\<forall>p\<in>set grants. \<not> (p_resource p = ident \<and> p_user_id p = caller)) \<longrightarrow>
         result = Respond (Error 403 ''Access denied'')) \<and>
      (\<forall>p\<in>set grants. p_resource p = ident \<and> p_user_id p = caller \<longrightarrow>
         (\<exists>g. p_permission p = level_name g \<and>
              (result = Next \<longleftrightarrow> level_rank required \<le> level_rank g) \<and>
              (level_rank g < level_rank required \<longrightarrow>
                 result = Respond (Error 403 ''Insufficient permissions'')))))"

section \<open>Text functions of \<^verbatim>\<open>utils/security.ts\<close>\<close>

text \<open>
  Functions of libraries the program calls, and the three sanitisers built on
  \<^verbatim>\<open>validator.escape\<close> and regular expressions, are parameters of the model:
  \<open>isUUID\<close> is \<^verbatim>\<open>validator.isUUID\<close>, \<open>getPublicUrl\<close> the storage client's, and
  \<open>sanitizeInput\<close>, \<open>sanitizeFileName\<close>, \<open>sanitizeOutput\<close> map text to text. Every
  property stated for an environment \<open>e\<close> holds whatever these functions compute. The
  functions as the program and its libraries have them are defined further down;
  the examples run the routes with them.
\<close>

record env =
  isUUID :: "string \<Rightarrow> bool"
  sanitizeInput :: "string \<Rightarrow> string"
  sanitizeFileName :: "string \<Rightarrow> string"
  sanitizeOutput :: "string \<Rightarrow> string"
  getPublicUrl :: "string \<Rightarrow> string"

text \<open>
  \<^verbatim>\<open>String.prototype.trim\<close>, on the white space and line terminators that fit a
  \<open>char\<close>: TAB, LF, VT, FF, CR, SP and NBSP.
\<close>

definition js_space :: "char \<Rightarrow> bool" where
  "js_space c = ((of_char c :: nat) \<in> {9, 10, 11, 12, 13, 32, 160})"

definition trim :: "string \<Rightarrow> string" where
  "trim s = rev (dropWhile js_space (rev (dropWhile js_space s)))"

text \<open>
  \<^verbatim>\<open>s.replace(/pat/gi, '')\<close> for a pattern that is literal text: scanning from the
  left, every occurrence of the pattern (letters compared without case) is dropped and
  the scan goes on behind it. The counter is the number of characters of the
  occurrence still to drop. An upper-case ASCII letter (codes 65 to 90) and its
  lower-case letter differ in the bit of value 32.
\<close>

definition lower :: "char \<Rightarrow> char" where
  "lower c =
     (if 65 \<le> (of_char c :: nat) \<and> (of_char c :: nat) \<le> 90
      then (case c of Char b0 b1 b2 b3 b4 b5 b6 b7 \<Rightarrow> Char b0 b1 b2 b3 b4 True b6 b7)
      else c)"

fun matches_at :: "string \<Rightarrow> string \<Rightarrow> bool" where
  "matches_at [] s = True"
| "matches_at (p # ps) [] = False"
| "matches_at (p # ps) (c # cs) = (lower p = lower c \<and> matches_at ps cs)"

fun strip :: "string \<Rightarrow> nat \<Rightarrow> string \<Rightarrow> string" where
  "strip pat k [] = []"
| "strip pat (Suc k) (c # cs) = strip pat k cs"
| "strip pat 0 (c # cs) =
     (if matches_at pat (c # cs) then strip pat (length pat - 1) cs
      else c # strip pat 0 cs)"

definition remove_all :: "string \<Rightarrow> string \<Rightarrow> string" where
  "remove_all pat s = strip pat 0 s"

text \<open>
  \<^verbatim>\<open>sanitizeQueryParam\<close>: trims, drops the characters \<^verbatim>\<open>' ; " \\<close>, then drops
  the comment markers and the SQL words, one pattern after the other in the source's
  order.
\<close>

definition sanitizeQueryParam :: "string \<Rightarrow> string" where
  "sanitizeQueryParam param =
     (if param = [] then []
      else foldl (\<lambda>s pat. remove_all pat s)
             (filter (\<lambda>c. c \<notin> {CHR 0x27, CHR '';'', CHR 0x22, CHR 0x5C}) (trim param))
             [''--'', ''/*'', ''*/'', ''xp_'', ''sp_'', ''union'', ''select'', ''insert'',
              ''update'', ''delete'', ''drop'', ''create'', ''alter'', ''exec'', ''script''])"

definition isValidUUID :: "env \<Rightarrow> string \<Rightarrow> bool" where
  "isValidUUID e uuid = (uuid \<noteq> [] \<and> isUUID e uuid)"

text \<open>
  Text that \<^verbatim>\<open>sanitizeQueryParam\<close> leaves as it is: hexadecimal digits and single
  dashes, as in the text form of a UUID.
\<close>

fun no_double_dash :: "string \<Rightarrow> bool" where
  "no_double_dash (a # b # cs) =
     (\<not> (a = CHR ''-'' \<and> b = CHR ''-'') \<and> no_double_dash (b # cs))"
| "no_double_dash _ = True"

definition plain_token :: "string \<Rightarrow> bool" where
  "plain_token s =
     (list_all (\<lambda>c. c \<in> set ''0123456789abcdefABCDEF-'') s \<and> no_double_dash s)"

section \<open>Updates of the \<^verbatim>\<open>files\<close> and \<^verbatim>\<open>folders\<close> tables\<close>

text \<open>
  \<^verbatim>\<open>UPDATE ... WHERE sel\<close> changes every selected row and leaves the others;
  \<^verbatim>\<open>.select()\<close> returns the changed rows. Both tables carry the trigger
  \<^verbatim>\<open>update_updated_at_column\<close>, which sets \<^verbatim>\<open>updated_at\<close> of every row an
  \<^verbatim>\<open>UPDATE\<close> changes to the store's clock: the row updates below write it.
\<close>

definition update_where :: "('a \<Rightarrow> bool) \<Rightarrow> ('a \<Rightarrow> 'a) \<Rightarrow> 'a list \<Rightarrow> 'a list" where
  "update_where sel upd rows = map (\<lambda>r. if sel r then upd r else r) rows"

definition returning :: "('a \<Rightarrow> bool) \<Rightarrow> ('a \<Rightarrow> 'a) \<Rightarrow> 'a list \<Rightarrow> 'a list" where
  "returning sel upd rows = map upd (filter sel rows)"

text \<open>A route behind a middleware runs only when the middleware hands the request on.\<close>

definition guarded :: "decision \<Rightarrow> db \<Rightarrow> (error + 'a) \<times> db \<Rightarrow> (error + 'a) \<times> db" where
  "guarded dec d run = (case dec of Next \<Rightarrow> run | Respond e \<Rightarrow> (Inl e, d))"

section \<open>Routes of \<^verbatim>\<open>routes/files.ts\<close>: trash, restore, rename\<close>

text \<open>
  Every route takes the store, the identifier of the request's path and the caller's
  \<^verbatim>\<open>req.userId\<close> as the authentication middleware set it; \<open>now\<close> is the program's
  clock (\<^verbatim>\<open>new Date()\<close>) and \<open>tnow\<close> the store's (\<^verbatim>\<open>NOW()\<close> in the trigger). It
  returns the response and the store after the request.
\<close>

definition softDeleteFile_handler ::
  "timestamp \<Rightarrow> timestamp \<Rightarrow> db \<Rightarrow> res_id \<Rightarrow> user_id \<Rightarrow> (error + file_row) \<times> db" where
  "softDeleteFile_handler now tnow d ident userId =
     (let sel = (\<lambda>f. f_id f = ident \<and> f_owner_id f = userId \<and> f_deleted_at f = None);
          upd = (\<lambda>f. f\<lparr>f_deleted_at := Some now, f_updated_at := tnow\<rparr>);
          d' = d\<lparr>files := update_where sel upd (files d)\<rparr>
      in case single (returning sel upd (files d)) of
           None \<Rightarrow> (Inl (Error 404 ''File not found''), d')
         | Some data \<Rightarrow> (Inr data, d'))"

definition softDeleteFile ::
  "timestamp \<Rightarrow> timestamp \<Rightarrow> db \<Rightarrow> res_id \<Rightarrow> user_id \<Rightarrow> (error + file_row) \<times> db" where
  "softDeleteFile now tnow d ident userId =
     guarded (checkFilePermission Owner d ident userId) d
       (softDeleteFile_handler now tnow d ident userId)"

definition restoreFile ::
  "timestamp \<Rightarrow> db \<Rightarrow> res_id \<Rightarrow> user_id \<Rightarrow> (error + file_row) \<times> db" where
  "restoreFile tnow d ident userId =
     (let sel = (\<lambda>f. f_id f = ident \<and> f_owner_id f = userId \<and> f_deleted_at f \<noteq> None);
          upd = (\<lambda>f. f\<lparr>f_deleted_at := None, f_updated_at := tnow\<rparr>);
          d' = d\<lparr>files := update_where sel upd (files d)\<rparr>
      in case single (returning sel upd (files d)) of
           None \<Rightarrow> (Inl (Error 404 ''File not found in trash''), d')
         | Some data \<Rightarrow> (Inr data, d'))"

text \<open>
  Rename. A name longer than the column's \<^verbatim>\<open>VARCHAR(255)\<close> makes the store refuse
  the statement; \<^verbatim>\<open>.single()\<close> on no row is an error as well, so the branch
  \<^verbatim>\<open>if (error)\<close> answers 500 before \<^verbatim>\<open>if (!data)\<close> is reached.
\<close>

definition renameFile_handler ::
  "env \<Rightarrow> timestamp \<Rightarrow> db \<Rightarrow> res_id \<Rightarrow> user_id \<Rightarrow> string \<Rightarrow> (error + file_row) \<times> db" where
  "renameFile_handler e tnow d ident userId name =
     (let sanitizedId = sanitizeQueryParam ident;
          sanitizedName = sanitizeFileName e name
      in if \<not> isValidUUID e sanitizedId then (Inl (Error 400 ''Invalid file ID''), d)
         else if sanitizedName = [] then (Inl (Error 400 ''Valid file name is required''), d)
         else
           (let sel = (\<lambda>f. f_id f = sanitizedId \<and> f_owner_id f = userId);
                upd = (\<lambda>f. f\<lparr>f_name := sanitizedName, f_updated_at := tnow\<rparr>);
                d' = d\<lparr>files := update_where sel upd (files d)\<rparr>
            in if filter sel (files d) \<noteq> [] \<and> 255 < length sanitizedName
               then (Inl (StoreError 500), d)
               else case single (returning sel upd (files d)) of
                      None \<Rightarrow> (Inl (StoreError 500), d')
                    | Some data \<Rightarrow>
                        (Inr (data\<lparr>f_name := sanitizeOutput e (f_name data)\<rparr>), d')))"

definition renameFile ::
  "env \<Rightarrow> timestamp \<Rightarrow> db \<Rightarrow> res_id \<Rightarrow> user_id \<Rightarrow> string \<Rightarrow> (error + file_row) \<times> db" where
  "renameFile e tnow d ident userId name =
     guarded (checkFilePermission Edit d ident userId) d
       (renameFile_handler e tnow d ident userId name)"

section \<open>Routes of \<^verbatim>\<open>routes/folders.ts\<close>: trash, restore, rename\<close>

definition softDeleteFolder_handler ::
  "timestamp \<Rightarrow> timestamp \<Rightarrow> db \<Rightarrow> res_id \<Rightarrow> user_id \<Rightarrow> (error + folder_row) \<times> db" where
  "softDeleteFolder_handler now tnow d ident userId =
     (let sel = (\<lambda>fo. fo_id fo = ident \<and> fo_owner_id fo = userId \<and> fo_deleted_at fo = None);
          upd = (\<lambda>fo. fo\<lparr>fo_deleted_at := Some now, fo_updated_at := tnow\<rparr>);
          d' = d\<lparr>folders := update_where sel upd (folders d)\<rparr>
      in case single (returning sel upd (folders d)) of
           None \<Rightarrow> (Inl (Error 404 ''Folder not found''), d')
         | Some data \<Rightarrow> (Inr data, d'))"

definition softDeleteFolder ::
  "timestamp \<Rightarrow> timestamp \<Rightarrow> db \<Rightarrow> res_id \<Rightarrow> user_id \<Rightarrow> (error + folder_row) \<times> db" where
  "softDeleteFolder now tnow d ident userId =
     guarded (checkFolderPermission Owner d ident userId) d
       (softDeleteFolder_handler now tnow d ident userId)"

definition restoreFolder ::
  "timestamp \<Rightarrow> db \<Rightarrow> res_id \<Rightarrow> user_id \<Rightarrow> (error + folder_row) \<times> db" where
  "restoreFolder tnow d ident userId =
     (let sel = (\<lambda>fo. fo_id fo = ident \<and> fo_owner_id fo = userId \<and> fo_deleted_at fo \<noteq> None);
          upd = (\<lambda>fo. fo\<lparr>fo_deleted_at := None, fo_updated_at := tnow\<rparr>);
          d' = d\<lparr>folders := update_where sel upd (folders d)\<rparr>
      in case single (returning sel upd (folders d)) of
           None \<Rightarrow> (Inl (Error 404 ''Folder not found in trash''), d')
         | Some data \<Rightarrow> (Inr data, d'))"

text \<open>
  The folders table has \<^verbatim>\<open>UNIQUE(name, owner_id, parent_id)\<close>: a renamed row that
  meets another row with its name, owner and (non-null) parent makes the store refuse
  the statement with code 23505, which the route answers with 400.
\<close>

definition folder_name_taken :: "folder_row list \<Rightarrow> (folder_row \<Rightarrow> bool) \<Rightarrow> string \<Rightarrow> bool" where
  "folder_name_taken rows sel name =
     list_ex (\<lambda>r. sel r \<and> fo_parent_id r \<noteq> None \<and>
        list_ex (\<lambda>other. \<not> sel other \<and> fo_name other = name \<and>
                   fo_owner_id other = fo_owner_id r \<and> fo_parent_id other = fo_parent_id r)
          rows) rows"

definition renameFolder_handler ::
  "env \<Rightarrow> timestamp \<Rightarrow> db \<Rightarrow> res_id \<Rightarrow> user_id \<Rightarrow> string \<Rightarrow> (error + folder_row) \<times> db" where
  "renameFolder_handler e tnow d ident userId name =
     (let sanitizedId = sanitizeQueryParam ident;
          sanitizedName = sanitizeInput e name
      in if \<not> isValidUUID e sanitizedId then (Inl (Error 400 ''Invalid folder ID''), d)
         else if sanitizedName = [] then (Inl (Error 400 ''Folder name is required''), d)
         else
           (let sel = (\<lambda>fo. fo_id fo = sanitizedId \<and> fo_owner_id fo = userId);
                upd = (\<lambda>fo. fo\<lparr>fo_name := sanitizedName, fo_updated_at := tnow\<rparr>);
                d' = d\<lparr>folders := update_where sel upd (folders d)\<rparr>
            in if folder_name_taken (folders d) sel sanitizedName
               then (Inl (Error 400 ''Folder with this name already exists''), d)
               else if filter sel (folders d) \<noteq> [] \<and> 255 < length sanitizedName
               then (Inl (StoreError 500), d)
               else case single (returning sel upd (folders d)) of
                      None \<Rightarrow> (Inl (StoreError 500), d')
                    | Some data \<Rightarrow>
                        (Inr (data\<lparr>fo_name := sanitizeOutput e (fo_name data)\<rparr>), d')))"

definition renameFolder ::
  "env \<Rightarrow> timestamp \<Rightarrow> db \<Rightarrow> res_id \<Rightarrow> user_id \<Rightarrow> string \<Rightarrow> (error + folder_row) \<times> db" where
  "renameFolder e tnow d ident userId name =
     guarded (checkFolderPermission Edit d ident userId) d
       (renameFolder_handler e tnow d ident userId name)"

section \<open>Routes of \<^verbatim>\<open>routes/files.ts\<close>: permanent delete, share link, shared access\<close>

text \<open>
  The object store holds objects under their paths. A call to a collaborator can fail
  for reasons outside the program (an outage, a policy): where a route's behaviour
  after such a failure matters, the failure is an input of the model.
\<close>

record faults =
  upload_fails :: bool
  insert_fails :: bool
  remove_fails :: bool
  grant_fails :: bool
  delete_fails :: bool

definition storage_remove :: "faults \<Rightarrow> string \<Rightarrow> string set \<Rightarrow> string set" where
  "storage_remove fl path objects = (if remove_fails fl then objects else objects - {path})"

text \<open>
  Permanent delete: the row is read under the filters (identifier, owner, in the
  trash); the object is removed from the store, the outcome of which the route does
  not read; the row is deleted under the filters (identifier, owner), and with it the
  grant rows that reference it (\<^verbatim>\<open>ON DELETE CASCADE\<close>).
\<close>

definition permanentDeleteFile ::
  "faults \<Rightarrow> db \<Rightarrow> string set \<Rightarrow> res_id \<Rightarrow> user_id \<Rightarrow> (error + unit) \<times> db \<times> string set" where
  "permanentDeleteFile fl d objects ident userId =
     (case single (filter (\<lambda>f. f_id f = ident \<and> f_owner_id f = userId \<and> f_deleted_at f \<noteq> None)
                     (files d)) of
        None \<Rightarrow> (Inl (Error 404 ''File not found in trash''), d, objects)
      | Some file \<Rightarrow>
          (let objects' = storage_remove fl (f_storage_path file) objects in
           if delete_fails fl then (Inl (StoreError 500), d, objects')
           else
             (Inr (),
              d\<lparr>files := filter (\<lambda>f. \<not> (f_id f = ident \<and> f_owner_id f = userId)) (files d),
                file_permissions := filter (\<lambda>p. p_resource p \<noteq> ident) (file_permissions d)\<rparr>,
              objects')))"

text \<open>
  Share link. \<open>shareToken\<close> is the value \<^verbatim>\<open>uuidv4()\<close> returned for this request.
  The column is \<^verbatim>\<open>UNIQUE\<close>: when the token is already the token of another row the
  store refuses the statement, and the route answers 404 as it does for no row. (The
  share URL of the response, the client's base URL followed by the encoded token, is
  left out: it does not enter the store.)
\<close>

definition share_token_taken :: "file_row list \<Rightarrow> (file_row \<Rightarrow> bool) \<Rightarrow> string \<Rightarrow> bool" where
  "share_token_taken rows sel token =
     (filter sel rows \<noteq> [] \<and>
      (list_ex (\<lambda>other. \<not> sel other \<and> f_share_token other = Some token) rows \<or>
       1 < length (filter sel rows)))"

definition generateShareLink_handler ::
  "string \<Rightarrow> timestamp \<Rightarrow> db \<Rightarrow> res_id \<Rightarrow> user_id \<Rightarrow> (error + string \<times> file_row) \<times> db" where
  "generateShareLink_handler shareToken tnow d ident userId =
     (let sel = (\<lambda>f. f_id f = ident \<and> f_owner_id f = userId \<and> f_deleted_at f = None);
          upd = (\<lambda>f. f\<lparr>f_share_token := Some shareToken, f_is_public := True,
                        f_updated_at := tnow\<rparr>);
          d' = d\<lparr>files := update_where sel upd (files d)\<rparr>
      in if share_token_taken (files d) sel shareToken
         then (Inl (Error 404 ''File not found''), d)
         else case single (returning sel upd (files d)) of
                None \<Rightarrow> (Inl (Error 404 ''File not found''), d')
              | Some data \<Rightarrow> (Inr (shareToken, data), d'))"

definition generateShareLink ::
  "string \<Rightarrow> timestamp \<Rightarrow> db \<Rightarrow> res_id \<Rightarrow> user_id \<Rightarrow> (error + string \<times> file_row) \<times> db" where
  "generateShareLink shareToken tnow d ident userId =
     guarded (checkFilePermission Owner d ident userId) d
       (generateShareLink_handler shareToken tnow d ident userId)"

definition removeSharing_handler ::
  "timestamp \<Rightarrow> db \<Rightarrow> res_id \<Rightarrow> user_id \<Rightarrow> (error + file_row) \<times> db" where
  "removeSharing_handler tnow d ident userId =
     (let sel = (\<lambda>f. f_id f = ident \<and> f_owner_id f = userId);
          upd = (\<lambda>f. f\<lparr>f_share_token := None, f_is_public := False, f_updated_at := tnow\<rparr>);
          d' = d\<lparr>files := update_where sel upd (files d)\<rparr>
      in case single (returning sel upd (files d)) of
           None \<Rightarrow> (Inl (Error 404 ''File not found''), d')
         | Some data \<Rightarrow> (Inr data, d'))"

definition removeSharing ::
  "timestamp \<Rightarrow> db \<Rightarrow> res_id \<Rightarrow> user_id \<Rightarrow> (error + file_row) \<times> db" where
  "removeSharing tnow d ident userId =
     guarded (checkFilePermission Owner d ident userId) d
       (removeSharing_handler tnow d ident userId)"

text \<open>
  Access by share token, the public endpoint \<^verbatim>\<open>GET /shared/:token\<close>. The response
  is the object the route builds: these six fields and no other.
\<close>

record shared_file =
  sf_id :: res_id
  sf_name :: string
  sf_size :: nat
  sf_format :: string
  sf_path :: string
  sf_created_at :: timestamp

definition accessSharedFile :: "env \<Rightarrow> db \<Rightarrow> string \<Rightarrow> error + shared_file" where
  "accessSharedFile e d token =
     (let sanitizedToken = sanitizeQueryParam token in
      if \<not> isValidUUID e sanitizedToken then Inl (Error 400 ''Invalid share token'')
      else
        (case single (filter (\<lambda>f. f_share_token f = Some sanitizedToken \<and> f_is_public f \<and>
                                   f_deleted_at f = None) (files d)) of
           None \<Rightarrow> Inl (Error 404 ''Shared file not found'')
         | Some file \<Rightarrow>
             Inr \<lparr>sf_id = f_id file, sf_name = sanitizeOutput e (f_name file),
                  sf_size = f_size file, sf_format = sanitizeOutput e (f_format file),
                  sf_path = f_path file, sf_created_at = f_created_at file\<rparr>))"

section \<open>The requests that change a row of \<^verbatim>\<open>files\<close> or \<^verbatim>\<open>folders\<close>\<close>

text \<open>
  The routes that update or delete a row of the two tables, as one type of requests;
  \<open>perform\<close> runs the route of a request for a caller and returns the store after it.
  \<open>request_ident\<close> is the identifier as the route's statement compares it with the
  identifier column: the rename routes sanitise it first.
\<close>

datatype request =
    RenameFile res_id string
  | SoftDeleteFile res_id
  | RestoreFile res_id
  | PermanentDeleteFile res_id
  | GenerateShareLink res_id string
  | RemoveSharing res_id
  | RenameFolder res_id string
  | SoftDeleteFolder res_id
  | RestoreFolder res_id

fun perform ::
  "env \<Rightarrow> faults \<Rightarrow> timestamp \<Rightarrow> timestamp \<Rightarrow> string set \<Rightarrow> user_id \<Rightarrow> request \<Rightarrow> db \<Rightarrow> db" where
  "perform e fl now tnow objects userId (RenameFile ident name) d =
     snd (renameFile e tnow d ident userId name)"
| "perform e fl now tnow objects userId (SoftDeleteFile ident) d =
     snd (softDeleteFile now tnow d ident userId)"
| "perform e fl now tnow objects userId (RestoreFile ident) d =
     snd (restoreFile tnow d ident userId)"
| "perform e fl now tnow objects userId (PermanentDeleteFile ident) d =
     fst (snd (permanentDeleteFile fl d objects ident userId))"
| "perform e fl now tnow objects userId (GenerateShareLink ident shareToken) d =
     snd (generateShareLink shareToken tnow d ident userId)"
| "perform e fl now tnow objects userId (RemoveSharing ident) d =
     snd (removeSharing tnow d ident userId)"
| "perform e fl now tnow objects userId (RenameFolder ident name) d =
     snd (renameFolder e tnow d ident userId name)"
| "perform e fl now tnow objects userId (SoftDeleteFolder ident) d =
     snd (softDeleteFolder now tnow d ident userId)"
| "perform e fl now tnow objects userId (RestoreFolder ident) d =
     snd (restoreFolder tnow d ident userId)"

fun request_ident :: "request \<Rightarrow> res_id" where
  "request_ident (RenameFile ident name) = sanitizeQueryParam ident"
| "request_ident (SoftDeleteFile ident) = ident"
| "request_ident (RestoreFile ident) = ident"
| "request_ident (PermanentDeleteFile ident) = ident"
| "request_ident (GenerateShareLink ident shareToken) = ident"
| "request_ident (RemoveSharing ident) = ident"
| "request_ident (RenameFolder ident name) = sanitizeQueryParam ident"
| "request_ident (SoftDeleteFolder ident) = ident"
| "request_ident (RestoreFolder ident) = ident"

section \<open>Upload, \<^verbatim>\<open>POST /upload\<close> of \<^verbatim>\<open>routes/files.ts\<close>\<close>

text \<open>
  The handler after its middlewares: \<open>file\<close> is \<^verbatim>\<open>req.file\<close> as multer left it
  (absent when the request carried none), \<open>folderId\<close> the field of the body, empty
  when the body has none. \<open>now\<close> is \<^verbatim>\<open>Date.now()\<close>; \<open>new_id\<close> and \<open>tnow\<close> are
  the identifier and the time the store gives the new row.
\<close>

record upload_file =
  originalname :: string
  size :: nat
  mimetype :: string

text \<open>A number as \<^verbatim>\<open>`${n}`\<close> prints it.\<close>

fun decimal :: "nat \<Rightarrow> string" where
  "decimal n =
     (if n < 10 then [''0123456789'' ! n]
      else decimal (n div 10) @ [''0123456789'' ! (n mod 10)])"

declare decimal.simps [simp del]

definition storage_name :: "env \<Rightarrow> timestamp \<Rightarrow> user_id \<Rightarrow> upload_file \<Rightarrow> string" where
  "storage_name e now userId file =
     userId @ ''/'' @ decimal now @ ''_'' @ sanitizeFileName e (originalname file)"

definition new_file_row ::
  "env \<Rightarrow> timestamp \<Rightarrow> timestamp \<Rightarrow> res_id \<Rightarrow> user_id \<Rightarrow> upload_file \<Rightarrow> string \<Rightarrow> file_row" where
  "new_file_row e now tnow new_id userId file folderId =
     \<lparr>f_id = new_id, f_name = originalname file, f_size = size file,
      f_format = mimetype file,
      f_path = getPublicUrl e (storage_name e now userId file),
      f_storage_path = storage_name e now userId file,
      f_owner_id = userId,
      f_folder_id = (if folderId = [] then None else Some folderId),
      f_share_token = None, f_is_public = False, f_deleted_at = None,
      f_created_at = tnow, f_updated_at = tnow\<rparr>"

text \<open>
  The store refuses the new row when its identifier or its storage path is taken
  (\<^verbatim>\<open>PRIMARY KEY\<close>, \<^verbatim>\<open>UNIQUE\<close>) or its folder does not exist
  (\<^verbatim>\<open>REFERENCES folders(id)\<close>).
\<close>

definition insert_refused :: "db \<Rightarrow> file_row \<Rightarrow> bool" where
  "insert_refused d row =
     (f_id row \<in> f_id ` set (files d) \<or>
      f_storage_path row \<in> f_storage_path ` set (files d) \<or>
      (case f_folder_id row of None \<Rightarrow> False | Some fo \<Rightarrow> fo \<notin> fo_id ` set (folders d)))"

text \<open>The calls the handler makes to its collaborators, in the order it makes them.\<close>

datatype call = StorageUpload string | InsertFile | StorageRemove string | InsertPermission

record upload_result =
  response :: "error + file_row"
  calls :: "call list"
  db_after :: db
  objects_after :: "string set"

definition uploadFile ::
  "env \<Rightarrow> faults \<Rightarrow> timestamp \<Rightarrow> timestamp \<Rightarrow> res_id \<Rightarrow> db \<Rightarrow> string set \<Rightarrow> user_id \<Rightarrow>
   upload_file option \<Rightarrow> string \<Rightarrow> upload_result" where
  "uploadFile e fl now tnow new_id d objects userId file folderId =
     (case file of
        None \<Rightarrow>
          \<lparr>response = Inl (Error 400 ''No file uploaded''), calls = [], db_after = d,
           objects_after = objects\<rparr>
      | Some file \<Rightarrow>
          (let fileName = storage_name e now userId file in
           if upload_fails fl \<or> fileName \<in> objects
           then \<lparr>response = Inl (StoreError 500), calls = [StorageUpload fileName],
                 db_after = d, objects_after = objects\<rparr>
           else
             (let data = new_file_row e now tnow new_id userId file folderId in
              if insert_fails fl \<or> insert_refused d data
              then \<lparr>response = Inl (StoreError 500),
                    calls = [StorageUpload fileName, InsertFile, StorageRemove fileName],
                    db_after = d,
                    objects_after = storage_remove fl fileName (insert fileName objects)\<rparr>
              else
                \<lparr>response = Inr data,
                 calls = [StorageUpload fileName, InsertFile, InsertPermission],
                 db_after =
                   d\<lparr>files := files d @ [data],
                     file_permissions :=
                       (if grant_fails fl \<or>
                           list_ex (\<lambda>p. p_resource p = f_id data \<and> p_user_id p = userId)
                             (file_permissions d)
                        then file_permissions d
                        else file_permissions d @
                               [\<lparr>p_resource = f_id data, p_user_id = userId,
                                 p_permission = ''owner''\<rparr>])\<rparr>,
                 objects_after = insert fileName objects\<rparr>)))"


section \<open>The library functions and the sanitisers, as the program has them\<close>

text \<open>
  \<^verbatim>\<open>validator.escape\<close> replaces \<^verbatim>\<open>&\<close>, the two quotes, \<^verbatim>\<open><\<close>, \<^verbatim>\<open>>\<close>,
  \<^verbatim>\<open>/\<close>, the backslash and the backquote by HTML entities. It replaces
  \<^verbatim>\<open>&\<close> first and no entity holds a character that a later step replaces, so its
  eight replacements in a row are one replacement of each character.
\<close>

definition escape_char :: "char \<Rightarrow> string" where
  "escape_char c =
     (if c = CHR ''&'' then ''&amp;''
      else if c = CHR 0x22 then ''&quot;''
      else if c = CHR 0x27 then ''&#x27;''
      else if c = CHR ''<'' then ''&lt;''
      else if c = CHR ''>'' then ''&gt;''
      else if c = CHR ''/'' then ''&#x2F;''
      else if c = CHR 0x5C then ''&#x5C;''
      else if c = CHR 0x60 then ''&#96;''
      else [c])"

definition validator_escape :: "string \<Rightarrow> string" where
  "validator_escape s = concat (map escape_char s)"

text \<open>
  \<^verbatim>\<open>s.replace(re, '')\<close> for a global regular expression: scanning from the left,
  a match at the current position is dropped and the scan goes on behind it, and a
  character at which nothing matches is kept. The matcher gives the length of the
  match at the head of its argument; the counter is the number of characters of the
  match still to drop.
\<close>

fun drop_matches :: "(string \<Rightarrow> nat option) \<Rightarrow> nat \<Rightarrow> string \<Rightarrow> string" where
  "drop_matches m k [] = []"
| "drop_matches m (Suc k) (c # cs) = drop_matches m k cs"
| "drop_matches m 0 (c # cs) =
     (case m (c # cs) of
        None \<Rightarrow> c # drop_matches m 0 cs
      | Some n \<Rightarrow> if n = 0 then c # drop_matches m 0 cs else drop_matches m (n - 1) cs)"

text \<open>The class \<^verbatim>\<open>\w\<close>, and \<^verbatim>\<open>.\<close>, which leaves out the line terminators.\<close>

definition word_char :: "char \<Rightarrow> bool" where
  "word_char c =
     (let n = (of_char c :: nat)
      in (48 \<le> n \<and> n \<le> 57) \<or> (65 \<le> n \<and> n \<le> 90) \<or> (97 \<le> n \<and> n \<le> 122) \<or> n = 95)"

definition line_end :: "char \<Rightarrow> bool" where
  "line_end c = ((of_char c :: nat) \<in> {10, 13})"

text \<open>
  \<^verbatim>\<open>/<script[^>]*>.*?<\/script>/gi\<close>: the opening tag runs to the first
  \<^verbatim>\<open>>\<close>, and the lazy \<^verbatim>\<open>.*?\<close> to the first closing tag, which has to
  come before the end of the line.
\<close>

fun until_close :: "string \<Rightarrow> nat option" where
  "until_close [] = None"
| "until_close (c # cs) =
     (if matches_at ''</script>'' (c # cs) then Some 9
      else if line_end c then None
      else map_option Suc (until_close cs))"

definition script_tag :: "string \<Rightarrow> nat option" where
  "script_tag s =
     (if matches_at ''<script'' s
      then (let r = drop 7 s;
                a = takeWhile (\<lambda>c. c \<noteq> CHR ''>'') r;
                r' = dropWhile (\<lambda>c. c \<noteq> CHR ''>'') r
            in if r' = [] then None
               else map_option (\<lambda>n. 7 + length a + 1 + n) (until_close (tl r')))
      else None)"

text \<open>
  \<^verbatim>\<open>/on\w+\s*=/gi\<close>. The three classes \<^verbatim>\<open>\w\<close>, \<^verbatim>\<open>\s\<close> and \<^verbatim>\<open>=\<close> are
  disjoint, so the greedy runs are the only way to match.
\<close>

definition on_handler :: "string \<Rightarrow> nat option" where
  "on_handler s =
     (if matches_at ''on'' s
      then (let r = drop 2 s;
                w = takeWhile word_char r;
                r' = dropWhile word_char r;
                sp = takeWhile js_space r';
                r'' = dropWhile js_space r'
            in if w \<noteq> [] \<and> r'' \<noteq> [] \<and> hd r'' = CHR ''=''
               then Some (2 + length w + length sp + 1) else None)
      else None)"

text \<open>\<^verbatim>\<open>/expression\s*\(/gi\<close> and \<^verbatim>\<open>/url\s*\(/gi\<close>.\<close>

definition call_of :: "string \<Rightarrow> string \<Rightarrow> nat option" where
  "call_of name s =
     (if matches_at name s
      then (let r = drop (length name) s;
                sp = takeWhile js_space r;
                r' = dropWhile js_space r
            in if r' \<noteq> [] \<and> hd r' = CHR ''(''
               then Some (length name + length sp + 1) else None)
      else None)"

text \<open>\<^verbatim>\<open>/import\s+/gi\<close>.\<close>

definition import_word :: "string \<Rightarrow> nat option" where
  "import_word s =
     (if matches_at ''import'' s
      then (let sp = takeWhile js_space (drop 6 s)
            in if sp = [] then None else Some (6 + length sp))
      else None)"

text \<open>\<^verbatim>\<open>/\\x[0-9a-f]{2}/gi\<close> and \<^verbatim>\<open>/\\u[0-9a-f]{4}/gi\<close>.\<close>

definition hex_digit :: "char \<Rightarrow> bool" where
  "hex_digit c = (c \<in> set ''0123456789abcdefABCDEF'')"

definition coded_char :: "char \<Rightarrow> nat \<Rightarrow> string \<Rightarrow> nat option" where
  "coded_char x n s =
     (if matches_at [CHR 0x5C, x] s \<and> n \<le> length (drop 2 s) \<and>
         list_all hex_digit (take n (drop 2 s))
      then Some (2 + n) else None)"

text \<open>\<^verbatim>\<open>sanitizeInput\<close> and \<^verbatim>\<open>sanitizeOutput\<close>.\<close>

definition sanitizeInput_impl :: "string \<Rightarrow> string" where
  "sanitizeInput_impl input =
     (if input = [] then []
      else
        (let s0 = validator_escape (trim input);
             s1 = drop_matches script_tag 0 s0;
             s2 = remove_all ''javascript:'' s1;
             s3 = remove_all ''vbscript:'' s2;
             s4 = drop_matches on_handler 0 s3;
             s5 = drop_matches (call_of ''expression'') 0 s4;
             s6 = drop_matches (call_of ''url'') 0 s5;
             s7 = drop_matches import_word 0 s6;
             s8 = drop_matches (coded_char CHR ''x'' 2) 0 s7
         in drop_matches (coded_char CHR ''u'' 4) 0 s8))"

definition sanitizeOutput_impl :: "string \<Rightarrow> string" where
  "sanitizeOutput_impl output =
     (if output = [] then []
      else
        (let s0 = validator_escape output;
             s1 = drop_matches script_tag 0 s0;
             s2 = remove_all ''javascript:'' s1;
             s3 = remove_all ''vbscript:'' s2
         in drop_matches on_handler 0 s3))"

text \<open>
  \<^verbatim>\<open>sanitizeFileName\<close>, step by step: \<^verbatim>\<open>..\<close> dropped, the path separators, the
  reserved and the control characters dropped, one leading and one trailing dot
  dropped, every run of white space made one space, a reserved device name replaced
  by \<^verbatim>\<open>file\<close>, the control characters of both ranges dropped, the text trimmed and
  cut to 255 characters, and \<^verbatim>\<open>untitled\<close> when nothing is left.
\<close>

fun squeeze :: "bool \<Rightarrow> string \<Rightarrow> string" where
  "squeeze in_run [] = []"
| "squeeze in_run (c # cs) =
     (if js_space c then (if in_run then squeeze True cs else CHR '' '' # squeeze True cs)
      else c # squeeze False cs)"

definition is_digit :: "char \<Rightarrow> bool" where
  "is_digit c = (48 \<le> (of_char c :: nat) \<and> (of_char c :: nat) \<le> 57)"

definition device_name :: "string \<Rightarrow> bool" where
  "device_name s =
     (map lower s \<in> {''con'', ''prn'', ''aux'', ''nul''} \<or>
      (length s = 4 \<and> map lower (take 3 s) \<in> {''com'', ''lpt''} \<and> is_digit (s ! 3)))"

definition sanitizeFileName_impl :: "string \<Rightarrow> string" where
  "sanitizeFileName_impl fileName =
     (if fileName = [] then []
      else
        (let s1 = remove_all ''..'' fileName;
             s2 = filter (\<lambda>c. c \<noteq> CHR ''/'' \<and> c \<noteq> CHR 0x5C) s1;
             s3 = filter (\<lambda>c. c \<notin> set ''<>:|?*'' \<and> c \<noteq> CHR 0x22 \<and>
                             \<not> (of_char c :: nat) \<le> 31) s2;
             s4 = (if s3 \<noteq> [] \<and> hd s3 = CHR ''.'' then tl s3 else s3);
             s5 = (if s4 \<noteq> [] \<and> last s4 = CHR ''.'' then butlast s4 else s4);
             s6 = squeeze False s5;
             s7 = (if device_name s6 then ''file'' else s6);
             s8 = filter (\<lambda>c. \<not> ((of_char c :: nat) \<le> 31 \<or>
                                   (127 \<le> (of_char c :: nat) \<and> (of_char c :: nat) \<le> 159))) s7;
             sanitized = trim s8;
             result = take 255 sanitized
         in if result = [] then ''untitled'' else result))"

text \<open>
  \<^verbatim>\<open>validator.isUUID(str)\<close> with no version given tests the pattern \<^verbatim>\<open>all\<close>:
  five groups of 8, 4, 4, 4 and 12 hexadecimal digits between dashes, the first digit
  of the third group a version from 1 to 8 and the first of the fourth a variant out of
  \<^verbatim>\<open>89ab\<close>, or the nil or the max UUID; letters in either case.
\<close>

definition uuid_shaped :: "string \<Rightarrow> bool" where
  "uuid_shaped s =
     (length s = 36 \<and>
      list_all (\<lambda>i. if i \<in> {8, 13, 18, 23} then s ! i = CHR ''-'' else hex_digit (s ! i))
        [0..<36])"

definition validator_isUUID :: "string \<Rightarrow> bool" where
  "validator_isUUID s =
     ((uuid_shaped s \<and> s ! 14 \<in> set ''12345678'' \<and> s ! 19 \<in> set ''89abAB'') \<or>
      s = ''00000000-0000-0000-0000-000000000000'' \<or>
      map lower s = ''ffffffff-ffff-ffff-ffff-ffffffffffff'')"

text \<open>
  The storage client's \<^verbatim>\<open>getPublicUrl\<close>: \<^verbatim>\<open>encodeURI\<close> of the project's URL,
  \<^verbatim>\<open>/object/public/\<close>, the bucket and the path. \<^verbatim>\<open>encodeURI\<close> keeps letters,
  digits and the marks of a URI and writes any other character as the bytes of its
  UTF-8 form, each as \<^verbatim>\<open>%\<close> and two hexadecimal digits.
\<close>

definition hex2 :: "nat \<Rightarrow> string" where
  "hex2 n = [''0123456789ABCDEF'' ! (n div 16), ''0123456789ABCDEF'' ! (n mod 16)]"

definition encode_char :: "char \<Rightarrow> string" where
  "encode_char c =
     (let n = (of_char c :: nat)
      in if word_char c \<or> c \<in> set '';,/?:@&=+$-.!~*()#'' \<or> c = CHR 0x27 then [c]
         else if n < 128 then CHR ''%'' # hex2 n
         else CHR ''%'' # hex2 (192 + n div 64) @ CHR ''%'' # hex2 (128 + n mod 64))"

definition encodeURI :: "string \<Rightarrow> string" where
  "encodeURI s = concat (map encode_char s)"

section \<open>Search: the functions of \<^verbatim>\<open>supabase-schema.sql\<close> and \<^verbatim>\<open>GET /\<close> of \<^verbatim>\<open>routes/search.ts\<close>\<close>

text \<open>
  The text search is PostgreSQL's: whether
  \<^verbatim>\<open>to_tsvector('english', name) @@ plainto_tsquery('english', search_query)\<close>
  holds, and the \<^verbatim>\<open>ts_rank\<close> of the two, are functions of the name and of the
  query that the development takes as given. The rank is of any linearly ordered type.
\<close>

record 'r fts =
  matches :: "string \<Rightarrow> string \<Rightarrow> bool"
  ts_rank :: "string \<Rightarrow> string \<Rightarrow> 'r"

text \<open>
  \<^verbatim>\<open>a LEFT JOIN b ON c\<close>: every row of \<open>a\<close> with each row of \<open>b\<close> that it meets
  under \<open>c\<close>, and once with \<^verbatim>\<open>NULL\<close>s when it meets none.
  \<^verbatim>\<open>a INNER JOIN b ON c\<close> has the meeting pairs only.
\<close>

definition left_join :: "'a list \<Rightarrow> 'b list \<Rightarrow> ('a \<Rightarrow> 'b \<Rightarrow> bool) \<Rightarrow> ('a \<times> 'b option) list" where
  "left_join a b on =
     concat (map (\<lambda>x. if filter (on x) b = [] then [(x, None)]
                        else map (\<lambda>y. (x, Some y)) (filter (on x) b)) a)"

definition inner_join :: "'a list \<Rightarrow> 'b list \<Rightarrow> ('a \<Rightarrow> 'b \<Rightarrow> bool) \<Rightarrow> ('a \<times> 'b) list" where
  "inner_join a b on = concat (map (\<lambda>x. map (Pair x) (filter (on x) b)) a)"

text \<open>
  \<^verbatim>\<open>ORDER BY rank DESC, created_at DESC\<close>: a row stands before another when its
  rank is greater, or equal with a creation time not earlier. PostgreSQL leaves open
  the order of rows equal in both; the sort here is by insertion.
\<close>

definition ranks_before :: "'r::linorder \<times> timestamp \<Rightarrow> 'r \<times> timestamp \<Rightarrow> bool" where
  "ranks_before a b = (fst b < fst a \<or> (fst a = fst b \<and> snd b \<le> snd a))"

fun insert_ranked :: "('a \<Rightarrow> 'r::linorder \<times> timestamp) \<Rightarrow> 'a \<Rightarrow> 'a list \<Rightarrow> 'a list" where
  "insert_ranked key x [] = [x]"
| "insert_ranked key x (y # ys) =
     (if ranks_before (key x) (key y) then x # y # ys else y # insert_ranked key x ys)"

definition order_by_rank :: "('a \<Rightarrow> 'r::linorder \<times> timestamp) \<Rightarrow> 'a list \<Rightarrow> 'a list" where
  "order_by_rank key rows = foldr (insert_ranked key) rows []"

text \<open>The rows that the two functions return (\<^verbatim>\<open>RETURNS TABLE\<close>).\<close>

record 'r file_hit =
  fh_id :: res_id
  fh_name :: string
  fh_size :: nat
  fh_format :: string
  fh_path :: string
  fh_folder_id :: "res_id option"
  fh_created_at :: timestamp
  fh_rank :: 'r

record 'r folder_hit =
  foh_id :: res_id
  foh_name :: string
  foh_parent_id :: "res_id option"
  foh_created_at :: timestamp
  foh_rank :: 'r

text \<open>
  Both functions are written in PL/pgSQL and have a parameter \<^verbatim>\<open>user_id\<close>, and
  both use the bare name \<^verbatim>\<open>user_id\<close> in a query over a permission table, which
  has a column of that name. What the bare name means there is PL/pgSQL's to say,
  by its setting \<^verbatim>\<open>plpgsql.variable_conflict\<close>: with \<^verbatim>\<open>error\<close>, the default,
  the statement raises \<^verbatim>\<open>column reference "user_id" is ambiguous\<close> when it is run;
  with \<^verbatim>\<open>use_variable\<close> the name is the parameter, with \<^verbatim>\<open>use_column\<close> the
  column of the joined permission row (\<^verbatim>\<open>NULL\<close> where the left join found none).
  No function of the schema carries a \<^verbatim>\<open>#variable_conflict\<close> directive and no
  file sets the option.
\<close>

datatype variable_conflict = Conflict_error | Use_variable | Use_column

definition user_id_ref ::
  "variable_conflict \<Rightarrow> user_id \<Rightarrow> permission_row option \<Rightarrow> user_id option" where
  "user_id_ref vc user_id joined =
     (case vc of Use_column \<Rightarrow> map_option p_user_id joined | _ \<Rightarrow> Some user_id)"

text \<open>
  \<^verbatim>\<open>search_files_paginated\<close>. The common table expression \<^verbatim>\<open>user_files\<close> has
  the distinct identifiers of the files out of the trash whose owner is
  \<^verbatim>\<open>user_id\<close> or for which the left join found a permission row
  (\<^verbatim>\<open>fp.permission IS NOT NULL\<close>: the column is \<^verbatim>\<open>NOT NULL\<close>). A comparison
  with \<^verbatim>\<open>NULL\<close> is not true.
\<close>

definition user_files :: "variable_conflict \<Rightarrow> db \<Rightarrow> user_id \<Rightarrow> res_id list" where
  "user_files vc d user_id =
     remdups
       (map (\<lambda>(f, fp). f_id f)
          (filter (\<lambda>(f, fp). f_deleted_at f = None \<and>
                     (Some (f_owner_id f) = user_id_ref vc user_id fp \<or>
                      (case fp of None \<Rightarrow> False | Some p \<Rightarrow> True)))
             (left_join (files d) (file_permissions d)
                (\<lambda>f fp. f_id f = p_resource fp \<and>
                          Some (p_user_id fp) = user_id_ref vc user_id (Some fp)))))"

definition file_hit_of :: "'r fts \<Rightarrow> string \<Rightarrow> file_row \<Rightarrow> 'r file_hit" where
  "file_hit_of t search_query f =
     \<lparr>fh_id = f_id f, fh_name = f_name f, fh_size = f_size f, fh_format = f_format f,
      fh_path = f_path f, fh_folder_id = f_folder_id f, fh_created_at = f_created_at f,
      fh_rank = ts_rank t (f_name f) search_query\<rparr>"

definition ranked_files ::
  "variable_conflict \<Rightarrow> 'r::linorder fts \<Rightarrow> db \<Rightarrow> string \<Rightarrow> user_id \<Rightarrow> 'r file_hit list" where
  "ranked_files vc t d search_query user_id =
     order_by_rank (\<lambda>h. (fh_rank h, fh_created_at h))
       (map (\<lambda>(f, uf). file_hit_of t search_query f)
          (filter (\<lambda>(f, uf). matches t (f_name f) search_query)
             (inner_join (files d) (user_files vc d user_id) (\<lambda>f uf. f_id f = uf))))"

text \<open>The call returns the rows, or nothing when the statement raises.\<close>

definition search_files_paginated ::
  "variable_conflict \<Rightarrow> 'r::linorder fts \<Rightarrow> db \<Rightarrow> string \<Rightarrow> user_id \<Rightarrow> nat \<Rightarrow> nat \<Rightarrow>
   'r file_hit list option" where
  "search_files_paginated vc t d search_query user_id page_limit page_offset =
     (if vc = Conflict_error then None
      else Some (take page_limit (drop page_offset
                   (ranked_files vc t d search_query user_id))))"

text \<open>
  \<^verbatim>\<open>search_folders_paginated\<close> joins every folder with all its grant rows and
  filters afterwards, without \<^verbatim>\<open>DISTINCT\<close>.
\<close>

definition folder_hit_of :: "'r fts \<Rightarrow> string \<Rightarrow> folder_row \<Rightarrow> 'r folder_hit" where
  "folder_hit_of t search_query fo =
     \<lparr>foh_id = fo_id fo, foh_name = fo_name fo, foh_parent_id = fo_parent_id fo,
      foh_created_at = fo_created_at fo,
      foh_rank = ts_rank t (fo_name fo) search_query\<rparr>"

definition ranked_folders ::
  "variable_conflict \<Rightarrow> 'r::linorder fts \<Rightarrow> db \<Rightarrow> string \<Rightarrow> user_id \<Rightarrow>
   'r folder_hit list" where
  "ranked_folders vc t d search_query user_id =
     order_by_rank (\<lambda>h. (foh_rank h, foh_created_at h))
       (map (\<lambda>(fo, fop). folder_hit_of t search_query fo)
          (filter (\<lambda>(fo, fop). fo_deleted_at fo = None \<and>
                     (Some (fo_owner_id fo) = user_id_ref vc user_id fop \<or>
                      (case fop of None \<Rightarrow> False
                       | Some p \<Rightarrow> Some (p_user_id p) = user_id_ref vc user_id fop \<and>
                                   p_permission p \<in> {''view'', ''edit'', ''owner''})) \<and>
                     matches t (fo_name fo) search_query)
             (left_join (folders d) (folder_permissions d)
                (\<lambda>fo fop. fo_id fo = p_resource fop))))"

definition search_folders_paginated ::
  "variable_conflict \<Rightarrow> 'r::linorder fts \<Rightarrow> db \<Rightarrow> string \<Rightarrow> user_id \<Rightarrow> nat \<Rightarrow> nat \<Rightarrow>
   'r folder_hit list option" where
  "search_folders_paginated vc t d search_query user_id page_limit page_offset =
     (if vc = Conflict_error then None
      else Some (take page_limit (drop page_offset
                   (ranked_folders vc t d search_query user_id))))"

text \<open>
  \<^verbatim>\<open>parseInt(value, 10)\<close> on the text of a query parameter: white space, a sign,
  then the longest run of decimal digits; \<^verbatim>\<open>NaN\<close>, here \<open>None\<close>, when there is
  no digit. The number is exact here; JavaScript rounds it above \<open>2\<^sup>5\<^sup>3\<close>, where
  \<^verbatim>\<open>validateInteger\<close> refuses the exact and the rounded number alike.
\<close>

definition parseInt :: "string \<Rightarrow> int option" where
  "parseInt s =
     (let t = dropWhile js_space s;
          negative = (t \<noteq> [] \<and> hd t = CHR ''-'');
          r = (if t \<noteq> [] \<and> (hd t = CHR ''-'' \<or> hd t = CHR ''+'') then tl t else t);
          ds = takeWhile is_digit r
      in if ds = [] then None
         else Some ((if negative then - 1 else 1) *
                    int (foldl (\<lambda>n c. 10 * n + (of_char c - 48)) 0 ds)))"

definition validateInteger :: "int option \<Rightarrow> int \<Rightarrow> int \<Rightarrow> int option" where
  "validateInteger num min_v max_v =
     (case num of
        None \<Rightarrow> None
      | Some n \<Rightarrow> if n < min_v \<or> n > max_v then None else Some n)"

text \<open>\<^verbatim>\<open>x || d\<close> on a number or \<^verbatim>\<open>null\<close>: \<open>d\<close> when \<open>x\<close> is \<^verbatim>\<open>null\<close> or zero.\<close>

definition or_else :: "int option \<Rightarrow> int \<Rightarrow> int" where
  "or_else x d = (case x of None \<Rightarrow> d | Some n \<Rightarrow> if n = 0 then d else n)"

text \<open>
  The call of a search function through \<^verbatim>\<open>supabase.rpc\<close>. Its parameters
  \<^verbatim>\<open>page_limit\<close> and \<^verbatim>\<open>page_offset\<close> are \<^verbatim>\<open>INTEGER\<close>: a number that does
  not fit makes the call fail, as a statement that raises does. The client reports a
  failure as an error beside \<^verbatim>\<open>data: null\<close>; the route reads the data only and
  takes missing data for no rows (\<^verbatim>\<open>files || []\<close>).
\<close>

definition rpc :: "(nat \<Rightarrow> nat \<Rightarrow> 'a list option) \<Rightarrow> int \<Rightarrow> int \<Rightarrow> 'a list" where
  "rpc f page_limit page_offset =
     (if page_limit < 0 \<or> page_offset < 0 \<or> 2147483647 < page_limit \<or> 2147483647 < page_offset
      then []
      else case f (nat page_limit) (nat page_offset) of None \<Rightarrow> [] | Some rows \<Rightarrow> rows)"

record search_params =
  sp_q :: "string option"
  sp_type :: "string option"
  sp_limit :: "string option"
  sp_page :: "string option"

record 'r search_response =
  sr_query :: string
  sr_files :: "'r file_hit list"
  sr_folders :: "'r folder_hit list"
  sr_page :: int
  sr_limit :: int
  sr_hasMore :: bool

definition search ::
  "env \<Rightarrow> variable_conflict \<Rightarrow> 'r::linorder fts \<Rightarrow> db \<Rightarrow> user_id \<Rightarrow> search_params \<Rightarrow>
   error + 'r search_response" where
  "search e vc t d userId rq =
     (case sp_q rq of
        None \<Rightarrow> Inl (Error 400 ''Search query is required'')
      | Some q \<Rightarrow>
          if q = [] then Inl (Error 400 ''Search query is required'')
          else
            (let searchQuery = sanitizeInput e (trim q);
                 sanitizedType =
                   sanitizeInput e (case sp_type rq of None \<Rightarrow> ''all'' | Some ty \<Rightarrow> ty);
                 pageSize =
                   min (or_else (validateInteger
                                   (case sp_limit rq of None \<Rightarrow> Some 20 | Some l \<Rightarrow> parseInt l)
                                   1 50) 20) 50;
                 pageNum =
                   or_else (validateInteger
                              (case sp_page rq of None \<Rightarrow> Some 1 | Some p \<Rightarrow> parseInt p)
                              1 9007199254740991) 1;
                 offset = (pageNum - 1) * pageSize;
                 found_files =
                   (if sanitizedType = ''all'' \<or> sanitizedType = ''files''
                    then rpc (search_files_paginated vc t d searchQuery userId) pageSize offset
                    else []);
                 found_folders =
                   (if sanitizedType = ''all'' \<or> sanitizedType = ''folders''
                    then rpc (search_folders_paginated vc t d searchQuery userId) pageSize offset
                    else [])
             in Inr \<lparr>sr_query = sanitizeOutput e searchQuery,
                     sr_files =
                       map (\<lambda>file. file\<lparr>fh_name := sanitizeOutput e (fh_name file),
                                         fh_format := sanitizeOutput e (fh_format file)\<rparr>)
                         found_files,
                     sr_folders =
                       map (\<lambda>folder. folder\<lparr>foh_name := sanitizeOutput e (foh_name folder)\<rparr>)
                         found_folders,
                     sr_page = pageNum, sr_limit = pageSize,
                     sr_hasMore =
                       (int (length found_files) + int (length found_folders) = pageSize)\<rparr>))"

section \<open>The share token: \<^verbatim>\<open>v4\<close> of the \<^verbatim>\<open>uuid\<close> package\<close>







section \<open>A small store, for the examples\<close>

text \<open>
  User \<open>u1\<close> owns one file and one folder; \<open>u2\<close> holds an edit grant on both;
  \<open>u3\<close> holds nothing. The file carries the redundant owner grant that the upload
  route writes.
\<close>

definition file_a_id :: res_id where
  "file_a_id = ''00000000-0000-4000-8000-00000000000a''"

definition folder_r_id :: res_id where
  "folder_r_id = ''00000000-0000-4000-8000-00000000000f''"

definition file_a :: file_row where
  "file_a = \<lparr>f_id = file_a_id, f_name = ''a.pdf'', f_size = 10,
             f_format = ''application/pdf'',
             f_path = ''https://p.supabase.co/storage/v1/object/public/files/u1/1_a.pdf'',
             f_storage_path = ''u1/1_a.pdf'', f_owner_id = ''u1'', f_folder_id = None,
             f_share_token = None, f_is_public = False, f_deleted_at = None,
             f_created_at = 1, f_updated_at = 1\<rparr>"

definition folder_r :: folder_row where
  "folder_r = \<lparr>fo_id = folder_r_id, fo_name = ''Reports'', fo_owner_id = ''u1'',
               fo_parent_id = None, fo_deleted_at = None, fo_created_at = 1,
               fo_updated_at = 1\<rparr>"

definition example_db :: db where
  "example_db =
     \<lparr>files = [file_a], folders = [folder_r],
      file_permissions =
        [\<lparr>p_resource = file_a_id, p_user_id = ''u1'', p_permission = ''owner''\<rparr>,
         \<lparr>p_resource = file_a_id, p_user_id = ''u2'', p_permission = ''edit''\<rparr>],
      folder_permissions =
        [\<lparr>p_resource = folder_r_id, p_user_id = ''u2'', p_permission = ''edit''\<rparr>]\<rparr>"

text \<open>The same store with the file and the folder in the trash.\<close>

definition trashed_db :: db where
  "trashed_db =
     example_db\<lparr>files := [file_a\<lparr>f_deleted_at := Some 5, f_updated_at := 6\<rparr>],
                folders := [folder_r\<lparr>fo_deleted_at := Some 5, fo_updated_at := 6\<rparr>]\<rparr>"

text \<open>
  The same store with \<open>u2\<close> holding owner-level grants instead of edit-level ones.
\<close>

definition owner_grant_db :: db where
  "owner_grant_db =
     example_db\<lparr>file_permissions :=
                  [\<lparr>p_resource = file_a_id, p_user_id = ''u2'', p_permission = ''owner''\<rparr>],
                folder_permissions :=
                  [\<lparr>p_resource = folder_r_id, p_user_id = ''u2'', p_permission = ''owner''\<rparr>]\<rparr>"

text \<open>
  The environment of the examples: the library functions and the sanitisers as the
  program has them, in a project whose storage is at \<^verbatim>\<open>https://p.supabase.co\<close>.
\<close>

definition example_env :: env where
  "example_env =
     \<lparr>isUUID = validator_isUUID, sanitizeInput = sanitizeInput_impl,
      sanitizeFileName = sanitizeFileName_impl, sanitizeOutput = sanitizeOutput_impl,
      getPublicUrl =
        (\<lambda>p. encodeURI (''https://p.supabase.co/storage/v1/object/public/files/'' @ p))\<rparr>"

definition no_faults :: faults where
  "no_faults = \<lparr>upload_fails = False, insert_fails = False, remove_fails = False,
                 grant_fails = False, delete_fails = False\<rparr>"

text \<open>
  A store in which the example file is shared under a token, and the store that a
  user gets by uploading a three-byte text file into the empty store and issuing a
  share link for it.
\<close>

definition share_tok :: string where
  "share_tok = ''00000000-0000-4000-8000-0000000000ee''"

definition shared_db :: db where
  "shared_db =
     example_db\<lparr>files := [file_a\<lparr>f_share_token := Some share_tok, f_is_public := True\<rparr>]\<rparr>"

definition file_b_id :: res_id where
  "file_b_id = ''00000000-0000-4000-8000-00000000000b''"

definition b_txt :: upload_file where
  "b_txt = \<lparr>originalname = ''b.txt'', size = 3, mimetype = ''text/plain''\<rparr>"

definition empty_db :: db where
  "empty_db = \<lparr>files = [], folders = [], file_permissions = [], folder_permissions = []\<rparr>"



text \<open>
  The example store as the shipped schema numbers its rows (\<^verbatim>\<open>id SERIAL\<close>): the
  file and the folder have the identifier 1.
\<close>

definition serial_db :: db where
  "serial_db =
     \<lparr>files = [file_a\<lparr>f_id := ''1''\<rparr>], folders = [folder_r\<lparr>fo_id := ''1''\<rparr>],
      file_permissions =
        [\<lparr>p_resource = ''1'', p_user_id = ''u2'', p_permission = ''edit''\<rparr>],
      folder_permissions =
        [\<lparr>p_resource = ''1'', p_user_id = ''u2'', p_permission = ''edit''\<rparr>]\<rparr>"

text \<open>
  For the examples of the search: a text search in which every name matches every
  query with the same rank, and the request \<^verbatim>\<open>GET /?q=report\<close>.
\<close>

definition match_all :: "nat fts" where
  "match_all = \<lparr>matches = (\<lambda>name search_query. True), ts_rank = (\<lambda>name search_query. 0)\<rparr>"

definition report_query :: search_params where
  "report_query = \<lparr>sp_q = Some ''report'', sp_type = None, sp_limit = None, sp_page = None\<rparr>"


section \<open>Lookups under the schema's constraints\<close>

lemma single_filter_key:
  "distinct (map key rows) \<Longrightarrow> r \<in> set rows \<Longrightarrow> filter (\<lambda>x. key x = key r) rows = [r]"
proof (induction rows)
  case Nil
  then show ?case by simp
next
  case (Cons a rows)
  show ?case
  proof (cases "a = r")
    case True
    with Cons.prems have "\<forall>x\<in>set rows. key x \<noteq> key r" by (auto simp: image_iff)
    then have "filter (\<lambda>x. key x = key r) rows = []" by (simp add: filter_empty_conv)
    with True show ?thesis by simp
  next
    case False
    with Cons.prems have r: "r \<in> set rows" and d: "distinct (map key rows)" by auto
    from Cons.prems r have "key a \<noteq> key r" by (auto simp: image_iff)
    with Cons.IH[OF d r] show ?thesis by simp
  qed
qed

lemma filter_no_row: "(\<forall>x\<in>set rows. \<not> P x) \<Longrightarrow> filter P rows = []"
  by (simp add: filter_empty_conv)

lemma file_lookup:
  "primary_key f_id fs \<Longrightarrow> f \<in> set fs \<Longrightarrow> filter (\<lambda>x. f_id x = f_id f) fs = [f]"
  unfolding primary_key_def by (rule single_filter_key)

lemma folder_lookup:
  "primary_key fo_id fs \<Longrightarrow> f \<in> set fs \<Longrightarrow> filter (\<lambda>x. fo_id x = fo_id f) fs = [f]"
  unfolding primary_key_def by (rule single_filter_key)

lemma grant_lookup:
  assumes "unique_grants ps" "p \<in> set ps"
  shows "filter (\<lambda>q. p_resource q = p_resource p \<and> p_user_id q = p_user_id p) ps = [p]"
proof -
  have "filter (\<lambda>q. (p_resource q, p_user_id q) = (p_resource p, p_user_id p)) ps = [p]"
    using assms unfolding unique_grants_def
    by (rule single_filter_key[where key="\<lambda>p. (p_resource p, p_user_id p)"])
  then show ?thesis by simp
qed

lemma permissionLevels_level_name: "permissionLevels (level_name l) = Some (level_rank l)"
  by (cases l) (simp_all add: permissionLevels_def)

lemma check_column_level:
  assumes "check_permission_column ps" "p \<in> set ps"
  shows "\<exists>g. p_permission p = level_name g"
proof -
  from assms have "p_permission p \<in> {''view'', ''edit'', ''owner''}"
    by (simp add: check_permission_column_def list_all_iff)
  then consider "p_permission p = ''view''" | "p_permission p = ''edit''"
    | "p_permission p = ''owner''"
    by blast
  then show ?thesis
  proof cases
    case 1
    then have "p_permission p = level_name View" by simp
    then show ?thesis by blast
  next
    case 2
    then have "p_permission p = level_name Edit" by simp
    then show ?thesis by blast
  next
    case 3
    then have "p_permission p = level_name Owner" by simp
    then show ?thesis by blast
  qed
qed

lemma example_db_schema_ok: "schema_ok example_db"
  by (simp add: schema_ok_def example_db_def primary_key_def unique_share_token_def
      unique_grants_def check_permission_column_def file_a_def folder_r_def
      List.map_filter_def)

section \<open>The permission middleware decides as the resolver's contract says\<close>

lemma file_check_owner:
  assumes "primary_key f_id (files d)" "f \<in> set (files d)" "f_owner_id f = u"
  shows "checkFilePermission req d (f_id f) u = Next"
  using file_lookup[OF assms(1,2)] assms(3) by (simp add: checkFilePermission_def)

lemma file_check_no_grant:
  assumes "primary_key f_id (files d)" "f \<in> set (files d)" "f_owner_id f \<noteq> u"
    and "\<forall>p\<in>set (file_permissions d). \<not> (p_resource p = f_id f \<and> p_user_id p = u)"
  shows "checkFilePermission req d (f_id f) u = Respond (Error 403 ''Access denied'')"
  using file_lookup[OF assms(1,2)] assms(3) filter_no_row[OF assms(4)]
  by (simp add: checkFilePermission_def)

lemma file_check_grant:
  assumes "primary_key f_id (files d)" "f \<in> set (files d)" "f_owner_id f \<noteq> u"
    and "unique_grants (file_permissions d)" "p \<in> set (file_permissions d)"
    and "p_resource p = f_id f" "p_user_id p = u" "p_permission p = level_name g"
  shows "checkFilePermission req d (f_id f) u =
           (if level_rank req \<le> level_rank g then Next
            else Respond (Error 403 ''Insufficient permissions''))"
  using file_lookup[OF assms(1,2)] assms(3) grant_lookup[OF assms(4,5)] assms(6,7,8)
  by (auto simp add: checkFilePermission_def permissionLevels_level_name)

lemma folder_check_owner:
  assumes "primary_key fo_id (folders d)" "f \<in> set (folders d)" "fo_owner_id f = u"
  shows "checkFolderPermission req d (fo_id f) u = Next"
  using folder_lookup[OF assms(1,2)] assms(3) by (simp add: checkFolderPermission_def)

lemma folder_check_no_grant:
  assumes "primary_key fo_id (folders d)" "f \<in> set (folders d)" "fo_owner_id f \<noteq> u"
    and "\<forall>p\<in>set (folder_permissions d). \<not> (p_resource p = fo_id f \<and> p_user_id p = u)"
  shows "checkFolderPermission req d (fo_id f) u = Respond (Error 403 ''Access denied'')"
  using folder_lookup[OF assms(1,2)] assms(3) filter_no_row[OF assms(4)]
  by (simp add: checkFolderPermission_def)

lemma folder_check_grant:
  assumes "primary_key fo_id (folders d)" "f \<in> set (folders d)" "fo_owner_id f \<noteq> u"
    and "unique_grants (folder_permissions d)" "p \<in> set (folder_permissions d)"
    and "p_resource p = fo_id f" "p_user_id p = u" "p_permission p = level_name g"
  shows "checkFolderPermission req d (fo_id f) u =
           (if level_rank req \<le> level_rank g then Next
            else Respond (Error 403 ''Insufficient permissions''))"
  using folder_lookup[OF assms(1,2)] assms(3) grant_lookup[OF assms(4,5)] assms(6,7,8)
  by (auto simp add: checkFolderPermission_def permissionLevels_level_name)

lemma file_grant_rule:
  assumes pk: "primary_key f_id (files d)" and ug: "unique_grants (file_permissions d)"
    and ck: "check_permission_column (file_permissions d)"
    and f: "f \<in> set (files d)" and no: "f_owner_id f \<noteq> caller"
  shows "grant_rule (file_permissions d) (f_id f) caller required
           (checkFilePermission required d (f_id f) caller)"
  unfolding grant_rule_def
proof (intro conjI impI ballI)
  assume "\<forall>p\<in>set (file_permissions d). \<not> (p_resource p = f_id f \<and> p_user_id p = caller)"
  then show "checkFilePermission required d (f_id f) caller =
               Respond (Error 403 ''Access denied'')"
    by (rule file_check_no_grant[OF pk f no])
next
  fix p
  assume p: "p \<in> set (file_permissions d)"
    and m: "p_resource p = f_id f \<and> p_user_id p = caller"
  from check_column_level[OF ck p] obtain g where g: "p_permission p = level_name g" ..
  from m have m1: "p_resource p = f_id f" and m2: "p_user_id p = caller" by simp_all
  have r: "checkFilePermission required d (f_id f) caller =
             (if level_rank required \<le> level_rank g then Next
              else Respond (Error 403 ''Insufficient permissions''))"
    by (rule file_check_grant[OF pk f no ug p m1 m2 g])
  show "\<exists>g. p_permission p = level_name g \<and>
            (checkFilePermission required d (f_id f) caller = Next \<longleftrightarrow>
               level_rank required \<le> level_rank g) \<and>
            (level_rank g < level_rank required \<longrightarrow>
               checkFilePermission required d (f_id f) caller =
                 Respond (Error 403 ''Insufficient permissions''))"
    using g r by (intro exI[of _ g]) simp
qed

lemma folder_grant_rule:
  assumes pk: "primary_key fo_id (folders d)" and ug: "unique_grants (folder_permissions d)"
    and ck: "check_permission_column (folder_permissions d)"
    and f: "f \<in> set (folders d)" and no: "fo_owner_id f \<noteq> caller"
  shows "grant_rule (folder_permissions d) (fo_id f) caller required
           (checkFolderPermission required d (fo_id f) caller)"
  unfolding grant_rule_def
proof (intro conjI impI ballI)
  assume "\<forall>p\<in>set (folder_permissions d). \<not> (p_resource p = fo_id f \<and> p_user_id p = caller)"
  then show "checkFolderPermission required d (fo_id f) caller =
               Respond (Error 403 ''Access denied'')"
    by (rule folder_check_no_grant[OF pk f no])
next
  fix p
  assume p: "p \<in> set (folder_permissions d)"
    and m: "p_resource p = fo_id f \<and> p_user_id p = caller"
  from check_column_level[OF ck p] obtain g where g: "p_permission p = level_name g" ..
  from m have m1: "p_resource p = fo_id f" and m2: "p_user_id p = caller" by simp_all
  have r: "checkFolderPermission required d (fo_id f) caller =
             (if level_rank required \<le> level_rank g then Next
              else Respond (Error 403 ''Insufficient permissions''))"
    by (rule folder_check_grant[OF pk f no ug p m1 m2 g])
  show "\<exists>g. p_permission p = level_name g \<and>
            (checkFolderPermission required d (fo_id f) caller = Next \<longleftrightarrow>
               level_rank required \<le> level_rank g) \<and>
            (level_rank g < level_rank required \<longrightarrow>
               checkFolderPermission required d (fo_id f) caller =
                 Respond (Error 403 ''Insufficient permissions''))"
    using g r by (intro exI[of _ g]) simp
qed

text \<open>
  Claim C1. For every authorization check of a required level on a file or a folder of
  a store that satisfies the schema: when the caller is the resource's owner the check
  hands the request on, whatever the level; otherwise, when no grant row exists for
  (resource, caller) it answers 403 \<^verbatim>\<open>Access denied\<close>; otherwise it hands the request
  on if and only if the grant's level is at least the required one in the order
  view(1) < edit(2) < owner(3), and answers 403 \<^verbatim>\<open>Insufficient permissions\<close> when it
  is below.
\<close>

theorem authorization_check:
  assumes "schema_ok d"
  shows "(\<forall>f\<in>set (files d).
            (f_owner_id f = caller \<longrightarrow>
               checkFilePermission required d (f_id f) caller = Next) \<and>
            (f_owner_id f \<noteq> caller \<longrightarrow>
               grant_rule (file_permissions d) (f_id f) caller required
                 (checkFilePermission required d (f_id f) caller))) \<and>
         (\<forall>fo\<in>set (folders d).
            (fo_owner_id fo = caller \<longrightarrow>
               checkFolderPermission required d (fo_id fo) caller = Next) \<and>
            (fo_owner_id fo \<noteq> caller \<longrightarrow>
               grant_rule (folder_permissions d) (fo_id fo) caller required
                 (checkFolderPermission required d (fo_id fo) caller)))"
proof -
  from assms have pk: "primary_key f_id (files d)" "primary_key fo_id (folders d)"
    and ug: "unique_grants (file_permissions d)" "unique_grants (folder_permissions d)"
    and ck: "check_permission_column (file_permissions d)"
            "check_permission_column (folder_permissions d)"
    by (simp_all add: schema_ok_def)
  show ?thesis
    using file_check_owner[OF pk(1)] folder_check_owner[OF pk(2)]
      file_grant_rule[OF pk(1) ug(1) ck(1)] folder_grant_rule[OF pk(2) ug(2) ck(2)]
    by blast
qed

theorem authorization_check_witness:
  "schema_ok example_db \<and>
   checkFilePermission Owner example_db file_a_id ''u1'' = Next \<and>
   checkFolderPermission Owner example_db folder_r_id ''u1'' = Next \<and>
   grant_rule (file_permissions example_db) file_a_id ''u2'' Owner
     (checkFilePermission Owner example_db file_a_id ''u2'') \<and>
   grant_rule (folder_permissions example_db) folder_r_id ''u3'' View
     (checkFolderPermission View example_db folder_r_id ''u3'')"
proof -
  have fa: "f_id file_a = file_a_id" "f_owner_id file_a = ''u1''"
    and fr: "fo_id folder_r = folder_r_id" "fo_owner_id folder_r = ''u1''"
    by (simp_all add: file_a_def folder_r_def)
  have tabs: "files example_db = [file_a]" "folders example_db = [folder_r]"
    by (simp_all add: example_db_def)
  from authorization_check[OF example_db_schema_ok, of "''u1''" Owner]
  have "checkFilePermission Owner example_db file_a_id ''u1'' = Next"
    and "checkFolderPermission Owner example_db folder_r_id ''u1'' = Next"
    by (simp_all add: tabs fa fr)
  moreover from authorization_check[OF example_db_schema_ok, of "''u2''" Owner]
  have "grant_rule (file_permissions example_db) file_a_id ''u2'' Owner
          (checkFilePermission Owner example_db file_a_id ''u2'')"
    by (simp add: tabs fa fr)
  moreover from authorization_check[OF example_db_schema_ok, of "''u3''" View]
  have "grant_rule (folder_permissions example_db) folder_r_id ''u3'' View
          (checkFolderPermission View example_db folder_r_id ''u3'')"
    by (simp add: tabs fa fr)
  ultimately show ?thesis using example_db_schema_ok by simp
qed

section \<open>The query sanitiser on plain tokens\<close>

lemma matches_at_chars: "matches_at pat t \<Longrightarrow> lower ` set pat \<subseteq> lower ` set t"
  by (induction pat t rule: matches_at.induct) auto

lemma strip_no_match:
  "(\<And>t. set t \<subseteq> set s \<Longrightarrow> t \<noteq> [] \<Longrightarrow> \<not> matches_at pat t) \<Longrightarrow> strip pat 0 s = s"
proof (induction s)
  case Nil
  then show ?case by simp
next
  case (Cons c cs)
  have "\<not> matches_at pat (c # cs)" by (rule Cons.prems) simp_all
  moreover have "strip pat 0 cs = cs"
    by (rule Cons.IH, rule Cons.prems) auto
  ultimately show ?case by simp
qed

lemma remove_all_foreign_char:
  assumes "p \<in> set pat" "lower p \<notin> L" "\<forall>c\<in>set s. lower c \<in> L"
  shows "remove_all pat s = s"
  unfolding remove_all_def
proof (rule strip_no_match)
  fix t assume t: "set t \<subseteq> set s" "t \<noteq> []"
  show "\<not> matches_at pat t"
  proof
    assume "matches_at pat t"
    then have "lower ` set pat \<subseteq> lower ` set t" by (rule matches_at_chars)
    with assms(1) have "lower p \<in> lower ` set t" by blast
    then obtain c where "c \<in> set t" "lower p = lower c" by auto
    with t(1) assms(3) have "lower p \<in> L" by auto
    with assms(2) show False by simp
  qed
qed

lemma lower_plain:
  "lower (CHR ''0'') = CHR ''0''" "lower (CHR ''1'') = CHR ''1''" "lower (CHR ''2'') = CHR ''2''"
  "lower (CHR ''3'') = CHR ''3''" "lower (CHR ''4'') = CHR ''4''" "lower (CHR ''5'') = CHR ''5''"
  "lower (CHR ''6'') = CHR ''6''" "lower (CHR ''7'') = CHR ''7''" "lower (CHR ''8'') = CHR ''8''"
  "lower (CHR ''9'') = CHR ''9''" "lower (CHR ''a'') = CHR ''a''" "lower (CHR ''b'') = CHR ''b''"
  "lower (CHR ''c'') = CHR ''c''" "lower (CHR ''d'') = CHR ''d''" "lower (CHR ''e'') = CHR ''e''"
  "lower (CHR ''f'') = CHR ''f''" "lower (CHR ''A'') = CHR ''a''" "lower (CHR ''B'') = CHR ''b''"
  "lower (CHR ''C'') = CHR ''c''" "lower (CHR ''D'') = CHR ''d''" "lower (CHR ''E'') = CHR ''e''"
  "lower (CHR ''F'') = CHR ''f''" "lower (CHR ''-'') = CHR ''-''"
  by (simp_all add: lower_def)

lemma plain_lower:
  assumes "c \<in> set ''0123456789abcdefABCDEF-''"
  shows "lower c \<in> set ''0123456789abcdef-''" and "lower c = CHR ''-'' \<longleftrightarrow> c = CHR ''-''"
    and "\<not> js_space c" and "c \<notin> {CHR 0x27, CHR '';'', CHR 0x22, CHR 0x5C}"
proof -
  from assms have c: "c = CHR ''0'' \<or> c = CHR ''1'' \<or> c = CHR ''2'' \<or> c = CHR ''3'' \<or>
      c = CHR ''4'' \<or> c = CHR ''5'' \<or> c = CHR ''6'' \<or> c = CHR ''7'' \<or> c = CHR ''8'' \<or>
      c = CHR ''9'' \<or> c = CHR ''a'' \<or> c = CHR ''b'' \<or> c = CHR ''c'' \<or> c = CHR ''d'' \<or>
      c = CHR ''e'' \<or> c = CHR ''f'' \<or> c = CHR ''A'' \<or> c = CHR ''B'' \<or> c = CHR ''C'' \<or>
      c = CHR ''D'' \<or> c = CHR ''E'' \<or> c = CHR ''F'' \<or> c = CHR ''-''"
    by simp
  show "lower c \<in> set ''0123456789abcdef-''"
    using c by (elim disjE) (simp_all add: lower_plain)
  show "lower c = CHR ''-'' \<longleftrightarrow> c = CHR ''-''"
    using c by (elim disjE) (simp_all add: lower_plain)
  show "\<not> js_space c"
    using c by (elim disjE) (simp_all add: js_space_def)
  show "c \<notin> {CHR 0x27, CHR '';'', CHR 0x22, CHR 0x5C}"
    using c by (elim disjE) simp_all
qed

lemma strip_double_dash:
  "\<forall>c\<in>set s. c \<in> set ''0123456789abcdefABCDEF-'' \<Longrightarrow> no_double_dash s \<Longrightarrow>
   strip ''--'' 0 s = s"
proof (induction s rule: no_double_dash.induct)
  case (1 a b cs)
  from "1.prems"(1) have a: "lower a = CHR ''-'' \<longleftrightarrow> a = CHR ''-''"
    and b: "lower b = CHR ''-'' \<longleftrightarrow> b = CHR ''-''"
    by (simp_all add: plain_lower(2))
  from "1.prems" have "\<not> (a = CHR ''-'' \<and> b = CHR ''-'')" by simp
  with a b have nm: "\<not> matches_at ''--'' (a # b # cs)"
    by (auto simp: lower_plain)
  from 1 have ih: "strip ''--'' 0 (b # cs) = b # cs" by simp
  show ?case by (subst strip.simps(3)) (simp only: nm if_False ih)
qed (simp_all add: lower_plain)

lemma trim_no_space:
  assumes "\<forall>c\<in>set s. \<not> js_space c"
  shows "trim s = s"
proof -
  have d: "dropWhile js_space xs = xs" if "\<forall>c\<in>set xs. \<not> js_space c" for xs
    using that by (cases xs) simp_all
  from assms have "dropWhile js_space (rev s) = rev s" by (intro d) simp
  with d[OF assms] show ?thesis by (simp add: trim_def)
qed

lemma sanitizeQueryParam_plain:
  assumes "plain_token s"
  shows "sanitizeQueryParam s = s"
proof -
  let ?L = "set ''0123456789abcdef-''"
  from assms have h: "\<forall>c\<in>set s. c \<in> set ''0123456789abcdefABCDEF-''"
    and dd: "no_double_dash s"
    by (simp_all add: plain_token_def list_all_iff)
  have l: "\<forall>c\<in>set s. lower c \<in> ?L" using h plain_lower(1) by blast
  have sp: "\<forall>c\<in>set s. \<not> js_space c" using h plain_lower(3) by blast
  have q: "filter (\<lambda>c. c \<notin> {CHR 0x27, CHR '';'', CHR 0x22, CHR 0x5C}) s = s"
    using h plain_lower(4) by (intro filter_True) blast
  have r: "remove_all pat s = s" if "p \<in> set pat" "lower p \<notin> ?L" for p pat
    by (rule remove_all_foreign_char[OF that l])
  have r0: "remove_all ''--'' s = s"
    using strip_double_dash[OF h dd] by (simp add: remove_all_def)
  have r1: "remove_all ''/*'' s = s" by (rule r[of "CHR ''/''"]) (simp_all add: lower_def)
  have r2: "remove_all ''*/'' s = s" by (rule r[of "CHR ''/''"]) (simp_all add: lower_def)
  have r3: "remove_all ''xp_'' s = s" by (rule r[of "CHR ''x''"]) (simp_all add: lower_def)
  have r4: "remove_all ''sp_'' s = s" by (rule r[of "CHR ''s''"]) (simp_all add: lower_def)
  have r5: "remove_all ''union'' s = s" by (rule r[of "CHR ''u''"]) (simp_all add: lower_def)
  have r6: "remove_all ''select'' s = s" by (rule r[of "CHR ''s''"]) (simp_all add: lower_def)
  have r7: "remove_all ''insert'' s = s" by (rule r[of "CHR ''i''"]) (simp_all add: lower_def)
  have r8: "remove_all ''update'' s = s" by (rule r[of "CHR ''u''"]) (simp_all add: lower_def)
  have r9: "remove_all ''delete'' s = s" by (rule r[of "CHR ''l''"]) (simp_all add: lower_def)
  have r10: "remove_all ''drop'' s = s" by (rule r[of "CHR ''r''"]) (simp_all add: lower_def)
  have r11: "remove_all ''create'' s = s" by (rule r[of "CHR ''r''"]) (simp_all add: lower_def)
  have r12: "remove_all ''alter'' s = s" by (rule r[of "CHR ''l''"]) (simp_all add: lower_def)
  have r13: "remove_all ''exec'' s = s" by (rule r[of "CHR ''x''"]) (simp_all add: lower_def)
  have r14: "remove_all ''script'' s = s" by (rule r[of "CHR ''s''"]) (simp_all add: lower_def)
  show ?thesis
    unfolding sanitizeQueryParam_def trim_no_space[OF sp] q
    by (simp add: r0 r1 r2 r3 r4 r5 r6 r7 r8 r9 r10 r11 r12 r13 r14)
qed

section \<open>Updates under the primary key\<close>

lemma pk_same:
  assumes "primary_key key rows" "x \<in> set rows" "y \<in> set rows" "key x = key y"
  shows "x = y"
proof -
  from assms(1) have "inj_on key (set rows)" by (simp add: primary_key_def distinct_map)
  with assms(2,3,4) show ?thesis by (simp add: inj_on_def)
qed

lemma update_where_none: "\<forall>r\<in>set rows. \<not> sel r \<Longrightarrow> update_where sel upd rows = rows"
  by (simp add: update_where_def map_idI)

lemma returning_none: "\<forall>r\<in>set rows. \<not> sel r \<Longrightarrow> returning sel upd rows = []"
  by (simp add: returning_def filter_empty_conv)

lemma returning_one:
  assumes "primary_key key rows" "r \<in> set rows" "Q r"
  shows "returning (\<lambda>x. key x = key r \<and> Q x) upd rows = [upd r]"
proof -
  have "filter (\<lambda>x. key x = key r \<and> Q x) rows = filter Q (filter (\<lambda>x. key x = key r) rows)"
    by (simp add: conj_commute)
  also have "\<dots> = [r]"
    using single_filter_key[of key rows r] assms by (simp add: primary_key_def)
  finally show ?thesis by (simp add: returning_def)
qed

lemma update_where_one:
  assumes "primary_key key rows" "r \<in> set rows"
  shows "update_where (\<lambda>x. key x = key r \<and> Q x) upd rows =
           map (\<lambda>x. if x = r \<and> Q r then upd r else x) rows"
  unfolding update_where_def
proof (rule map_cong[OF refl])
  fix x assume "x \<in> set rows"
  with assms have "key x = key r \<longleftrightarrow> x = r" using pk_same[of key rows x r] by blast
  then show "(if key x = key r \<and> Q x then upd x else x) = (if x = r \<and> Q r then upd r else x)"
    by auto
qed

lemma no_other_row:
  assumes "primary_key key rows" "r \<in> set rows" "\<not> Q r"
  shows "\<forall>x\<in>set rows. \<not> (key x = key r \<and> Q x)"
proof
  fix x assume "x \<in> set rows"
  then show "\<not> (key x = key r \<and> Q x)"
    using pk_same[OF assms(1) _ assms(2), of x] assms(3) by auto
qed

lemma replace_row_pk:
  assumes "primary_key key rows" "key r' = key r"
  shows "primary_key key (map (\<lambda>x. if x = r then r' else x) rows)"
proof -
  have h: "map key (map (\<lambda>x. if x = r then r' else x) rows) = map key rows"
    unfolding map_map by (rule map_cong[OF refl]) (simp add: assms(2))
  show ?thesis
    unfolding primary_key_def h using assms(1) unfolding primary_key_def .
qed

lemma replace_row_twice:
  assumes "primary_key key rows" "r \<in> set rows" "key r' = key r"
  shows "map (\<lambda>x. if x = r' then r'' else x) (map (\<lambda>x. if x = r then r' else x) rows) =
         map (\<lambda>x. if x = r then r'' else x) rows"
proof -
  have "(if (if x = r then r' else x) = r' then r'' else (if x = r then r' else x)) =
        (if x = r then r'' else x)" if "x \<in> set rows" for x
  proof (cases "x = r")
    case True
    then show ?thesis by simp
  next
    case False
    with pk_same[OF assms(1) that assms(2)] have "key x \<noteq> key r" by blast
    with assms(3) have "x \<noteq> r'" by auto
    with False show ?thesis by simp
  qed
  then show ?thesis by simp
qed

lemma guarded_cases:
  "guarded dec d run = (case dec of Next \<Rightarrow> run | Respond e \<Rightarrow> (Inl e, d))"
  by (simp add: guarded_def)

lemma example_tables:
  "files example_db = [file_a]" "folders example_db = [folder_r]"
  by (simp_all add: example_db_def)

lemma example_rows:
  "f_id file_a = file_a_id" "f_owner_id file_a = ''u1''" "f_deleted_at file_a = None"
  "f_updated_at file_a = 1"
  "fo_id folder_r = folder_r_id" "fo_owner_id folder_r = ''u1''" "fo_deleted_at folder_r = None"
  "fo_updated_at folder_r = 1"
  by (simp_all add: file_a_def folder_r_def)

lemma example_owner_check:
  "checkFilePermission required example_db file_a_id ''u1'' = Next"
  "checkFolderPermission required example_db folder_r_id ''u1'' = Next"
  by (simp_all add: checkFilePermission_def checkFolderPermission_def example_tables
      example_rows)

lemma trashed_db_schema_ok: "schema_ok trashed_db"
  by (simp add: schema_ok_def trashed_db_def example_db_def primary_key_def
      unique_share_token_def unique_grants_def check_permission_column_def file_a_def
      folder_r_def List.map_filter_def)

section \<open>Trash and restore\<close>

lemma softDeleteFile_handler_trashed:
  assumes pk: "primary_key f_id (files d)" and f: "f \<in> set (files d)"
    and t: "f_deleted_at f \<noteq> None"
  shows "softDeleteFile_handler now tnow d (f_id f) u =
           (Inl (Error 404 ''File not found''), d)"
proof -
  have no: "\<forall>x\<in>set (files d).
              \<not> (f_id x = f_id f \<and> f_owner_id x = u \<and> f_deleted_at x = None)"
    by (rule no_other_row[OF pk f]) (simp add: t)
  show ?thesis
    unfolding softDeleteFile_handler_def Let_def update_where_none[OF no]
      returning_none[OF no]
    by simp
qed

lemma restoreFile_active:
  assumes pk: "primary_key f_id (files d)" and f: "f \<in> set (files d)"
    and t: "f_deleted_at f = None"
  shows "restoreFile tnow d (f_id f) u = (Inl (Error 404 ''File not found in trash''), d)"
proof -
  have no: "\<forall>x\<in>set (files d).
              \<not> (f_id x = f_id f \<and> f_owner_id x = u \<and> f_deleted_at x \<noteq> None)"
    by (rule no_other_row[OF pk f]) (simp add: t)
  show ?thesis
    unfolding restoreFile_def Let_def update_where_none[OF no] returning_none[OF no]
    by simp
qed

lemma softDeleteFile_trashed:
  assumes pk: "primary_key f_id (files d)" and f: "f \<in> set (files d)"
    and t: "f_deleted_at f \<noteq> None"
  shows "softDeleteFile_handler now tnow d (f_id f) c =
           (Inl (Error 404 ''File not found''), d) \<and>
         softDeleteFile now tnow d (f_id f) c =
           (case checkFilePermission Owner d (f_id f) c of
              Next \<Rightarrow> (Inl (Error 404 ''File not found''), d)
            | Respond e \<Rightarrow> (Inl e, d)) \<and>
         softDeleteFile now tnow d (f_id f) (f_owner_id f) =
           (Inl (Error 404 ''File not found''), d)"
  using softDeleteFile_handler_trashed[OF assms] file_check_owner[OF pk f refl]
  by (simp add: softDeleteFile_def guarded_cases)

lemma softDeleteFile_handler_active:
  assumes pk: "primary_key f_id (files d)" and f: "f \<in> set (files d)"
    and a: "f_deleted_at f = None"
  shows "softDeleteFile_handler now tnow d (f_id f) (f_owner_id f) =
           (Inr (f\<lparr>f_deleted_at := Some now, f_updated_at := tnow\<rparr>),
            d\<lparr>files := map (\<lambda>x. if x = f
                                 then f\<lparr>f_deleted_at := Some now, f_updated_at := tnow\<rparr>
                                 else x) (files d)\<rparr>)"
proof -
  have q: "f_owner_id f = f_owner_id f \<and> f_deleted_at f = None" using a by simp
  show ?thesis
    unfolding softDeleteFile_handler_def Let_def
      returning_one[OF pk f,
        where Q="\<lambda>x. f_owner_id x = f_owner_id f \<and> f_deleted_at x = None", OF q]
      update_where_one[OF pk f,
        where Q="\<lambda>x. f_owner_id x = f_owner_id f \<and> f_deleted_at x = None"]
    using a by simp
qed

lemma restoreFile_trashed:
  assumes pk: "primary_key f_id (files d)" and f: "f \<in> set (files d)"
    and a: "f_deleted_at f \<noteq> None"
  shows "restoreFile tnow d (f_id f) (f_owner_id f) =
           (Inr (f\<lparr>f_deleted_at := None, f_updated_at := tnow\<rparr>),
            d\<lparr>files := map (\<lambda>x. if x = f
                                 then f\<lparr>f_deleted_at := None, f_updated_at := tnow\<rparr>
                                 else x) (files d)\<rparr>)"
proof -
  have q: "f_owner_id f = f_owner_id f \<and> f_deleted_at f \<noteq> None" using a by simp
  show ?thesis
    unfolding restoreFile_def Let_def
      returning_one[OF pk f,
        where Q="\<lambda>x. f_owner_id x = f_owner_id f \<and> f_deleted_at x \<noteq> None", OF q]
      update_where_one[OF pk f,
        where Q="\<lambda>x. f_owner_id x = f_owner_id f \<and> f_deleted_at x \<noteq> None"]
    using a by simp
qed

lemma file_round_trip:
  assumes pk: "primary_key f_id (files d)" and f: "f \<in> set (files d)"
    and a: "f_deleted_at f = None"
  shows "fst (softDeleteFile now t1 d (f_id f) (f_owner_id f)) =
           Inr (f\<lparr>f_deleted_at := Some now, f_updated_at := t1\<rparr>) \<and>
         restoreFile t2 (snd (softDeleteFile now t1 d (f_id f) (f_owner_id f)))
           (f_id f) (f_owner_id f) =
           (Inr (f\<lparr>f_updated_at := t2\<rparr>),
            d\<lparr>files := map (\<lambda>x. if x = f then f\<lparr>f_updated_at := t2\<rparr> else x) (files d)\<rparr>)"
proof -
  define f1 where "f1 = f\<lparr>f_deleted_at := Some now, f_updated_at := t1\<rparr>"
  define d1 where "d1 = d\<lparr>files := map (\<lambda>x. if x = f then f1 else x) (files d)\<rparr>"
  define f2 where "f2 = f1\<lparr>f_deleted_at := None, f_updated_at := t2\<rparr>"
  have ids: "f_id f1 = f_id f" "f_owner_id f1 = f_owner_id f" by (simp_all add: f1_def)
  have del: "softDeleteFile now t1 d (f_id f) (f_owner_id f) = (Inr f1, d1)"
    using softDeleteFile_handler_active[OF pk f a] file_check_owner[OF pk f refl]
    by (simp add: softDeleteFile_def guarded_cases f1_def d1_def)
  have tab: "files d1 = map (\<lambda>x. if x = f then f1 else x) (files d)" by (simp add: d1_def)
  have pk1: "primary_key f_id (files d1)"
    unfolding tab by (rule replace_row_pk[OF pk ids(1)])
  have in1: "f1 \<in> set (files d1)" unfolding tab using f by (auto simp: image_iff)
  have t: "f_deleted_at f1 \<noteq> None" by (simp add: f1_def)
  have "restoreFile t2 d1 (f_id f1) (f_owner_id f1) =
          (Inr f2, d1\<lparr>files := map (\<lambda>x. if x = f1 then f2 else x) (files d1)\<rparr>)"
    unfolding f2_def by (rule restoreFile_trashed[OF pk1 in1 t])
  moreover have "map (\<lambda>x. if x = f1 then f2 else x) (files d1) =
                 map (\<lambda>x. if x = f then f2 else x) (files d)"
    unfolding tab by (rule replace_row_twice[OF pk f ids(1)])
  moreover have "d1\<lparr>files := fs\<rparr> = d\<lparr>files := fs\<rparr>" for fs by (simp add: d1_def)
  moreover have "f2 = f\<lparr>f_updated_at := t2\<rparr>" using a by (simp add: f2_def f1_def)
  ultimately have "restoreFile t2 d1 (f_id f) (f_owner_id f) =
          (Inr (f\<lparr>f_updated_at := t2\<rparr>),
           d\<lparr>files := map (\<lambda>x. if x = f then f\<lparr>f_updated_at := t2\<rparr> else x) (files d)\<rparr>)"
    by (simp only: ids)
  then have "restoreFile t2 (snd (softDeleteFile now t1 d (f_id f) (f_owner_id f)))
           (f_id f) (f_owner_id f) =
           (Inr (f\<lparr>f_updated_at := t2\<rparr>),
            d\<lparr>files := map (\<lambda>x. if x = f then f\<lparr>f_updated_at := t2\<rparr> else x) (files d)\<rparr>)"
    by (simp only: del snd_conv)
  moreover have "fst (softDeleteFile now t1 d (f_id f) (f_owner_id f)) =
           Inr (f\<lparr>f_deleted_at := Some now, f_updated_at := t1\<rparr>)"
    by (simp only: del fst_conv f1_def)
  ultimately show ?thesis by (rule conjI[rotated])
qed

lemma softDeleteFolder_handler_trashed:
  assumes pk: "primary_key fo_id (folders d)" and f: "f \<in> set (folders d)"
    and t: "fo_deleted_at f \<noteq> None"
  shows "softDeleteFolder_handler now tnow d (fo_id f) u =
           (Inl (Error 404 ''Folder not found''), d)"
proof -
  have no: "\<forall>x\<in>set (folders d).
              \<not> (fo_id x = fo_id f \<and> fo_owner_id x = u \<and> fo_deleted_at x = None)"
    by (rule no_other_row[OF pk f]) (simp add: t)
  show ?thesis
    unfolding softDeleteFolder_handler_def Let_def update_where_none[OF no]
      returning_none[OF no]
    by simp
qed

lemma restoreFolder_active:
  assumes pk: "primary_key fo_id (folders d)" and f: "f \<in> set (folders d)"
    and t: "fo_deleted_at f = None"
  shows "restoreFolder tnow d (fo_id f) u = (Inl (Error 404 ''Folder not found in trash''), d)"
proof -
  have no: "\<forall>x\<in>set (folders d).
              \<not> (fo_id x = fo_id f \<and> fo_owner_id x = u \<and> fo_deleted_at x \<noteq> None)"
    by (rule no_other_row[OF pk f]) (simp add: t)
  show ?thesis
    unfolding restoreFolder_def Let_def update_where_none[OF no] returning_none[OF no]
    by simp
qed

lemma softDeleteFolder_trashed:
  assumes pk: "primary_key fo_id (folders d)" and f: "f \<in> set (folders d)"
    and t: "fo_deleted_at f \<noteq> None"
  shows "softDeleteFolder_handler now tnow d (fo_id f) c =
           (Inl (Error 404 ''Folder not found''), d) \<and>
         softDeleteFolder now tnow d (fo_id f) c =
           (case checkFolderPermission Owner d (fo_id f) c of
              Next \<Rightarrow> (Inl (Error 404 ''Folder not found''), d)
            | Respond e \<Rightarrow> (Inl e, d)) \<and>
         softDeleteFolder now tnow d (fo_id f) (fo_owner_id f) =
           (Inl (Error 404 ''Folder not found''), d)"
  using softDeleteFolder_handler_trashed[OF assms] folder_check_owner[OF pk f refl]
  by (simp add: softDeleteFolder_def guarded_cases)

lemma softDeleteFolder_handler_active:
  assumes pk: "primary_key fo_id (folders d)" and f: "f \<in> set (folders d)"
    and a: "fo_deleted_at f = None"
  shows "softDeleteFolder_handler now tnow d (fo_id f) (fo_owner_id f) =
           (Inr (f\<lparr>fo_deleted_at := Some now, fo_updated_at := tnow\<rparr>),
            d\<lparr>folders := map (\<lambda>x. if x = f
                                 then f\<lparr>fo_deleted_at := Some now, fo_updated_at := tnow\<rparr>
                                 else x) (folders d)\<rparr>)"
proof -
  have q: "fo_owner_id f = fo_owner_id f \<and> fo_deleted_at f = None" using a by simp
  show ?thesis
    unfolding softDeleteFolder_handler_def Let_def
      returning_one[OF pk f,
        where Q="\<lambda>x. fo_owner_id x = fo_owner_id f \<and> fo_deleted_at x = None", OF q]
      update_where_one[OF pk f,
        where Q="\<lambda>x. fo_owner_id x = fo_owner_id f \<and> fo_deleted_at x = None"]
    using a by simp
qed

lemma restoreFolder_trashed:
  assumes pk: "primary_key fo_id (folders d)" and f: "f \<in> set (folders d)"
    and a: "fo_deleted_at f \<noteq> None"
  shows "restoreFolder tnow d (fo_id f) (fo_owner_id f) =
           (Inr (f\<lparr>fo_deleted_at := None, fo_updated_at := tnow\<rparr>),
            d\<lparr>folders := map (\<lambda>x. if x = f
                                 then f\<lparr>fo_deleted_at := None, fo_updated_at := tnow\<rparr>
                                 else x) (folders d)\<rparr>)"
proof -
  have q: "fo_owner_id f = fo_owner_id f \<and> fo_deleted_at f \<noteq> None" using a by simp
  show ?thesis
    unfolding restoreFolder_def Let_def
      returning_one[OF pk f,
        where Q="\<lambda>x. fo_owner_id x = fo_owner_id f \<and> fo_deleted_at x \<noteq> None", OF q]
      update_where_one[OF pk f,
        where Q="\<lambda>x. fo_owner_id x = fo_owner_id f \<and> fo_deleted_at x \<noteq> None"]
    using a by simp
qed

lemma folder_round_trip:
  assumes pk: "primary_key fo_id (folders d)" and f: "f \<in> set (folders d)"
    and a: "fo_deleted_at f = None"
  shows "fst (softDeleteFolder now t1 d (fo_id f) (fo_owner_id f)) =
           Inr (f\<lparr>fo_deleted_at := Some now, fo_updated_at := t1\<rparr>) \<and>
         restoreFolder t2 (snd (softDeleteFolder now t1 d (fo_id f) (fo_owner_id f)))
           (fo_id f) (fo_owner_id f) =
           (Inr (f\<lparr>fo_updated_at := t2\<rparr>),
            d\<lparr>folders := map (\<lambda>x. if x = f then f\<lparr>fo_updated_at := t2\<rparr> else x) (folders d)\<rparr>)"
proof -
  define f1 where "f1 = f\<lparr>fo_deleted_at := Some now, fo_updated_at := t1\<rparr>"
  define d1 where "d1 = d\<lparr>folders := map (\<lambda>x. if x = f then f1 else x) (folders d)\<rparr>"
  define f2 where "f2 = f1\<lparr>fo_deleted_at := None, fo_updated_at := t2\<rparr>"
  have ids: "fo_id f1 = fo_id f" "fo_owner_id f1 = fo_owner_id f" by (simp_all add: f1_def)
  have del: "softDeleteFolder now t1 d (fo_id f) (fo_owner_id f) = (Inr f1, d1)"
    using softDeleteFolder_handler_active[OF pk f a] folder_check_owner[OF pk f refl]
    by (simp add: softDeleteFolder_def guarded_cases f1_def d1_def)
  have tab: "folders d1 = map (\<lambda>x. if x = f then f1 else x) (folders d)" by (simp add: d1_def)
  have pk1: "primary_key fo_id (folders d1)"
    unfolding tab by (rule replace_row_pk[OF pk ids(1)])
  have in1: "f1 \<in> set (folders d1)" unfolding tab using f by (auto simp: image_iff)
  have t: "fo_deleted_at f1 \<noteq> None" by (simp add: f1_def)
  have "restoreFolder t2 d1 (fo_id f1) (fo_owner_id f1) =
          (Inr f2, d1\<lparr>folders := map (\<lambda>x. if x = f1 then f2 else x) (folders d1)\<rparr>)"
    unfolding f2_def by (rule restoreFolder_trashed[OF pk1 in1 t])
  moreover have "map (\<lambda>x. if x = f1 then f2 else x) (folders d1) =
                 map (\<lambda>x. if x = f then f2 else x) (folders d)"
    unfolding tab by (rule replace_row_twice[OF pk f ids(1)])
  moreover have "d1\<lparr>folders := fs\<rparr> = d\<lparr>folders := fs\<rparr>" for fs by (simp add: d1_def)
  moreover have "f2 = f\<lparr>fo_updated_at := t2\<rparr>" using a by (simp add: f2_def f1_def)
  ultimately have "restoreFolder t2 d1 (fo_id f) (fo_owner_id f) =
          (Inr (f\<lparr>fo_updated_at := t2\<rparr>),
           d\<lparr>folders := map (\<lambda>x. if x = f then f\<lparr>fo_updated_at := t2\<rparr> else x) (folders d)\<rparr>)"
    by (simp only: ids)
  then have "restoreFolder t2 (snd (softDeleteFolder now t1 d (fo_id f) (fo_owner_id f)))
           (fo_id f) (fo_owner_id f) =
           (Inr (f\<lparr>fo_updated_at := t2\<rparr>),
            d\<lparr>folders := map (\<lambda>x. if x = f then f\<lparr>fo_updated_at := t2\<rparr> else x) (folders d)\<rparr>)"
    by (simp only: del snd_conv)
  moreover have "fst (softDeleteFolder now t1 d (fo_id f) (fo_owner_id f)) =
           Inr (f\<lparr>fo_deleted_at := Some now, fo_updated_at := t1\<rparr>)"
    by (simp only: del fst_conv f1_def)
  ultimately show ?thesis by (rule conjI[rotated])
qed

text \<open>
  Claim C6. In a store that satisfies the schema, for every file and folder already in
  the trash a soft-delete request leaves the store unchanged and is answered 404: the
  handler answers so for every caller, and so does the whole route for the owner and
  for every other caller whom the owner-level middleware hands on (a caller it refuses
  gets its 403, and the store is unchanged as well). For every active file and folder
  a restore request of any caller is answered 404 and leaves the store unchanged.
\<close>

theorem wrong_state_not_found:
  assumes "schema_ok d"
  shows "(\<forall>f\<in>set (files d).
            (f_deleted_at f \<noteq> None \<longrightarrow>
               softDeleteFile_handler now tnow d (f_id f) caller =
                 (Inl (Error 404 ''File not found''), d) \<and>
               softDeleteFile now tnow d (f_id f) caller =
                 (case checkFilePermission Owner d (f_id f) caller of
                    Next \<Rightarrow> (Inl (Error 404 ''File not found''), d)
                  | Respond e \<Rightarrow> (Inl e, d)) \<and>
               softDeleteFile now tnow d (f_id f) (f_owner_id f) =
                 (Inl (Error 404 ''File not found''), d)) \<and>
            (f_deleted_at f = None \<longrightarrow>
               restoreFile tnow d (f_id f) caller =
                 (Inl (Error 404 ''File not found in trash''), d))) \<and>
         (\<forall>fo\<in>set (folders d).
            (fo_deleted_at fo \<noteq> None \<longrightarrow>
               softDeleteFolder_handler now tnow d (fo_id fo) caller =
                 (Inl (Error 404 ''Folder not found''), d) \<and>
               softDeleteFolder now tnow d (fo_id fo) caller =
                 (case checkFolderPermission Owner d (fo_id fo) caller of
                    Next \<Rightarrow> (Inl (Error 404 ''Folder not found''), d)
                  | Respond e \<Rightarrow> (Inl e, d)) \<and>
               softDeleteFolder now tnow d (fo_id fo) (fo_owner_id fo) =
                 (Inl (Error 404 ''Folder not found''), d)) \<and>
            (fo_deleted_at fo = None \<longrightarrow>
               restoreFolder tnow d (fo_id fo) caller =
                 (Inl (Error 404 ''Folder not found in trash''), d)))"
proof -
  from assms have pk: "primary_key f_id (files d)" and pko: "primary_key fo_id (folders d)"
    by (simp_all add: schema_ok_def)
  show ?thesis
    using softDeleteFile_trashed[OF pk] softDeleteFolder_trashed[OF pko]
      restoreFile_active[OF pk] restoreFolder_active[OF pko]
    by blast
qed

theorem wrong_state_not_found_witness:
  "schema_ok trashed_db \<and> schema_ok example_db \<and>
   softDeleteFile 7 8 trashed_db file_a_id ''u1'' =
     (Inl (Error 404 ''File not found''), trashed_db) \<and>
   softDeleteFolder 7 8 trashed_db folder_r_id ''u1'' =
     (Inl (Error 404 ''Folder not found''), trashed_db) \<and>
   restoreFile 8 example_db file_a_id ''u1'' =
     (Inl (Error 404 ''File not found in trash''), example_db) \<and>
   restoreFolder 8 example_db folder_r_id ''u1'' =
     (Inl (Error 404 ''Folder not found in trash''), example_db)"
proof -
  have t: "files trashed_db = [file_a\<lparr>f_deleted_at := Some 5, f_updated_at := 6\<rparr>]"
    "folders trashed_db = [folder_r\<lparr>fo_deleted_at := Some 5, fo_updated_at := 6\<rparr>]"
    by (simp_all add: trashed_db_def)
  from wrong_state_not_found[where now=7 and tnow=8 and caller="''u1''",
      OF trashed_db_schema_ok]
  have "softDeleteFile 7 8 trashed_db file_a_id ''u1'' =
          (Inl (Error 404 ''File not found''), trashed_db)"
    and "softDeleteFolder 7 8 trashed_db folder_r_id ''u1'' =
          (Inl (Error 404 ''Folder not found''), trashed_db)"
    by (auto simp: t example_rows)
  moreover from wrong_state_not_found[where now=7 and tnow=8 and caller="''u1''",
      OF example_db_schema_ok]
  have "restoreFile 8 example_db file_a_id ''u1'' =
          (Inl (Error 404 ''File not found in trash''), example_db)"
    and "restoreFolder 8 example_db folder_r_id ''u1'' =
          (Inl (Error 404 ''Folder not found in trash''), example_db)"
    by (auto simp: example_tables example_rows)
  ultimately show ?thesis using trashed_db_schema_ok example_db_schema_ok by simp
qed

text \<open>
  Claim C5, as the code has it. The claim says that soft-delete followed by restore
  leaves every field but \<^verbatim>\<open>deleted_at\<close> as it was, \<^verbatim>\<open>updated_at\<close> included. The
  trigger \<^verbatim>\<open>update_updated_at_column\<close> runs on both updates, so \<^verbatim>\<open>updated_at\<close>
  ends as the time of the restore: after a soft-delete and a restore at time 9 the
  example file, last updated at time 1, reads 9.
\<close>

theorem round_trip_updated_at_counterexample:
  "map f_updated_at
     (files (snd (restoreFile 9 (snd (softDeleteFile 5 6 example_db file_a_id ''u1''))
                    file_a_id ''u1''))) = [9] \<and>
   map f_updated_at (files example_db) = [1]"
  by (simp add: restoreFile_def softDeleteFile_def softDeleteFile_handler_def guarded_def
      update_where_def returning_def example_owner_check example_tables example_rows)

text \<open>
  Claim C5, amended. In a store that satisfies the schema, for every active file and
  folder, the owner's soft-delete succeeds and the owner's restore after it succeeds and
  yields the row in which every field other than \<^verbatim>\<open>updated_at\<close> has the value it
  had before the soft-delete (\<^verbatim>\<open>deleted_at\<close> is null again), \<^verbatim>\<open>updated_at\<close> is the
  time of the restore, and every other row of the store is as it was.
\<close>

theorem trash_restore_round_trip:
  assumes "schema_ok d"
  shows "(\<forall>f\<in>set (files d). f_deleted_at f = None \<longrightarrow>
            fst (softDeleteFile now t1 d (f_id f) (f_owner_id f)) =
              Inr (f\<lparr>f_deleted_at := Some now, f_updated_at := t1\<rparr>) \<and>
            restoreFile t2 (snd (softDeleteFile now t1 d (f_id f) (f_owner_id f)))
              (f_id f) (f_owner_id f) =
              (Inr (f\<lparr>f_updated_at := t2\<rparr>),
               d\<lparr>files := map (\<lambda>x. if x = f then f\<lparr>f_updated_at := t2\<rparr> else x)
                              (files d)\<rparr>)) \<and>
         (\<forall>fo\<in>set (folders d). fo_deleted_at fo = None \<longrightarrow>
            fst (softDeleteFolder now t1 d (fo_id fo) (fo_owner_id fo)) =
              Inr (fo\<lparr>fo_deleted_at := Some now, fo_updated_at := t1\<rparr>) \<and>
            restoreFolder t2 (snd (softDeleteFolder now t1 d (fo_id fo) (fo_owner_id fo)))
              (fo_id fo) (fo_owner_id fo) =
              (Inr (fo\<lparr>fo_updated_at := t2\<rparr>),
               d\<lparr>folders := map (\<lambda>x. if x = fo then fo\<lparr>fo_updated_at := t2\<rparr> else x)
                                (folders d)\<rparr>))"
proof -
  from assms have pk: "primary_key f_id (files d)" and pko: "primary_key fo_id (folders d)"
    by (simp_all add: schema_ok_def)
  show ?thesis
    using file_round_trip[OF pk] folder_round_trip[OF pko] by blast
qed

theorem trash_restore_round_trip_witness:
  "schema_ok example_db \<and>
   restoreFile 9 (snd (softDeleteFile 5 6 example_db file_a_id ''u1'')) file_a_id ''u1'' =
     (Inr (file_a\<lparr>f_updated_at := 9\<rparr>),
      example_db\<lparr>files := [file_a\<lparr>f_updated_at := 9\<rparr>]\<rparr>) \<and>
   restoreFolder 9 (snd (softDeleteFolder 5 6 example_db folder_r_id ''u1''))
       folder_r_id ''u1'' =
     (Inr (folder_r\<lparr>fo_updated_at := 9\<rparr>),
      example_db\<lparr>folders := [folder_r\<lparr>fo_updated_at := 9\<rparr>]\<rparr>)"
proof -
  from trash_restore_round_trip[where now=5 and ?t1.0=6 and ?t2.0=9,
      OF example_db_schema_ok]
  have "restoreFile 9 (snd (softDeleteFile 5 6 example_db file_a_id ''u1''))
          file_a_id ''u1'' =
        (Inr (file_a\<lparr>f_updated_at := 9\<rparr>),
         example_db\<lparr>files := [file_a\<lparr>f_updated_at := 9\<rparr>]\<rparr>)"
    and "restoreFolder 9 (snd (softDeleteFolder 5 6 example_db folder_r_id ''u1''))
          folder_r_id ''u1'' =
        (Inr (folder_r\<lparr>fo_updated_at := 9\<rparr>),
         example_db\<lparr>folders := [folder_r\<lparr>fo_updated_at := 9\<rparr>]\<rparr>)"
    by (simp_all add: example_tables example_rows)
  then show ?thesis using example_db_schema_ok by simp
qed

section \<open>Only the caller's own rows change\<close>

lemma update_where_foreign:
  assumes "\<And>x. sel x \<Longrightarrow> own x = u" "\<And>x. own (upd x) = own x"
  shows "filter (\<lambda>x. own x \<noteq> u) (update_where sel upd rows) = filter (\<lambda>x. own x \<noteq> u) rows"
  using assms by (induction rows) (auto simp: update_where_def)

lemma update_where_untargeted:
  assumes "\<And>x. sel x \<Longrightarrow> key x = i \<and> own x = u"
    and "\<forall>x\<in>set rows. key x = i \<longrightarrow> own x \<noteq> u"
  shows "update_where sel upd rows = rows"
  using assms by (intro update_where_none) blast

lemma delete_foreign:
  assumes "\<And>x. sel x \<Longrightarrow> own x = u"
  shows "filter (\<lambda>x. own x \<noteq> u) (filter (\<lambda>x. \<not> sel x) rows) = filter (\<lambda>x. own x \<noteq> u) rows"
  using assms by (induction rows) auto

lemma delete_untargeted:
  assumes "\<And>x. sel x \<Longrightarrow> key x = i \<and> own x = u"
    and "\<forall>x\<in>set rows. key x = i \<longrightarrow> own x \<noteq> u"
  shows "filter (\<lambda>x. \<not> sel x) rows = rows"
  using assms by (induction rows) auto

lemma renameFile_foreign:
  "filter (\<lambda>x. f_owner_id x \<noteq> u) (files (snd (renameFile e t d i u n))) =
   filter (\<lambda>x. f_owner_id x \<noteq> u) (files d)"
proof -
  have "filter (\<lambda>x. f_owner_id x \<noteq> u) (update_where (\<lambda>x. f_id x = sanitizeQueryParam i \<and> f_owner_id x = u) (\<lambda>x. x\<lparr>f_name := m, f_updated_at := t\<rparr>) (files d)) =
        filter (\<lambda>x. f_owner_id x \<noteq> u) (files d)" for m
    by (rule update_where_foreign) simp_all
  then show ?thesis
    by (simp add: renameFile_def renameFile_handler_def guarded_def Let_def
        split: decision.split option.split)
qed

lemma renameFile_other_table: "folders (snd (renameFile e t d i u n)) = folders d"
  by (simp add: renameFile_def renameFile_handler_def guarded_def Let_def
      split: decision.split option.split)

lemma renameFile_untargeted:
  assumes "\<forall>x\<in>set (files d). f_id x = sanitizeQueryParam i \<longrightarrow> f_owner_id x \<noteq> u"
  shows "files (snd (renameFile e t d i u n)) = files d"
proof -
  have "update_where (\<lambda>x. f_id x = sanitizeQueryParam i \<and> f_owner_id x = u) (\<lambda>x. x\<lparr>f_name := m, f_updated_at := t\<rparr>) (files d) = files d" for m
    by (rule update_where_untargeted[OF _ assms]) simp
  then show ?thesis
    by (simp add: renameFile_def renameFile_handler_def guarded_def Let_def
        split: decision.split option.split)
qed

lemma softDeleteFile_foreign:
  "filter (\<lambda>x. f_owner_id x \<noteq> u) (files (snd (softDeleteFile now t d i u))) =
   filter (\<lambda>x. f_owner_id x \<noteq> u) (files d)"
proof -
  have "filter (\<lambda>x. f_owner_id x \<noteq> u) (update_where (\<lambda>x. f_id x = i \<and> f_owner_id x = u \<and> Q x) (\<lambda>x. x\<lparr>f_deleted_at := Some now, f_updated_at := t\<rparr>) (files d)) =
        filter (\<lambda>x. f_owner_id x \<noteq> u) (files d)" for Q
    by (rule update_where_foreign) simp_all
  then show ?thesis
    by (simp add: softDeleteFile_def softDeleteFile_handler_def guarded_def Let_def
        split: decision.split option.split)
qed

lemma softDeleteFile_other_table: "folders (snd (softDeleteFile now t d i u)) = folders d"
  by (simp add: softDeleteFile_def softDeleteFile_handler_def guarded_def Let_def
      split: decision.split option.split)

lemma softDeleteFile_untargeted:
  assumes "\<forall>x\<in>set (files d). f_id x = i \<longrightarrow> f_owner_id x \<noteq> u"
  shows "files (snd (softDeleteFile now t d i u)) = files d"
proof -
  have "update_where (\<lambda>x. f_id x = i \<and> f_owner_id x = u \<and> Q x) (\<lambda>x. x\<lparr>f_deleted_at := Some now, f_updated_at := t\<rparr>) (files d) = files d" for Q
    by (rule update_where_untargeted[OF _ assms]) simp
  then show ?thesis
    by (simp add: softDeleteFile_def softDeleteFile_handler_def guarded_def Let_def
        split: decision.split option.split)
qed

lemma restoreFile_foreign:
  "filter (\<lambda>x. f_owner_id x \<noteq> u) (files (snd (restoreFile t d i u))) =
   filter (\<lambda>x. f_owner_id x \<noteq> u) (files d)"
proof -
  have "filter (\<lambda>x. f_owner_id x \<noteq> u) (update_where (\<lambda>x. f_id x = i \<and> f_owner_id x = u \<and> Q x) (\<lambda>x. x\<lparr>f_deleted_at := None, f_updated_at := t\<rparr>) (files d)) =
        filter (\<lambda>x. f_owner_id x \<noteq> u) (files d)" for Q
    by (rule update_where_foreign) simp_all
  then show ?thesis
    by (simp add: restoreFile_def guarded_def Let_def
        split: decision.split option.split)
qed

lemma restoreFile_other_table: "folders (snd (restoreFile t d i u)) = folders d"
  by (simp add: restoreFile_def guarded_def Let_def
      split: decision.split option.split)

lemma restoreFile_untargeted:
  assumes "\<forall>x\<in>set (files d). f_id x = i \<longrightarrow> f_owner_id x \<noteq> u"
  shows "files (snd (restoreFile t d i u)) = files d"
proof -
  have "update_where (\<lambda>x. f_id x = i \<and> f_owner_id x = u \<and> Q x) (\<lambda>x. x\<lparr>f_deleted_at := None, f_updated_at := t\<rparr>) (files d) = files d" for Q
    by (rule update_where_untargeted[OF _ assms]) simp
  then show ?thesis
    by (simp add: restoreFile_def guarded_def Let_def
        split: decision.split option.split)
qed

lemma permanentDeleteFile_foreign:
  "filter (\<lambda>x. f_owner_id x \<noteq> u) (files (fst (snd (permanentDeleteFile fl d objects i u)))) =
   filter (\<lambda>x. f_owner_id x \<noteq> u) (files d)"
proof -
  have "filter (\<lambda>x. f_owner_id x \<noteq> u) (filter (\<lambda>x. \<not> (f_id x = i \<and> f_owner_id x = u)) (files d)) =
        filter (\<lambda>x. f_owner_id x \<noteq> u) (files d)"
    by (rule delete_foreign[where sel="\<lambda>x. f_id x = i \<and> f_owner_id x = u"]) simp
  then show ?thesis
    by (simp add: permanentDeleteFile_def guarded_def Let_def
        split: decision.split option.split)
qed

lemma permanentDeleteFile_other_table: "folders (fst (snd (permanentDeleteFile fl d objects i u))) = folders d"
  by (simp add: permanentDeleteFile_def guarded_def Let_def
      split: decision.split option.split)

lemma permanentDeleteFile_untargeted:
  assumes "\<forall>x\<in>set (files d). f_id x = i \<longrightarrow> f_owner_id x \<noteq> u"
  shows "files (fst (snd (permanentDeleteFile fl d objects i u))) = files d"
proof -
  have "filter (\<lambda>x. \<not> (f_id x = i \<and> f_owner_id x = u)) (files d) = files d"
    by (rule delete_untargeted[where sel="\<lambda>x. f_id x = i \<and> f_owner_id x = u", OF _ assms])
      simp
  then show ?thesis
    by (simp add: permanentDeleteFile_def guarded_def Let_def
        split: decision.split option.split)
qed

lemma generateShareLink_foreign:
  "filter (\<lambda>x. f_owner_id x \<noteq> u) (files (snd (generateShareLink tok t d i u))) =
   filter (\<lambda>x. f_owner_id x \<noteq> u) (files d)"
proof -
  have "filter (\<lambda>x. f_owner_id x \<noteq> u) (update_where (\<lambda>x. f_id x = i \<and> f_owner_id x = u \<and> Q x) (\<lambda>x. x\<lparr>f_share_token := Some tok, f_is_public := True, f_updated_at := t\<rparr>) (files d)) =
        filter (\<lambda>x. f_owner_id x \<noteq> u) (files d)" for Q
    by (rule update_where_foreign) simp_all
  then show ?thesis
    by (simp add: generateShareLink_def generateShareLink_handler_def guarded_def Let_def
        split: decision.split option.split)
qed

lemma generateShareLink_other_table: "folders (snd (generateShareLink tok t d i u)) = folders d"
  by (simp add: generateShareLink_def generateShareLink_handler_def guarded_def Let_def
      split: decision.split option.split)

lemma generateShareLink_untargeted:
  assumes "\<forall>x\<in>set (files d). f_id x = i \<longrightarrow> f_owner_id x \<noteq> u"
  shows "files (snd (generateShareLink tok t d i u)) = files d"
proof -
  have "update_where (\<lambda>x. f_id x = i \<and> f_owner_id x = u \<and> Q x) (\<lambda>x. x\<lparr>f_share_token := Some tok, f_is_public := True, f_updated_at := t\<rparr>) (files d) = files d" for Q
    by (rule update_where_untargeted[OF _ assms]) simp
  then show ?thesis
    by (simp add: generateShareLink_def generateShareLink_handler_def guarded_def Let_def
        split: decision.split option.split)
qed

lemma removeSharing_foreign:
  "filter (\<lambda>x. f_owner_id x \<noteq> u) (files (snd (removeSharing t d i u))) =
   filter (\<lambda>x. f_owner_id x \<noteq> u) (files d)"
proof -
  have "filter (\<lambda>x. f_owner_id x \<noteq> u) (update_where (\<lambda>x. f_id x = i \<and> f_owner_id x = u) (\<lambda>x. x\<lparr>f_share_token := None, f_is_public := False, f_updated_at := t\<rparr>) (files d)) =
        filter (\<lambda>x. f_owner_id x \<noteq> u) (files d)" 
    by (rule update_where_foreign) simp_all
  then show ?thesis
    by (simp add: removeSharing_def removeSharing_handler_def guarded_def Let_def
        split: decision.split option.split)
qed

lemma removeSharing_other_table: "folders (snd (removeSharing t d i u)) = folders d"
  by (simp add: removeSharing_def removeSharing_handler_def guarded_def Let_def
      split: decision.split option.split)

lemma removeSharing_untargeted:
  assumes "\<forall>x\<in>set (files d). f_id x = i \<longrightarrow> f_owner_id x \<noteq> u"
  shows "files (snd (removeSharing t d i u)) = files d"
proof -
  have "update_where (\<lambda>x. f_id x = i \<and> f_owner_id x = u) (\<lambda>x. x\<lparr>f_share_token := None, f_is_public := False, f_updated_at := t\<rparr>) (files d) = files d" 
    by (rule update_where_untargeted[OF _ assms]) simp
  then show ?thesis
    by (simp add: removeSharing_def removeSharing_handler_def guarded_def Let_def
        split: decision.split option.split)
qed

lemma renameFolder_foreign:
  "filter (\<lambda>x. fo_owner_id x \<noteq> u) (folders (snd (renameFolder e t d i u n))) =
   filter (\<lambda>x. fo_owner_id x \<noteq> u) (folders d)"
proof -
  have "filter (\<lambda>x. fo_owner_id x \<noteq> u) (update_where (\<lambda>x. fo_id x = sanitizeQueryParam i \<and> fo_owner_id x = u) (\<lambda>x. x\<lparr>fo_name := m, fo_updated_at := t\<rparr>) (folders d)) =
        filter (\<lambda>x. fo_owner_id x \<noteq> u) (folders d)" for m
    by (rule update_where_foreign) simp_all
  then show ?thesis
    by (simp add: renameFolder_def renameFolder_handler_def guarded_def Let_def
        split: decision.split option.split)
qed

lemma renameFolder_other_table: "files (snd (renameFolder e t d i u n)) = files d"
  by (simp add: renameFolder_def renameFolder_handler_def guarded_def Let_def
      split: decision.split option.split)

lemma renameFolder_untargeted:
  assumes "\<forall>x\<in>set (folders d). fo_id x = sanitizeQueryParam i \<longrightarrow> fo_owner_id x \<noteq> u"
  shows "folders (snd (renameFolder e t d i u n)) = folders d"
proof -
  have "update_where (\<lambda>x. fo_id x = sanitizeQueryParam i \<and> fo_owner_id x = u) (\<lambda>x. x\<lparr>fo_name := m, fo_updated_at := t\<rparr>) (folders d) = folders d" for m
    by (rule update_where_untargeted[OF _ assms]) simp
  then show ?thesis
    by (simp add: renameFolder_def renameFolder_handler_def guarded_def Let_def
        split: decision.split option.split)
qed

lemma softDeleteFolder_foreign:
  "filter (\<lambda>x. fo_owner_id x \<noteq> u) (folders (snd (softDeleteFolder now t d i u))) =
   filter (\<lambda>x. fo_owner_id x \<noteq> u) (folders d)"
proof -
  have "filter (\<lambda>x. fo_owner_id x \<noteq> u) (update_where (\<lambda>x. fo_id x = i \<and> fo_owner_id x = u \<and> Q x) (\<lambda>x. x\<lparr>fo_deleted_at := Some now, fo_updated_at := t\<rparr>) (folders d)) =
        filter (\<lambda>x. fo_owner_id x \<noteq> u) (folders d)" for Q
    by (rule update_where_foreign) simp_all
  then show ?thesis
    by (simp add: softDeleteFolder_def softDeleteFolder_handler_def guarded_def Let_def
        split: decision.split option.split)
qed

lemma softDeleteFolder_other_table: "files (snd (softDeleteFolder now t d i u)) = files d"
  by (simp add: softDeleteFolder_def softDeleteFolder_handler_def guarded_def Let_def
      split: decision.split option.split)

lemma softDeleteFolder_untargeted:
  assumes "\<forall>x\<in>set (folders d). fo_id x = i \<longrightarrow> fo_owner_id x \<noteq> u"
  shows "folders (snd (softDeleteFolder now t d i u)) = folders d"
proof -
  have "update_where (\<lambda>x. fo_id x = i \<and> fo_owner_id x = u \<and> Q x) (\<lambda>x. x\<lparr>fo_deleted_at := Some now, fo_updated_at := t\<rparr>) (folders d) = folders d" for Q
    by (rule update_where_untargeted[OF _ assms]) simp
  then show ?thesis
    by (simp add: softDeleteFolder_def softDeleteFolder_handler_def guarded_def Let_def
        split: decision.split option.split)
qed

lemma restoreFolder_foreign:
  "filter (\<lambda>x. fo_owner_id x \<noteq> u) (folders (snd (restoreFolder t d i u))) =
   filter (\<lambda>x. fo_owner_id x \<noteq> u) (folders d)"
proof -
  have "filter (\<lambda>x. fo_owner_id x \<noteq> u) (update_where (\<lambda>x. fo_id x = i \<and> fo_owner_id x = u \<and> Q x) (\<lambda>x. x\<lparr>fo_deleted_at := None, fo_updated_at := t\<rparr>) (folders d)) =
        filter (\<lambda>x. fo_owner_id x \<noteq> u) (folders d)" for Q
    by (rule update_where_foreign) simp_all
  then show ?thesis
    by (simp add: restoreFolder_def guarded_def Let_def
        split: decision.split option.split)
qed

lemma restoreFolder_other_table: "files (snd (restoreFolder t d i u)) = files d"
  by (simp add: restoreFolder_def guarded_def Let_def
      split: decision.split option.split)

lemma restoreFolder_untargeted:
  assumes "\<forall>x\<in>set (folders d). fo_id x = i \<longrightarrow> fo_owner_id x \<noteq> u"
  shows "folders (snd (restoreFolder t d i u)) = folders d"
proof -
  have "update_where (\<lambda>x. fo_id x = i \<and> fo_owner_id x = u \<and> Q x) (\<lambda>x. x\<lparr>fo_deleted_at := None, fo_updated_at := t\<rparr>) (folders d) = folders d" for Q
    by (rule update_where_untargeted[OF _ assms]) simp
  then show ?thesis
    by (simp add: restoreFolder_def guarded_def Let_def
        split: decision.split option.split)
qed

text \<open>
  Claim C10. Whatever request of the nine routes that update or delete a row of
  \<^verbatim>\<open>files\<close> or \<^verbatim>\<open>folders\<close> a caller makes, and whatever grants the caller holds,
  the rows of both tables that the caller does not own are after the request what they
  were before it; and when the caller owns no row with the identifier of the request,
  both tables are unchanged.
\<close>

theorem only_owner_rows_change:
  "filter (\<lambda>f. f_owner_id f \<noteq> caller) (files (perform e fl now tnow objects caller r d)) =
     filter (\<lambda>f. f_owner_id f \<noteq> caller) (files d) \<and>
   filter (\<lambda>fo. fo_owner_id fo \<noteq> caller)
       (folders (perform e fl now tnow objects caller r d)) =
     filter (\<lambda>fo. fo_owner_id fo \<noteq> caller) (folders d) \<and>
   ((\<forall>f\<in>set (files d). f_id f = request_ident r \<longrightarrow> f_owner_id f \<noteq> caller) \<and>
    (\<forall>fo\<in>set (folders d). fo_id fo = request_ident r \<longrightarrow> fo_owner_id fo \<noteq> caller) \<longrightarrow>
      files (perform e fl now tnow objects caller r d) = files d \<and>
      folders (perform e fl now tnow objects caller r d) = folders d)"
proof (cases r)
  case (RenameFile i n)
  then show ?thesis
    using renameFile_foreign renameFile_other_table renameFile_untargeted by simp
next
  case (SoftDeleteFile i)
  then show ?thesis
    using softDeleteFile_foreign softDeleteFile_other_table softDeleteFile_untargeted by simp
next
  case (RestoreFile i)
  then show ?thesis
    using restoreFile_foreign restoreFile_other_table restoreFile_untargeted by simp
next
  case (PermanentDeleteFile i)
  then show ?thesis
    using permanentDeleteFile_foreign permanentDeleteFile_other_table
      permanentDeleteFile_untargeted by simp
next
  case (GenerateShareLink i tok)
  then show ?thesis
    using generateShareLink_foreign generateShareLink_other_table
      generateShareLink_untargeted by simp
next
  case (RemoveSharing i)
  then show ?thesis
    using removeSharing_foreign removeSharing_other_table removeSharing_untargeted by simp
next
  case (RenameFolder i n)
  then show ?thesis
    using renameFolder_foreign renameFolder_other_table renameFolder_untargeted by simp
next
  case (SoftDeleteFolder i)
  then show ?thesis
    using softDeleteFolder_foreign softDeleteFolder_other_table softDeleteFolder_untargeted
    by simp
next
  case (RestoreFolder i)
  then show ?thesis
    using restoreFolder_foreign restoreFolder_other_table restoreFolder_untargeted by simp
qed

lemma owner_grant_tables:
  "files owner_grant_db = [file_a]" "folders owner_grant_db = [folder_r]"
  "file_permissions owner_grant_db =
     [\<lparr>p_resource = file_a_id, p_user_id = ''u2'', p_permission = ''owner''\<rparr>]"
  "folder_permissions owner_grant_db =
     [\<lparr>p_resource = folder_r_id, p_user_id = ''u2'', p_permission = ''owner''\<rparr>]"
  by (simp_all add: owner_grant_db_def example_db_def)

lemma owner_grant_check:
  "checkFilePermission Owner owner_grant_db file_a_id ''u2'' = Next"
  "checkFolderPermission Owner owner_grant_db folder_r_id ''u2'' = Next"
  by (simp_all add: checkFilePermission_def checkFolderPermission_def owner_grant_tables
      example_rows permissionLevels_def)

theorem only_owner_rows_change_witness:
  "checkFilePermission Owner owner_grant_db file_a_id ''u2'' = Next \<and>
   files (perform example_env no_faults 5 6 {} ''u2'' (SoftDeleteFile file_a_id)
            owner_grant_db) = files owner_grant_db \<and>
   folders (perform example_env no_faults 5 6 {} ''u2'' (SoftDeleteFile file_a_id)
              owner_grant_db) = folders owner_grant_db \<and>
   checkFolderPermission Owner owner_grant_db folder_r_id ''u2'' = Next \<and>
   folders (perform example_env no_faults 5 6 {} ''u2'' (SoftDeleteFolder folder_r_id)
              owner_grant_db) = folders owner_grant_db"
proof -
  from only_owner_rows_change[where caller="''u2''" and r="SoftDeleteFile file_a_id"
      and d=owner_grant_db and e=example_env and fl=no_faults and now=5 and tnow=6
      and objects="{}"]
  have "files (perform example_env no_faults 5 6 {} ''u2'' (SoftDeleteFile file_a_id)
            owner_grant_db) = files owner_grant_db \<and>
        folders (perform example_env no_faults 5 6 {} ''u2'' (SoftDeleteFile file_a_id)
              owner_grant_db) = folders owner_grant_db"
    by (simp add: owner_grant_tables example_rows)
  moreover
  from only_owner_rows_change[where caller="''u2''" and r="SoftDeleteFolder folder_r_id"
      and d=owner_grant_db and e=example_env and fl=no_faults and now=5 and tnow=6
      and objects="{}"]
  have "folders (perform example_env no_faults 5 6 {} ''u2'' (SoftDeleteFolder folder_r_id)
              owner_grant_db) = folders owner_grant_db"
    by (simp add: owner_grant_tables example_rows)
  ultimately show ?thesis using owner_grant_check by simp
qed

lemma renameFile_foreign_row:
  assumes pk: "primary_key f_id (files d)" and f: "f \<in> set (files d)"
    and no: "f_owner_id f \<noteq> caller" and ok: "checkFilePermission Edit d (f_id f) caller = Next"
    and s: "sanitizeQueryParam (f_id f) = f_id f"
  shows "renameFile e tnow d (f_id f) caller name =
           (Inl (if \<not> isValidUUID e (f_id f) then Error 400 ''Invalid file ID''
                 else if sanitizeFileName e name = [] then Error 400 ''Valid file name is required''
                 else StoreError 500), d)"
proof -
  have none: "\<forall>x\<in>set (files d). \<not> (f_id x = f_id f \<and> f_owner_id x = caller)"
    by (rule no_other_row[OF pk f, where Q="\<lambda>x. f_owner_id x = caller"]) (simp add: no)
  have u: "update_where (\<lambda>x. f_id x = f_id f \<and> f_owner_id x = caller) upd (files d) = files d"
    for upd by (rule update_where_none[OF none])
  have r: "returning (\<lambda>x. f_id x = f_id f \<and> f_owner_id x = caller) upd (files d) = []"
    for upd by (rule returning_none[OF none])
  have fl: "filter (\<lambda>x. f_id x = f_id f \<and> f_owner_id x = caller) (files d) = []"
    by (rule filter_no_row[OF none])
  show ?thesis
    by (simp add: renameFile_def guarded_def ok renameFile_handler_def s u r fl)
qed

lemma renameFolder_foreign_row:
  assumes pk: "primary_key fo_id (folders d)" and f: "f \<in> set (folders d)"
    and no: "fo_owner_id f \<noteq> caller"
    and ok: "checkFolderPermission Edit d (fo_id f) caller = Next"
    and s: "sanitizeQueryParam (fo_id f) = fo_id f"
  shows "renameFolder e tnow d (fo_id f) caller name =
           (Inl (if \<not> isValidUUID e (fo_id f) then Error 400 ''Invalid folder ID''
                 else if sanitizeInput e name = [] then Error 400 ''Folder name is required''
                 else StoreError 500), d)"
proof -
  have none: "\<forall>x\<in>set (folders d). \<not> (fo_id x = fo_id f \<and> fo_owner_id x = caller)"
    by (rule no_other_row[OF pk f, where Q="\<lambda>x. fo_owner_id x = caller"]) (simp add: no)
  have u: "update_where (\<lambda>x. fo_id x = fo_id f \<and> fo_owner_id x = caller) upd (folders d) = folders d"
    for upd by (rule update_where_none[OF none])
  have r: "returning (\<lambda>x. fo_id x = fo_id f \<and> fo_owner_id x = caller) upd (folders d) = []"
    for upd by (rule returning_none[OF none])
  have fl: "filter (\<lambda>x. fo_id x = fo_id f \<and> fo_owner_id x = caller) (folders d) = []"
    by (rule filter_no_row[OF none])
  have nt: "\<not> folder_name_taken (folders d) (\<lambda>x. fo_id x = fo_id f \<and> fo_owner_id x = caller) m"
    for m using none by (auto simp: folder_name_taken_def list_ex_iff)
  show ?thesis
    by (simp add: renameFolder_def guarded_def ok renameFolder_handler_def s u r fl nt)
qed

lemma edit_grant_checks_file:
  assumes pk: "primary_key f_id (files d)" and ug: "unique_grants (file_permissions d)"
    and f: "f \<in> set (files d)" and no: "f_owner_id f \<noteq> caller"
    and p: "p \<in> set (file_permissions d)" "p_resource p = f_id f" "p_user_id p = caller"
      "p_permission p = ''edit''"
  shows "checkFilePermission View d (f_id f) caller = Next"
    and "checkFilePermission Edit d (f_id f) caller = Next"
    and "checkFilePermission Owner d (f_id f) caller =
           Respond (Error 403 ''Insufficient permissions'')"
proof -
  have g: "p_permission p = level_name Edit" using p(4) by simp
  note r = file_check_grant[OF pk f no ug p(1,2,3) g]
  show "checkFilePermission View d (f_id f) caller = Next" using r[of View] by simp
  show "checkFilePermission Edit d (f_id f) caller = Next" using r[of Edit] by simp
  show "checkFilePermission Owner d (f_id f) caller =
           Respond (Error 403 ''Insufficient permissions'')" using r[of Owner] by simp
qed

lemma edit_grant_checks_folder:
  assumes pk: "primary_key fo_id (folders d)" and ug: "unique_grants (folder_permissions d)"
    and f: "f \<in> set (folders d)" and no: "fo_owner_id f \<noteq> caller"
    and p: "p \<in> set (folder_permissions d)" "p_resource p = fo_id f" "p_user_id p = caller"
      "p_permission p = ''edit''"
  shows "checkFolderPermission View d (fo_id f) caller = Next"
    and "checkFolderPermission Edit d (fo_id f) caller = Next"
    and "checkFolderPermission Owner d (fo_id f) caller =
           Respond (Error 403 ''Insufficient permissions'')"
proof -
  have g: "p_permission p = level_name Edit" using p(4) by simp
  note r = folder_check_grant[OF pk f no ug p(1,2,3) g]
  show "checkFolderPermission View d (fo_id f) caller = Next" using r[of View] by simp
  show "checkFolderPermission Edit d (fo_id f) caller = Next" using r[of Edit] by simp
  show "checkFolderPermission Owner d (fo_id f) caller =
           Respond (Error 403 ''Insufficient permissions'')" using r[of Owner] by simp
qed

lemma example_ids:
  "sanitizeQueryParam file_a_id = file_a_id" "sanitizeQueryParam folder_r_id = folder_r_id"
  by (rule sanitizeQueryParam_plain, simp add: plain_token_def file_a_id_def folder_r_id_def)+

lemma example_ids_uuid:
  "isValidUUID example_env file_a_id" "isValidUUID example_env folder_r_id"
  by code_simp+

lemma example_sanitisers:
  "sanitizeFileName example_env ''b.pdf'' = ''b.pdf''"
  "sanitizeFileName example_env ''b.txt'' = ''b.txt''"
  "sanitizeInput example_env ''Plans'' = ''Plans''"
  "sanitizeOutput example_env ''a.pdf'' = ''a.pdf''"
  "sanitizeOutput example_env ''b.pdf'' = ''b.pdf''"
  "sanitizeOutput example_env ''b.txt'' = ''b.txt''"
  "sanitizeOutput example_env ''Plans'' = ''Plans''"
  "sanitizeOutput example_env ''application/pdf'' = ''application&#x2F;pdf''"
  "sanitizeOutput example_env ''text/plain'' = ''text&#x2F;plain''"
  by code_simp+

lemma example_urls:
  "getPublicUrl example_env ''u1/17_b.txt'' =
     ''https://p.supabase.co/storage/v1/object/public/files/u1/17_b.txt''"
  "getPublicUrl example_env ''u2/17_b.txt'' =
     ''https://p.supabase.co/storage/v1/object/public/files/u2/17_b.txt''"
  by code_simp+

lemma example_grants:
  "file_permissions example_db =
     [\<lparr>p_resource = file_a_id, p_user_id = ''u1'', p_permission = ''owner''\<rparr>,
      \<lparr>p_resource = file_a_id, p_user_id = ''u2'', p_permission = ''edit''\<rparr>]"
  "folder_permissions example_db =
     [\<lparr>p_resource = folder_r_id, p_user_id = ''u2'', p_permission = ''edit''\<rparr>]"
  by (simp_all add: example_db_def)

lemma serial_ids:
  "sanitizeQueryParam ''1'' = ''1''" "\<not> isValidUUID example_env ''1''"
  by (rule sanitizeQueryParam_plain, simp add: plain_token_def) code_simp

text \<open>
  Claim C2. The claim says that a caller who is not the owner and holds an edit grant
  can rename the file or folder. The rename routes are declared with the edit-level
  middleware, which hands such a caller on, but their \<^verbatim>\<open>UPDATE\<close> also filters on
  \<^verbatim>\<open>owner_id = req.userId\<close>: for the grantee it finds no row, \<^verbatim>\<open>.single()\<close>
  reports an error and the route answers 500 with the name unchanged, where the same
  request of the owner is answered with the renamed row. In a store numbered as the
  shipped schema numbers it, the identifier is no UUID and the route answers 400.
\<close>

theorem edit_grant_rename_divergence:
  "checkFilePermission Edit example_db file_a_id ''u2'' = Next \<and>
   renameFile example_env 9 example_db file_a_id ''u2'' ''b.pdf'' =
     (Inl (StoreError 500), example_db) \<and>
   renameFile example_env 9 example_db file_a_id ''u1'' ''b.pdf'' =
     (Inr (file_a\<lparr>f_name := ''b.pdf'', f_updated_at := 9\<rparr>),
      example_db\<lparr>files := [file_a\<lparr>f_name := ''b.pdf'', f_updated_at := 9\<rparr>]\<rparr>) \<and>
   checkFolderPermission Edit example_db folder_r_id ''u2'' = Next \<and>
   renameFolder example_env 9 example_db folder_r_id ''u2'' ''Plans'' =
     (Inl (StoreError 500), example_db) \<and>
   renameFolder example_env 9 example_db folder_r_id ''u1'' ''Plans'' =
     (Inr (folder_r\<lparr>fo_name := ''Plans'', fo_updated_at := 9\<rparr>),
      example_db\<lparr>folders := [folder_r\<lparr>fo_name := ''Plans'', fo_updated_at := 9\<rparr>]\<rparr>) \<and>
   checkFilePermission Edit serial_db ''1'' ''u2'' = Next \<and>
   renameFile example_env 9 serial_db ''1'' ''u2'' ''b.pdf'' =
     (Inl (Error 400 ''Invalid file ID''), serial_db) \<and>
   checkFolderPermission Edit serial_db ''1'' ''u2'' = Next \<and>
   renameFolder example_env 9 serial_db ''1'' ''u2'' ''Plans'' =
     (Inl (Error 400 ''Invalid folder ID''), serial_db)"
proof -
  have c: "checkFilePermission Edit example_db file_a_id ''u2'' = Next"
    "checkFolderPermission Edit example_db folder_r_id ''u2'' = Next"
    "checkFilePermission Edit example_db file_a_id ''u1'' = Next"
    "checkFolderPermission Edit example_db folder_r_id ''u1'' = Next"
    by (simp_all add: checkFilePermission_def checkFolderPermission_def example_tables
        example_rows example_grants permissionLevels_def)
  have s: "checkFilePermission Edit serial_db ''1'' ''u2'' = Next"
    "checkFolderPermission Edit serial_db ''1'' ''u2'' = Next"
    by (simp_all add: checkFilePermission_def checkFolderPermission_def serial_db_def
        file_a_def folder_r_def permissionLevels_def)
  have 1: "renameFile example_env 9 example_db file_a_id ''u2'' ''b.pdf'' =
          (Inl (StoreError 500), example_db)"
    by (simp add: renameFile_def guarded_def c renameFile_handler_def example_ids
        example_ids_uuid example_tables example_rows update_where_def returning_def
        example_sanitisers Let_def)
  have 2: "renameFile example_env 9 example_db file_a_id ''u1'' ''b.pdf'' =
     (Inr (file_a\<lparr>f_name := ''b.pdf'', f_updated_at := 9\<rparr>),
      example_db\<lparr>files := [file_a\<lparr>f_name := ''b.pdf'', f_updated_at := 9\<rparr>]\<rparr>)"
    by (simp add: renameFile_def guarded_def c renameFile_handler_def example_ids
        example_ids_uuid example_tables example_rows update_where_def returning_def
        example_sanitisers Let_def)
  have 3: "renameFolder example_env 9 example_db folder_r_id ''u2'' ''Plans'' =
          (Inl (StoreError 500), example_db)"
    by (simp add: renameFolder_def guarded_def c renameFolder_handler_def example_ids
        example_ids_uuid example_tables example_rows update_where_def returning_def
        folder_name_taken_def example_sanitisers Let_def)
  have 4: "renameFolder example_env 9 example_db folder_r_id ''u1'' ''Plans'' =
     (Inr (folder_r\<lparr>fo_name := ''Plans'', fo_updated_at := 9\<rparr>),
      example_db\<lparr>folders := [folder_r\<lparr>fo_name := ''Plans'', fo_updated_at := 9\<rparr>]\<rparr>)"
    by (simp add: renameFolder_def guarded_def c renameFolder_handler_def example_ids
        example_ids_uuid example_tables example_rows update_where_def returning_def
        folder_name_taken_def example_sanitisers Let_def)
  have 5: "renameFile example_env 9 serial_db ''1'' ''u2'' ''b.pdf'' =
     (Inl (Error 400 ''Invalid file ID''), serial_db)"
    by (simp add: renameFile_def guarded_def s renameFile_handler_def serial_ids)
  have 6: "renameFolder example_env 9 serial_db ''1'' ''u2'' ''Plans'' =
     (Inl (Error 400 ''Invalid folder ID''), serial_db)"
    by (simp add: renameFolder_def guarded_def s renameFolder_handler_def serial_ids)
  from c s 1 2 3 4 5 6 show ?thesis by simp
qed

text \<open>
  What the routes do for every caller of that kind. In a store that satisfies the
  schema, for every file and folder and every caller who is not its owner and holds an
  edit-level grant on it, the view-level and the edit-level authorization checks hand
  the request on and the owner-level check answers 403
  \<^verbatim>\<open>Insufficient permissions\<close>; the rename route (for an identifier that the
  sanitiser leaves as it is) answers with an error, 400 for an identifier that is no
  UUID or an empty name and 500 otherwise, and leaves the store unchanged.
\<close>

theorem edit_grant_scope:
  assumes "schema_ok d"
  shows "(\<forall>f\<in>set (files d). \<forall>p\<in>set (file_permissions d).
            f_owner_id f \<noteq> caller \<and> p_resource p = f_id f \<and> p_user_id p = caller \<and>
            p_permission p = ''edit'' \<longrightarrow>
              checkFilePermission View d (f_id f) caller = Next \<and>
              checkFilePermission Edit d (f_id f) caller = Next \<and>
              checkFilePermission Owner d (f_id f) caller =
                Respond (Error 403 ''Insufficient permissions'') \<and>
              (sanitizeQueryParam (f_id f) = f_id f \<longrightarrow>
                 renameFile e tnow d (f_id f) caller name =
                   (Inl (if \<not> isValidUUID e (f_id f) then Error 400 ''Invalid file ID''
                         else if sanitizeFileName e name = []
                         then Error 400 ''Valid file name is required''
                         else StoreError 500), d))) \<and>
         (\<forall>fo\<in>set (folders d). \<forall>p\<in>set (folder_permissions d).
            fo_owner_id fo \<noteq> caller \<and> p_resource p = fo_id fo \<and> p_user_id p = caller \<and>
            p_permission p = ''edit'' \<longrightarrow>
              checkFolderPermission View d (fo_id fo) caller = Next \<and>
              checkFolderPermission Edit d (fo_id fo) caller = Next \<and>
              checkFolderPermission Owner d (fo_id fo) caller =
                Respond (Error 403 ''Insufficient permissions'') \<and>
              (sanitizeQueryParam (fo_id fo) = fo_id fo \<longrightarrow>
                 renameFolder e tnow d (fo_id fo) caller name =
                   (Inl (if \<not> isValidUUID e (fo_id fo) then Error 400 ''Invalid folder ID''
                         else if sanitizeInput e name = []
                         then Error 400 ''Folder name is required''
                         else StoreError 500), d)))"
proof -
  from assms have pk: "primary_key f_id (files d)" and pko: "primary_key fo_id (folders d)"
    and ug: "unique_grants (file_permissions d)"
    and ugo: "unique_grants (folder_permissions d)"
    by (simp_all add: schema_ok_def)
  have files_part:
    "checkFilePermission View d (f_id f) caller = Next \<and>
     checkFilePermission Edit d (f_id f) caller = Next \<and>
     checkFilePermission Owner d (f_id f) caller =
       Respond (Error 403 ''Insufficient permissions'') \<and>
     (sanitizeQueryParam (f_id f) = f_id f \<longrightarrow>
        renameFile e tnow d (f_id f) caller name =
          (Inl (if \<not> isValidUUID e (f_id f) then Error 400 ''Invalid file ID''
                else if sanitizeFileName e name = []
                then Error 400 ''Valid file name is required''
                else StoreError 500), d))"
    if "f \<in> set (files d)" "p \<in> set (file_permissions d)" "f_owner_id f \<noteq> caller"
      "p_resource p = f_id f" "p_user_id p = caller" "p_permission p = ''edit''" for f p
    using edit_grant_checks_file[OF pk ug that(1,3,2,4,5,6)]
      renameFile_foreign_row[OF pk that(1,3)]
    by simp
  have folders_part:
    "checkFolderPermission View d (fo_id f) caller = Next \<and>
     checkFolderPermission Edit d (fo_id f) caller = Next \<and>
     checkFolderPermission Owner d (fo_id f) caller =
       Respond (Error 403 ''Insufficient permissions'') \<and>
     (sanitizeQueryParam (fo_id f) = fo_id f \<longrightarrow>
        renameFolder e tnow d (fo_id f) caller name =
          (Inl (if \<not> isValidUUID e (fo_id f) then Error 400 ''Invalid folder ID''
                else if sanitizeInput e name = []
                then Error 400 ''Folder name is required''
                else StoreError 500), d))"
    if "f \<in> set (folders d)" "p \<in> set (folder_permissions d)" "fo_owner_id f \<noteq> caller"
      "p_resource p = fo_id f" "p_user_id p = caller" "p_permission p = ''edit''" for f p
    using edit_grant_checks_folder[OF pko ugo that(1,3,2,4,5,6)]
      renameFolder_foreign_row[OF pko that(1,3)]
    by simp
  show ?thesis using files_part folders_part by blast
qed

theorem edit_grant_scope_witness:
  "schema_ok example_db \<and>
   checkFilePermission View example_db file_a_id ''u2'' = Next \<and>
   checkFilePermission Edit example_db file_a_id ''u2'' = Next \<and>
   checkFilePermission Owner example_db file_a_id ''u2'' =
     Respond (Error 403 ''Insufficient permissions'') \<and>
   renameFile example_env 9 example_db file_a_id ''u2'' ''b.pdf'' =
     (Inl (StoreError 500), example_db) \<and>
   checkFolderPermission Owner example_db folder_r_id ''u2'' =
     Respond (Error 403 ''Insufficient permissions'') \<and>
   renameFolder example_env 9 example_db folder_r_id ''u2'' ''Plans'' =
     (Inl (StoreError 500), example_db)"
proof -
  note n = example_sanitisers
  from edit_grant_scope[where caller="''u2''" and e=example_env and tnow=9
      and name="''b.pdf''", OF example_db_schema_ok]
  have "checkFilePermission View example_db file_a_id ''u2'' = Next \<and>
        checkFilePermission Edit example_db file_a_id ''u2'' = Next \<and>
        checkFilePermission Owner example_db file_a_id ''u2'' =
          Respond (Error 403 ''Insufficient permissions'') \<and>
        renameFile example_env 9 example_db file_a_id ''u2'' ''b.pdf'' =
          (Inl (StoreError 500), example_db)"
    by (simp add: example_tables example_rows example_grants example_ids example_ids_uuid n)
  moreover
  from edit_grant_scope[where caller="''u2''" and e=example_env and tnow=9
      and name="''Plans''", OF example_db_schema_ok]
  have "checkFolderPermission Owner example_db folder_r_id ''u2'' =
          Respond (Error 403 ''Insufficient permissions'') \<and>
        renameFolder example_env 9 example_db folder_r_id ''u2'' ''Plans'' =
          (Inl (StoreError 500), example_db)"
    by (simp add: example_tables example_rows example_grants example_ids example_ids_uuid n)
  ultimately show ?thesis using example_db_schema_ok by simp
qed




lemma accessSharedFile_Inr:
  assumes "accessSharedFile e d token = Inr proj"
  shows "isValidUUID e (sanitizeQueryParam token) \<and>
         (\<exists>f\<in>set (files d). f_share_token f = Some (sanitizeQueryParam token) \<and> f_is_public f \<and>
            f_deleted_at f = None \<and>
            filter (\<lambda>x. f_share_token x = Some (sanitizeQueryParam token) \<and> f_is_public x \<and>
                      f_deleted_at x = None) (files d) = [f] \<and>
            proj = \<lparr>sf_id = f_id f, sf_name = sanitizeOutput e (f_name f),
                sf_size = f_size f, sf_format = sanitizeOutput e (f_format f),
                sf_path = f_path f, sf_created_at = f_created_at f\<rparr>)"
proof -
  let ?P = "\<lambda>x. f_share_token x = Some (sanitizeQueryParam token) \<and> f_is_public x \<and>
                      f_deleted_at x = None"
  from assms have v: "isValidUUID e (sanitizeQueryParam token)"
    by (auto simp: accessSharedFile_def Let_def split: if_splits)
  with assms obtain f where s: "single (filter ?P (files d)) = Some f"
    and p: "proj = \<lparr>sf_id = f_id f, sf_name = sanitizeOutput e (f_name f),
                sf_size = f_size f, sf_format = sanitizeOutput e (f_format f),
                sf_path = f_path f, sf_created_at = f_created_at f\<rparr>"
    by (auto simp: accessSharedFile_def Let_def split: option.splits)
  from s have l: "filter ?P (files d) = [f]"
    by (cases "filter ?P (files d)" rule: single.cases) auto
  then have "f \<in> set (filter ?P (files d))" by simp
  then have "f \<in> set (files d)" "?P f" by auto
  with v l p show ?thesis by blast
qed


lemma filter_after_replace:
  assumes "filter P fs = [f]" "\<not> P f'"
  shows "filter P (map (\<lambda>x. if x = f then f' else x) fs) = []"
proof -
  have "\<not> P y" if "y \<in> set (map (\<lambda>x. if x = f then f' else x) fs)" for y
  proof -
    from that obtain x where x: "x \<in> set fs" "y = (if x = f then f' else x)" by auto
    show ?thesis
    proof (cases "x = f")
      case True
      with x assms(2) show ?thesis by simp
    next
      case False
      have "P x \<Longrightarrow> x \<in> set (filter P fs)" using x(1) by simp
      with assms(1) False have "\<not> P x" by auto
      with x False show ?thesis by simp
    qed
  qed
  then show ?thesis by (simp add: filter_empty_conv)
qed

lemma removeSharing_owner:
  assumes pk: "primary_key f_id (files d)" and f: "f \<in> set (files d)"
  shows "removeSharing tnow d (f_id f) (f_owner_id f) =
           (Inr (f\<lparr>f_share_token := None, f_is_public := False, f_updated_at := tnow\<rparr>),
            d\<lparr>files := map (\<lambda>x. if x = f
                                 then f\<lparr>f_share_token := None, f_is_public := False,
                                        f_updated_at := tnow\<rparr>
                                 else x) (files d)\<rparr>)"
proof -
  have r: "returning (\<lambda>x. f_id x = f_id f \<and> f_owner_id x = f_owner_id f) upd (files d) = [upd f]"
    for upd
    by (rule returning_one[OF pk f, where Q="\<lambda>x. f_owner_id x = f_owner_id f"]) simp
  have u: "update_where (\<lambda>x. f_id x = f_id f \<and> f_owner_id x = f_owner_id f) upd (files d) =
           map (\<lambda>x. if x = f then upd f else x) (files d)" for upd
    using update_where_one[OF pk f, where Q="\<lambda>x. f_owner_id x = f_owner_id f"] by simp
  show ?thesis
    by (simp add: removeSharing_def guarded_def file_check_owner[OF pk f refl]
        removeSharing_handler_def r u)
qed



lemma share_tok_ok:
  "sanitizeQueryParam share_tok = share_tok" "isValidUUID example_env share_tok"
  by (rule sanitizeQueryParam_plain, simp add: plain_token_def share_tok_def) code_simp





lemma shared_db_facts:
  "schema_ok shared_db"
  "files shared_db = [file_a\<lparr>f_share_token := Some share_tok, f_is_public := True\<rparr>]"
  by (simp_all add: shared_db_def schema_ok_def example_db_def primary_key_def
      unique_share_token_def unique_grants_def check_permission_column_def file_a_def
      folder_r_def List.map_filter_def)

lemma shared_db_access:
  "accessSharedFile example_env shared_db share_tok =
     Inr \<lparr>sf_id = file_a_id, sf_name = ''a.pdf'', sf_size = 10,
          sf_format = ''application&#x2F;pdf'',
          sf_path = ''https://p.supabase.co/storage/v1/object/public/files/u1/1_a.pdf'',
          sf_created_at = 1\<rparr>"
  by (simp add: accessSharedFile_def share_tok_ok shared_db_facts example_sanitisers
      file_a_def)

text \<open>
  Claim C7. In a store that satisfies the schema, let a token be valid for a file: the
  anonymous access by the token answers with that file. After the owner's revocation
  (one update that clears the token and the public flag) the route answers the same
  token with 404 \<^verbatim>\<open>Shared file not found\<close>, which is also its answer in the store
  where the file had never been shared.
\<close>

theorem revoked_token_not_found:
  assumes "schema_ok d" and "f \<in> set (files d)"
    and "accessSharedFile e d token = Inr proj" and "sf_id proj = f_id f"
  shows "fst (removeSharing tnow d (f_id f) (f_owner_id f)) =
           Inr (f\<lparr>f_share_token := None, f_is_public := False, f_updated_at := tnow\<rparr>) \<and>
         accessSharedFile e (snd (removeSharing tnow d (f_id f) (f_owner_id f))) token =
           Inl (Error 404 ''Shared file not found'') \<and>
         accessSharedFile e
           (d\<lparr>files := map (\<lambda>x. if x = f then f\<lparr>f_share_token := None, f_is_public := False\<rparr>
                                 else x) (files d)\<rparr>) token =
           Inl (Error 404 ''Shared file not found'')"
proof -
  let ?P = "\<lambda>x. f_share_token x = Some (sanitizeQueryParam token) \<and> f_is_public x \<and>
                 f_deleted_at x = None"
  from assms(1) have pk: "primary_key f_id (files d)" by (simp add: schema_ok_def)
  from accessSharedFile_Inr[OF assms(3)] obtain g
    where v: "isValidUUID e (sanitizeQueryParam token)" and g: "g \<in> set (files d)"
      and l: "filter ?P (files d) = [g]" and p: "sf_id proj = f_id g"
    by auto
  from p assms(4) have "f_id g = f_id f" by simp
  with pk g assms(2) have "g = f" by (rule pk_same)
  with l have l: "filter ?P (files d) = [f]" by simp
  have a: "accessSharedFile e (d\<lparr>files := map (\<lambda>x. if x = f then f' else x) (files d)\<rparr>) token =
             Inl (Error 404 ''Shared file not found'')" if "\<not> f_is_public f'" for f'
    using filter_after_replace[OF l, of f'] that v by (simp add: accessSharedFile_def)
  show ?thesis
    using a[of "f\<lparr>f_share_token := None, f_is_public := False, f_updated_at := tnow\<rparr>"]
      a[of "f\<lparr>f_share_token := None, f_is_public := False\<rparr>"]
    by (simp add: removeSharing_owner[OF pk assms(2)])
qed

theorem revoked_token_not_found_witness:
  "schema_ok shared_db \<and>
   accessSharedFile example_env shared_db share_tok =
     Inr \<lparr>sf_id = file_a_id, sf_name = ''a.pdf'', sf_size = 10,
          sf_format = ''application&#x2F;pdf'',
          sf_path = ''https://p.supabase.co/storage/v1/object/public/files/u1/1_a.pdf'',
          sf_created_at = 1\<rparr> \<and>
   accessSharedFile example_env (snd (removeSharing 9 shared_db file_a_id ''u1'')) share_tok =
     Inl (Error 404 ''Shared file not found'')"
proof -
  have r: "file_a\<lparr>f_share_token := Some share_tok, f_is_public := True\<rparr> \<in> set (files shared_db)"
    by (simp add: shared_db_facts)
  from revoked_token_not_found[OF shared_db_facts(1) r shared_db_access, of 9]
  have "accessSharedFile example_env (snd (removeSharing 9 shared_db file_a_id ''u1''))
          share_tok = Inl (Error 404 ''Shared file not found'')"
    by (simp add: example_rows)
  then show ?thesis using shared_db_facts(1) shared_db_access by simp
qed





section \<open>Upload: compensation and the best-effort grant\<close>

lemma upload_compensation:
  assumes "\<not> upload_fails fl" and "storage_name e now userId up \<notin> objects"
    and "insert_fails fl \<or> insert_refused d (new_file_row e now tnow new_id userId up folderId)"
  shows "uploadFile e fl now tnow new_id d objects userId (Some up) folderId =
           \<lparr>response = Inl (StoreError 500),
            calls = [StorageUpload (storage_name e now userId up), InsertFile,
                     StorageRemove (storage_name e now userId up)],
            db_after = d,
            objects_after = storage_remove fl (storage_name e now userId up)
                              (insert (storage_name e now userId up) objects)\<rparr>"
  using assms by (auto simp: uploadFile_def Let_def)

lemma upload_durable:
  assumes "\<not> upload_fails fl" and "storage_name e now userId up \<notin> objects"
    and "\<not> insert_fails fl"
    and "\<not> insert_refused d (new_file_row e now tnow new_id userId up folderId)"
  shows "response (uploadFile e (fl\<lparr>grant_fails := g\<rparr>) now tnow new_id d objects userId
                     (Some up) folderId) =
           Inr (new_file_row e now tnow new_id userId up folderId)"
    and "calls (uploadFile e (fl\<lparr>grant_fails := g\<rparr>) now tnow new_id d objects userId
                  (Some up) folderId) =
           [StorageUpload (storage_name e now userId up), InsertFile, InsertPermission]"
    and "files (db_after (uploadFile e (fl\<lparr>grant_fails := g\<rparr>) now tnow new_id d objects
                            userId (Some up) folderId)) =
           files d @ [new_file_row e now tnow new_id userId up folderId]"
    and "objects_after (uploadFile e (fl\<lparr>grant_fails := g\<rparr>) now tnow new_id d objects
                          userId (Some up) folderId) =
           insert (storage_name e now userId up) objects"
  using assms by (simp_all add: uploadFile_def Let_def)

lemma storage_remove_restores:
  "\<not> remove_fails fl \<Longrightarrow> n \<notin> objects \<Longrightarrow> storage_remove fl n (insert n objects) = objects"
  by (simp add: storage_remove_def)

text \<open>
  Claim C8. Let the write to the object store succeed. If the insert of the metadata
  row fails, the handler calls the object store to remove the object it has just
  written, under the same name, before it answers 500; the table is unchanged and,
  the object store carrying out the removal, the set of stored objects is what it was
  before the upload. If the insert succeeds, the handler answers with the new row,
  which is in the table and whose object is stored, whether the insert of the owner's
  grant that follows fails or not.
\<close>

theorem upload_compensation_and_durability:
  assumes "\<not> upload_fails fl" and "storage_name e now userId up \<notin> objects"
  shows "(let n = storage_name e now userId up;
              row = new_file_row e now tnow new_id userId up folderId;
              r = uploadFile e fl now tnow new_id d objects userId (Some up) folderId;
              r' = uploadFile e (fl\<lparr>grant_fails := g\<rparr>) now tnow new_id d objects userId
                     (Some up) folderId
          in (insert_fails fl \<or> insert_refused d row \<longrightarrow>
                response r = Inl (StoreError 500) \<and>
                calls r = [StorageUpload n, InsertFile, StorageRemove n] \<and>
                db_after r = d \<and>
                objects_after r = storage_remove fl n (insert n objects) \<and>
                (\<not> remove_fails fl \<longrightarrow> objects_after r = objects)) \<and>
             (\<not> insert_fails fl \<and> \<not> insert_refused d row \<longrightarrow>
                response r' = Inr row \<and>
                calls r' = [StorageUpload n, InsertFile, InsertPermission] \<and>
                files (db_after r') = files d @ [row] \<and>
                objects_after r' = insert n objects))"
proof -
  have "response r = Inl (StoreError 500) \<and>
        calls r = [StorageUpload n, InsertFile, StorageRemove n] \<and>
        db_after r = d \<and>
        objects_after r = storage_remove fl n (insert n objects) \<and>
        (\<not> remove_fails fl \<longrightarrow> objects_after r = objects)"
    if "insert_fails fl \<or> insert_refused d row"
      and "n = storage_name e now userId up"
      and "row = new_file_row e now tnow new_id userId up folderId"
      and "r = uploadFile e fl now tnow new_id d objects userId (Some up) folderId"
    for n row r
    using that upload_compensation[OF assms, of d tnow new_id folderId]
      storage_remove_restores[OF _ assms(2), of fl]
    by simp
  moreover have "response r' = Inr row \<and>
        calls r' = [StorageUpload n, InsertFile, InsertPermission] \<and>
        files (db_after r') = files d @ [row] \<and>
        objects_after r' = insert n objects"
    if "\<not> insert_fails fl" and "\<not> insert_refused d row"
      and "n = storage_name e now userId up"
      and "row = new_file_row e now tnow new_id userId up folderId"
      and "r' = uploadFile e (fl\<lparr>grant_fails := g\<rparr>) now tnow new_id d objects userId
                     (Some up) folderId"
    for n row r'
    using that upload_durable[OF assms, of d tnow new_id folderId g] by simp
  ultimately show ?thesis unfolding Let_def by blast
qed

lemma example_upload_name:
  "storage_name example_env 17 ''u1'' b_txt = ''u1/17_b.txt''"
  by (simp add: storage_name_def example_sanitisers b_txt_def decimal.simps)

lemma example_upload_row:
  "new_file_row example_env 17 18 file_b_id ''u1'' b_txt [] =
     \<lparr>f_id = file_b_id, f_name = ''b.txt'', f_size = 3, f_format = ''text/plain'',
      f_path = ''https://p.supabase.co/storage/v1/object/public/files/u1/17_b.txt'',
      f_storage_path = ''u1/17_b.txt'', f_owner_id = ''u1'', f_folder_id = None,
      f_share_token = None, f_is_public = False, f_deleted_at = None,
      f_created_at = 18, f_updated_at = 18\<rparr>"
  unfolding new_file_row_def example_upload_name
  by (simp add: b_txt_def example_urls)

theorem upload_compensation_and_durability_witness:
  "response (uploadFile example_env (no_faults\<lparr>insert_fails := True\<rparr>) 17 18 file_b_id
               empty_db {} ''u1'' (Some b_txt) []) = Inl (StoreError 500) \<and>
   calls (uploadFile example_env (no_faults\<lparr>insert_fails := True\<rparr>) 17 18 file_b_id
            empty_db {} ''u1'' (Some b_txt) []) =
     [StorageUpload ''u1/17_b.txt'', InsertFile, StorageRemove ''u1/17_b.txt''] \<and>
   db_after (uploadFile example_env (no_faults\<lparr>insert_fails := True\<rparr>) 17 18 file_b_id
               empty_db {} ''u1'' (Some b_txt) []) = empty_db \<and>
   objects_after (uploadFile example_env (no_faults\<lparr>insert_fails := True\<rparr>) 17 18 file_b_id
                    empty_db {} ''u1'' (Some b_txt) []) = {} \<and>
   response (uploadFile example_env (no_faults\<lparr>grant_fails := True\<rparr>) 17 18 file_b_id
               empty_db {} ''u1'' (Some b_txt) []) =
     Inr \<lparr>f_id = file_b_id, f_name = ''b.txt'', f_size = 3, f_format = ''text/plain'',
          f_path = ''https://p.supabase.co/storage/v1/object/public/files/u1/17_b.txt'',
          f_storage_path = ''u1/17_b.txt'', f_owner_id = ''u1'', f_folder_id = None,
          f_share_token = None, f_is_public = False, f_deleted_at = None,
          f_created_at = 18, f_updated_at = 18\<rparr> \<and>
   objects_after (uploadFile example_env (no_faults\<lparr>grant_fails := True\<rparr>) 17 18 file_b_id
                    empty_db {} ''u1'' (Some b_txt) []) = {''u1/17_b.txt''}"
proof -
  have a: "\<not> upload_fails (no_faults\<lparr>insert_fails := True\<rparr>)" "\<not> upload_fails no_faults"
    and b: "storage_name example_env 17 ''u1'' b_txt \<notin> {}"
    by (simp_all add: no_faults_def)
  have nr: "\<not> insert_refused empty_db (new_file_row example_env 17 18 file_b_id ''u1'' b_txt [])"
    by (simp add: insert_refused_def empty_db_def example_upload_row)
  from upload_compensation_and_durability[OF a(1) b, where d=empty_db and tnow=18
      and new_id=file_b_id and folderId="[]" and g=False]
  have 1: "response (uploadFile example_env (no_faults\<lparr>insert_fails := True\<rparr>) 17 18 file_b_id
               empty_db {} ''u1'' (Some b_txt) []) = Inl (StoreError 500) \<and>
   calls (uploadFile example_env (no_faults\<lparr>insert_fails := True\<rparr>) 17 18 file_b_id
            empty_db {} ''u1'' (Some b_txt) []) =
     [StorageUpload ''u1/17_b.txt'', InsertFile, StorageRemove ''u1/17_b.txt''] \<and>
   db_after (uploadFile example_env (no_faults\<lparr>insert_fails := True\<rparr>) 17 18 file_b_id
               empty_db {} ''u1'' (Some b_txt) []) = empty_db \<and>
   objects_after (uploadFile example_env (no_faults\<lparr>insert_fails := True\<rparr>) 17 18 file_b_id
                    empty_db {} ''u1'' (Some b_txt) []) = {}"
    by (auto simp add: Let_def example_upload_name no_faults_def)
  from upload_compensation_and_durability[OF a(2) b, where d=empty_db and tnow=18
      and new_id=file_b_id and folderId="[]" and g=True]
  have 2: "response (uploadFile example_env (no_faults\<lparr>grant_fails := True\<rparr>) 17 18 file_b_id
               empty_db {} ''u1'' (Some b_txt) []) =
     Inr \<lparr>f_id = file_b_id, f_name = ''b.txt'', f_size = 3, f_format = ''text/plain'',
          f_path = ''https://p.supabase.co/storage/v1/object/public/files/u1/17_b.txt'',
          f_storage_path = ''u1/17_b.txt'', f_owner_id = ''u1'', f_folder_id = None,
          f_share_token = None, f_is_public = False, f_deleted_at = None,
          f_created_at = 18, f_updated_at = 18\<rparr> \<and>
   objects_after (uploadFile example_env (no_faults\<lparr>grant_fails := True\<rparr>) 17 18 file_b_id
                    empty_db {} ''u1'' (Some b_txt) []) = {''u1/17_b.txt''}"
    using nr by (simp add: Let_def example_upload_name example_upload_row)
      (simp add: no_faults_def)
  from 1 2 show ?thesis by simp
qed

section \<open>Search: scope, eligibility and order\<close>

lemma set_left_join:
  "set (left_join a b on) =
     {(x, Some y) | x y. x \<in> set a \<and> y \<in> set b \<and> on x y} \<union>
     {(x, None) | x. x \<in> set a \<and> (\<forall>y\<in>set b. \<not> on x y)}"
  by (auto simp: left_join_def filter_empty_conv split: if_splits)

lemma set_inner_join:
  "set (inner_join a b on) = {(x, y). x \<in> set a \<and> y \<in> set b \<and> on x y}"
  by (auto simp: inner_join_def)

lemma ranks_before_total: "\<not> ranks_before a b \<Longrightarrow> ranks_before b a"
  by (auto simp: ranks_before_def)

lemma ranks_before_trans: "ranks_before a b \<Longrightarrow> ranks_before b c \<Longrightarrow> ranks_before a c"
  by (auto simp: ranks_before_def)

lemma set_insert_ranked: "set (insert_ranked key x xs) = insert x (set xs)"
  by (induction xs) auto

lemma set_order_by_rank: "set (order_by_rank key xs) = set xs"
  by (induction xs) (simp_all add: order_by_rank_def set_insert_ranked)

lemma sorted_insert_ranked:
  "sorted_wrt (\<lambda>a b. ranks_before (key a) (key b)) xs \<Longrightarrow>
   sorted_wrt (\<lambda>a b. ranks_before (key a) (key b)) (insert_ranked key x xs)"
proof (induction xs)
  case Nil
  then show ?case by simp
next
  case (Cons y ys)
  show ?case
  proof (cases "ranks_before (key x) (key y)")
    case True
    with Cons.prems show ?thesis by (auto intro: ranks_before_trans)
  next
    case False
    then have "ranks_before (key y) (key x)" by (rule ranks_before_total)
    with False Cons show ?thesis by (auto simp: set_insert_ranked)
  qed
qed

lemma sorted_order_by_rank:
  "sorted_wrt (\<lambda>a b. ranks_before (key a) (key b)) (order_by_rank key xs)"
proof (induction xs)
  case Nil
  then show ?case by (simp add: order_by_rank_def)
next
  case (Cons x xs)
  have "order_by_rank key (x # xs) = insert_ranked key x (order_by_rank key xs)"
    by (simp add: order_by_rank_def)
  with Cons show ?case by (simp add: sorted_insert_ranked)
qed

lemma sorted_slice:
  "sorted_wrt R xs \<Longrightarrow> sorted_wrt R (take n (drop k xs))"
  by (simp add: sorted_wrt_take sorted_wrt_drop)

lemma page_of_index:
  assumes "i < length xs" and "0 < l"
  shows "xs ! i \<in> set (take l (drop ((i div l) * l) xs))"
proof -
  define k j where "k = (i div l) * l" and "j = i mod l"
  have i: "i = k + j" by (simp add: k_def j_def)
  have j: "j < l" using assms(2) by (simp add: j_def)
  have "j < length (drop k xs)" using assms(1) i by simp
  with j have "take l (drop k xs) ! j \<in> set (take l (drop k xs))"
    by (intro nth_mem) simp
  moreover have "take l (drop k xs) ! j = xs ! i" using j assms(1) i by simp
  ultimately show ?thesis unfolding k_def by simp
qed


lemma user_files_use_variable:
  "user_files Use_variable d u =
     remdups
       (map (\<lambda>(f, fp). f_id f)
          (filter (\<lambda>(f, fp). f_deleted_at f = None \<and>
                     (f_owner_id f = u \<or> (case fp of None \<Rightarrow> False | Some p \<Rightarrow> True)))
             (left_join (files d) (file_permissions d)
                (\<lambda>f fp. f_id f = p_resource fp \<and> p_user_id fp = u))))"
  by (simp add: user_files_def user_id_ref_def)

lemma ranked_folders_use_variable:
  "ranked_folders Use_variable t d q u =
     order_by_rank (\<lambda>h. (foh_rank h, foh_created_at h))
       (map (\<lambda>(fo, fop). folder_hit_of t q fo)
          (filter (\<lambda>(fo, fop). fo_deleted_at fo = None \<and>
                     (fo_owner_id fo = u \<or>
                      (case fop of None \<Rightarrow> False
                       | Some p \<Rightarrow> p_user_id p = u \<and>
                                   p_permission p \<in> {''view'', ''edit'', ''owner''})) \<and>
                     matches t (fo_name fo) q)
             (left_join (folders d) (folder_permissions d)
                (\<lambda>fo fop. fo_id fo = p_resource fop))))"
  by (simp add: ranked_folders_def user_id_ref_def cong: option.case_cong)


lemma left_join_cases:
  assumes "(x, j) \<in> set (left_join a b on)"
  shows "x \<in> set a \<and> (case j of None \<Rightarrow> \<forall>y\<in>set b. \<not> on x y | Some y \<Rightarrow> y \<in> set b \<and> on x y)"
  using assms unfolding set_left_join by (cases j) auto

lemma left_join_some: "x \<in> set a \<Longrightarrow> y \<in> set b \<Longrightarrow> on x y \<Longrightarrow> (x, Some y) \<in> set (left_join a b on)"
  unfolding set_left_join by blast

lemma left_join_total: "x \<in> set a \<Longrightarrow> \<exists>j. (x, j) \<in> set (left_join a b on)"
  unfolding set_left_join by blast

lemma in_user_files:
  "i \<in> set (user_files Use_variable d u) \<longleftrightarrow>
     (\<exists>f\<in>set (files d). f_id f = i \<and> f_deleted_at f = None \<and>
        (f_owner_id f = u \<or>
         (\<exists>p\<in>set (file_permissions d). p_resource p = f_id f \<and> p_user_id p = u)))"
  (is "?l \<longleftrightarrow> ?r")
proof
  define J where "J = left_join (files d) (file_permissions d)
                        (\<lambda>f fp. f_id f = p_resource fp \<and> p_user_id fp = u)"
  assume ?l
  then have "i \<in> (\<lambda>(f, fp). f_id f) `
       {x \<in> set J. case x of (f, fp) \<Rightarrow> f_deleted_at f = None \<and>
           (f_owner_id f = u \<or> (case fp of None \<Rightarrow> False | Some p \<Rightarrow> True))}"
    unfolding user_files_use_variable J_def[symmetric] by simp
  then obtain x where x: "x \<in> set J"
    "case x of (f, fp) \<Rightarrow> f_deleted_at f = None \<and>
           (f_owner_id f = u \<or> (case fp of None \<Rightarrow> False | Some p \<Rightarrow> True))"
    "i = (case x of (f, fp) \<Rightarrow> f_id f)"
    by blast
  obtain f j where fj: "x = (f, j)" by (cases x)
  from x have m: "(f, j) \<in> set J" and i: "i = f_id f"
    and del: "f_deleted_at f = None"
    and sc: "f_owner_id f = u \<or> (case j of None \<Rightarrow> False | Some p \<Rightarrow> True)"
    unfolding fj by simp_all
  from left_join_cases[OF m[unfolded J_def]]
  have f: "f \<in> set (files d)"
    and j: "case j of None \<Rightarrow> True
            | Some y \<Rightarrow> y \<in> set (file_permissions d) \<and> f_id f = p_resource y \<and> p_user_id y = u"
    by (simp_all split: option.splits)
  from sc j have "f_owner_id f = u \<or>
      (\<exists>p\<in>set (file_permissions d). p_resource p = f_id f \<and> p_user_id p = u)"
    by (cases j) auto
  with f i del show ?r by blast
next
  define J where "J = left_join (files d) (file_permissions d)
                        (\<lambda>f fp. f_id f = p_resource fp \<and> p_user_id fp = u)"
  assume ?r
  then obtain f where f: "f \<in> set (files d)" and i: "f_id f = i"
    and del: "f_deleted_at f = None"
    and sc: "f_owner_id f = u \<or>
      (\<exists>p\<in>set (file_permissions d). p_resource p = f_id f \<and> p_user_id p = u)"
    by blast
  have "\<exists>j. (f, j) \<in> set J \<and> (f_owner_id f = u \<or> (case j of None \<Rightarrow> False | Some p \<Rightarrow> True))"
  proof (cases "\<exists>p\<in>set (file_permissions d). p_resource p = f_id f \<and> p_user_id p = u")
    case True
    then obtain p where "p \<in> set (file_permissions d)" "f_id f = p_resource p" "p_user_id p = u"
      by auto
    with f have "(f, Some p) \<in> set J" unfolding J_def by (intro left_join_some) simp_all
    then show ?thesis by force
  next
    case False
    with sc have "f_owner_id f = u" by simp
    with left_join_total[OF f, of "file_permissions d"
        "\<lambda>f fp. f_id f = p_resource fp \<and> p_user_id fp = u"]
    show ?thesis unfolding J_def by blast
  qed
  then obtain j where "(f, j) \<in> set J"
    "f_owner_id f = u \<or> (case j of None \<Rightarrow> False | Some p \<Rightarrow> True)" by blast
  with del have "(f, j) \<in> {x \<in> set J. case x of (f, fp) \<Rightarrow> f_deleted_at f = None \<and>
           (f_owner_id f = u \<or> (case fp of None \<Rightarrow> False | Some p \<Rightarrow> True))}"
    by simp
  then have "(case (f, j) of (f, fp) \<Rightarrow> f_id f) \<in> (\<lambda>(f, fp). f_id f) `
       {x \<in> set J. case x of (f, fp) \<Rightarrow> f_deleted_at f = None \<and>
           (f_owner_id f = u \<or> (case fp of None \<Rightarrow> False | Some p \<Rightarrow> True))}"
    by (rule imageI)
  then show ?l unfolding user_files_use_variable J_def[symmetric] using i by simp
qed

lemma in_inner_join:
  "(x, y) \<in> set (inner_join a b on) \<longleftrightarrow> x \<in> set a \<and> y \<in> set b \<and> on x y"
  unfolding set_inner_join by simp

lemma in_ranked_files:
  assumes pk: "primary_key f_id (files d)"
  shows "h \<in> set (ranked_files Use_variable t d q u) \<longleftrightarrow>
     (\<exists>f\<in>set (files d). h = file_hit_of t q f \<and> f_deleted_at f = None \<and>
        (f_owner_id f = u \<or>
         (\<exists>p\<in>set (file_permissions d). p_resource p = f_id f \<and> p_user_id p = u)) \<and>
        matches t (f_name f) q)"
  (is "?l \<longleftrightarrow> ?r")
proof
  define J where "J = inner_join (files d) (user_files Use_variable d u) (\<lambda>f uf. f_id f = uf)"
  assume ?l
  then have "h \<in> (\<lambda>(f, uf). file_hit_of t q f) `
       {x \<in> set J. case x of (f, uf) \<Rightarrow> matches t (f_name f) q}"
    unfolding ranked_files_def set_order_by_rank J_def[symmetric] by simp
  then obtain x where x: "x \<in> set J" "case x of (f, uf) \<Rightarrow> matches t (f_name f) q"
    "h = (case x of (f, uf) \<Rightarrow> file_hit_of t q f)"
    by blast
  obtain f uf where fu: "x = (f, uf)" by (cases x)
  from x have m: "(f, uf) \<in> set J" and mt: "matches t (f_name f) q"
    and h: "h = file_hit_of t q f"
    unfolding fu by simp_all
  from m have f: "f \<in> set (files d)" and uf: "f_id f \<in> set (user_files Use_variable d u)"
    unfolding J_def in_inner_join by simp_all
  from uf obtain g where g: "g \<in> set (files d)" "f_id g = f_id f" "f_deleted_at g = None"
    "f_owner_id g = u \<or>
       (\<exists>p\<in>set (file_permissions d). p_resource p = f_id g \<and> p_user_id p = u)"
    unfolding in_user_files by blast
  from pk_same[OF pk g(1) f g(2)] have "g = f" .
  with g f h mt show ?r by blast
next
  define J where "J = inner_join (files d) (user_files Use_variable d u) (\<lambda>f uf. f_id f = uf)"
  assume ?r
  then obtain f where f: "f \<in> set (files d)" and h: "h = file_hit_of t q f"
    and del: "f_deleted_at f = None"
    and sc: "f_owner_id f = u \<or>
       (\<exists>p\<in>set (file_permissions d). p_resource p = f_id f \<and> p_user_id p = u)"
    and mt: "matches t (f_name f) q"
    by blast
  from f del sc have "f_id f \<in> set (user_files Use_variable d u)" unfolding in_user_files by blast
  with f have "(f, f_id f) \<in> set J" unfolding J_def in_inner_join by simp
  with mt have "(f, f_id f) \<in> {x \<in> set J. case x of (f, uf) \<Rightarrow> matches t (f_name f) q}"
    by simp
  then have "(case (f, f_id f) of (f, uf) \<Rightarrow> file_hit_of t q f) \<in>
       (\<lambda>(f, uf). file_hit_of t q f) `
       {x \<in> set J. case x of (f, uf) \<Rightarrow> matches t (f_name f) q}"
    by (rule imageI)
  then show ?l
    unfolding ranked_files_def set_order_by_rank J_def[symmetric] using h by simp
qed

lemma in_ranked_folders:
  assumes chk: "check_permission_column (folder_permissions d)"
  shows "h \<in> set (ranked_folders Use_variable t d q u) \<longleftrightarrow>
     (\<exists>fo\<in>set (folders d). h = folder_hit_of t q fo \<and> fo_deleted_at fo = None \<and>
        (fo_owner_id fo = u \<or>
         (\<exists>p\<in>set (folder_permissions d). p_resource p = fo_id fo \<and> p_user_id p = u)) \<and>
        matches t (fo_name fo) q)"
  (is "?l \<longleftrightarrow> ?r")
proof
  define J where "J = left_join (folders d) (folder_permissions d)
                        (\<lambda>fo fop. fo_id fo = p_resource fop)"
  define W where "W = (\<lambda>x :: folder_row \<times> permission_row option.
      case x of (fo, fop) \<Rightarrow>
        fo_deleted_at fo = None \<and>
        (fo_owner_id fo = u \<or>
         (case fop of None \<Rightarrow> False
          | Some p \<Rightarrow> p_user_id p = u \<and> p_permission p \<in> {''view'', ''edit'', ''owner''})) \<and>
        matches t (fo_name fo) q)"
  assume ?l
  then have "h \<in> (\<lambda>(fo, fop). folder_hit_of t q fo) ` {x \<in> set J. W x}"
    unfolding ranked_folders_use_variable set_order_by_rank J_def[symmetric] W_def by simp
  then obtain x where x: "x \<in> set J" "W x"
    "h = (case x of (fo, fop) \<Rightarrow> folder_hit_of t q fo)"
    by blast
  obtain fo j where fj: "x = (fo, j)" by (cases x)
  from x have m: "(fo, j) \<in> set J" and h: "h = folder_hit_of t q fo"
    and del: "fo_deleted_at fo = None" and mt: "matches t (fo_name fo) q"
    and sc: "fo_owner_id fo = u \<or> (case j of None \<Rightarrow> False | Some p \<Rightarrow> p_user_id p = u)"
    unfolding fj W_def by (auto split: option.splits)
  from left_join_cases[OF m[unfolded J_def]]
  have fo: "fo \<in> set (folders d)"
    and j: "case j of None \<Rightarrow> True
            | Some y \<Rightarrow> y \<in> set (folder_permissions d) \<and> fo_id fo = p_resource y"
    by (simp_all split: option.splits)
  from sc j have "fo_owner_id fo = u \<or>
      (\<exists>p\<in>set (folder_permissions d). p_resource p = fo_id fo \<and> p_user_id p = u)"
    by (cases j) auto
  with fo h del mt show ?r by blast
next
  define J where "J = left_join (folders d) (folder_permissions d)
                        (\<lambda>fo fop. fo_id fo = p_resource fop)"
  define W where "W = (\<lambda>x :: folder_row \<times> permission_row option.
      case x of (fo, fop) \<Rightarrow>
        fo_deleted_at fo = None \<and>
        (fo_owner_id fo = u \<or>
         (case fop of None \<Rightarrow> False
          | Some p \<Rightarrow> p_user_id p = u \<and> p_permission p \<in> {''view'', ''edit'', ''owner''})) \<and>
        matches t (fo_name fo) q)"
  assume ?r
  then obtain fo where fo: "fo \<in> set (folders d)" and h: "h = folder_hit_of t q fo"
    and del: "fo_deleted_at fo = None"
    and sc: "fo_owner_id fo = u \<or>
       (\<exists>p\<in>set (folder_permissions d). p_resource p = fo_id fo \<and> p_user_id p = u)"
    and mt: "matches t (fo_name fo) q"
    by blast
  have "\<exists>j. (fo, j) \<in> set J \<and>
          (fo_owner_id fo = u \<or>
           (case j of None \<Rightarrow> False
            | Some p \<Rightarrow> p_user_id p = u \<and> p_permission p \<in> {''view'', ''edit'', ''owner''}))"
  proof (cases "\<exists>p\<in>set (folder_permissions d). p_resource p = fo_id fo \<and> p_user_id p = u")
    case True
    then obtain p where p: "p \<in> set (folder_permissions d)" "fo_id fo = p_resource p"
      "p_user_id p = u"
      by auto
    from chk p(1) have "p_permission p \<in> {''view'', ''edit'', ''owner''}"
      unfolding check_permission_column_def list_all_iff by blast
    moreover from fo p have "(fo, Some p) \<in> set J"
      unfolding J_def by (intro left_join_some) simp_all
    ultimately show ?thesis using p(3) by force
  next
    case False
    with sc have "fo_owner_id fo = u" by simp
    with left_join_total[OF fo, of "folder_permissions d" "\<lambda>fo fop. fo_id fo = p_resource fop"]
    show ?thesis unfolding J_def by blast
  qed
  then obtain j where "(fo, j) \<in> set J" "W (fo, j)"
    unfolding W_def using del mt by auto
  then have "(fo, j) \<in> {x \<in> set J. W x}" by simp
  then have "(case (fo, j) of (fo, fop) \<Rightarrow> folder_hit_of t q fo) \<in>
       (\<lambda>(fo, fop). folder_hit_of t q fo) ` {x \<in> set J. W x}"
    by (rule imageI)
  then show ?l
    unfolding ranked_folders_use_variable set_order_by_rank J_def[symmetric] W_def using h by simp
qed

lemma sorted_ranked_files:
  "sorted_wrt (\<lambda>a b. fh_rank b < fh_rank a \<or>
                      (fh_rank a = fh_rank b \<and> fh_created_at b \<le> fh_created_at a))
     (ranked_files vc t d q u)"
  using sorted_order_by_rank[of "\<lambda>h. (fh_rank h, fh_created_at h)"]
  by (simp add: ranked_files_def ranks_before_def)

lemma sorted_ranked_folders:
  "sorted_wrt (\<lambda>a b. foh_rank b < foh_rank a \<or>
                      (foh_rank a = foh_rank b \<and> foh_created_at b \<le> foh_created_at a))
     (ranked_folders vc t d q u)"
  using sorted_order_by_rank[of "\<lambda>h. (foh_rank h, foh_created_at h)"]
  by (simp add: ranked_folders_def ranks_before_def)

text \<open>
  With \<^verbatim>\<open>user_id\<close> read as the parameter, the two functions do what their text
  intends. In a store that satisfies the schema, the rows of a page are a slice of the
  ranked list; a row is in the ranked list exactly when it comes from a file (a folder)
  that is out of the trash, matches the query, and is owned by the user or has a
  permission row for the user; the list is in the order of rank, greater first, and
  of creation time, later first, among equal ranks; and the row at index \<open>i\<close> of the
  list is on the page of \<open>l\<close> rows that starts at the offset \<open>(i div l) * l\<close>.
\<close>

lemma search_reading_the_parameter:
  assumes "schema_ok d"
  shows "search_files_paginated Use_variable t d q u l off =
           Some (take l (drop off (ranked_files Use_variable t d q u)))"
    and "search_folders_paginated Use_variable t d q u l off =
           Some (take l (drop off (ranked_folders Use_variable t d q u)))"
    and "h \<in> set (ranked_files Use_variable t d q u) \<longleftrightarrow>
           (\<exists>f\<in>set (files d). h = file_hit_of t q f \<and> f_deleted_at f = None \<and>
              (f_owner_id f = u \<or>
               (\<exists>p\<in>set (file_permissions d). p_resource p = f_id f \<and> p_user_id p = u)) \<and>
              matches t (f_name f) q)"
    and "h' \<in> set (ranked_folders Use_variable t d q u) \<longleftrightarrow>
           (\<exists>fo\<in>set (folders d). h' = folder_hit_of t q fo \<and> fo_deleted_at fo = None \<and>
              (fo_owner_id fo = u \<or>
               (\<exists>p\<in>set (folder_permissions d). p_resource p = fo_id fo \<and> p_user_id p = u)) \<and>
              matches t (fo_name fo) q)"
    and "sorted_wrt (\<lambda>a b. fh_rank b < fh_rank a \<or>
                      (fh_rank a = fh_rank b \<and> fh_created_at b \<le> fh_created_at a))
           (take l (drop off (ranked_files Use_variable t d q u)))"
    and "sorted_wrt (\<lambda>a b. foh_rank b < foh_rank a \<or>
                      (foh_rank a = foh_rank b \<and> foh_created_at b \<le> foh_created_at a))
           (take l (drop off (ranked_folders Use_variable t d q u)))"
    and "i < length (ranked_files Use_variable t d q u) \<Longrightarrow> 0 < l \<Longrightarrow>
           ranked_files Use_variable t d q u ! i \<in>
             set (take l (drop ((i div l) * l) (ranked_files Use_variable t d q u)))"
    and "j < length (ranked_folders Use_variable t d q u) \<Longrightarrow> 0 < l \<Longrightarrow>
           ranked_folders Use_variable t d q u ! j \<in>
             set (take l (drop ((j div l) * l) (ranked_folders Use_variable t d q u)))"
proof -
  from assms have pk: "primary_key f_id (files d)"
    and chk: "check_permission_column (folder_permissions d)"
    by (simp_all add: schema_ok_def)
  show "search_files_paginated Use_variable t d q u l off =
           Some (take l (drop off (ranked_files Use_variable t d q u)))"
    by (simp add: search_files_paginated_def)
  show "search_folders_paginated Use_variable t d q u l off =
           Some (take l (drop off (ranked_folders Use_variable t d q u)))"
    by (simp add: search_folders_paginated_def)
  show "h \<in> set (ranked_files Use_variable t d q u) \<longleftrightarrow>
           (\<exists>f\<in>set (files d). h = file_hit_of t q f \<and> f_deleted_at f = None \<and>
              (f_owner_id f = u \<or>
               (\<exists>p\<in>set (file_permissions d). p_resource p = f_id f \<and> p_user_id p = u)) \<and>
              matches t (f_name f) q)"
    by (rule in_ranked_files[OF pk])
  show "h' \<in> set (ranked_folders Use_variable t d q u) \<longleftrightarrow>
           (\<exists>fo\<in>set (folders d). h' = folder_hit_of t q fo \<and> fo_deleted_at fo = None \<and>
              (fo_owner_id fo = u \<or>
               (\<exists>p\<in>set (folder_permissions d). p_resource p = fo_id fo \<and> p_user_id p = u)) \<and>
              matches t (fo_name fo) q)"
    by (rule in_ranked_folders[OF chk])
  show "sorted_wrt (\<lambda>a b. fh_rank b < fh_rank a \<or>
                      (fh_rank a = fh_rank b \<and> fh_created_at b \<le> fh_created_at a))
           (take l (drop off (ranked_files Use_variable t d q u)))"
    by (rule sorted_slice[OF sorted_ranked_files])
  show "sorted_wrt (\<lambda>a b. foh_rank b < foh_rank a \<or>
                      (foh_rank a = foh_rank b \<and> foh_created_at b \<le> foh_created_at a))
           (take l (drop off (ranked_folders Use_variable t d q u)))"
    by (rule sorted_slice[OF sorted_ranked_folders])
  show "i < length (ranked_files Use_variable t d q u) \<Longrightarrow> 0 < l \<Longrightarrow>
           ranked_files Use_variable t d q u ! i \<in>
             set (take l (drop ((i div l) * l) (ranked_files Use_variable t d q u)))"
    by (rule page_of_index)
  show "j < length (ranked_folders Use_variable t d q u) \<Longrightarrow> 0 < l \<Longrightarrow>
           ranked_folders Use_variable t d q u ! j \<in>
             set (take l (drop ((j div l) * l) (ranked_folders Use_variable t d q u)))"
    by (rule page_of_index)
qed

text \<open>
  With the default setting the statement of either function raises, whatever the
  store and the user: the route finds no rows of either kind.
\<close>

lemma search_conflict_error:
  assumes "search e Conflict_error t d u rq = Inr r"
  shows "sr_files r = [] \<and> sr_folders r = []"
proof -
  have "rpc (search_files_paginated Conflict_error t d q u) a b = []"
    "rpc (search_folders_paginated Conflict_error t d q u) a b = []" for q a b
    by (simp_all add: rpc_def search_files_paginated_def search_folders_paginated_def)
  with assms show ?thesis
    by (auto simp: search_def Let_def split: option.splits if_splits)
qed

text \<open>
  Claim C9. The claim says that every resource out of the trash that matches the query
  and that the caller owns, or holds a grant on, is eligible for the results. The two
  search functions name their parameter \<^verbatim>\<open>user_id\<close> like the column of the
  permission tables and use the bare name beside that column: under PostgreSQL's
  default setting the statement raises when the function is called, the route takes
  the failed call for no rows, and the owner's search for a file and a folder that
  match returns neither. Read with \<^verbatim>\<open>use_variable\<close>, the same request returns both.
\<close>

theorem search_returns_nothing:
  "search example_env Conflict_error match_all example_db ''u1'' report_query =
     Inr \<lparr>sr_query = ''report'', sr_files = [], sr_folders = [], sr_page = 1,
          sr_limit = 20, sr_hasMore = False\<rparr> \<and>
   search example_env Use_variable match_all example_db ''u1'' report_query =
     Inr \<lparr>sr_query = ''report'',
          sr_files =
            [\<lparr>fh_id = file_a_id, fh_name = ''a.pdf'', fh_size = 10,
              fh_format = ''application&#x2F;pdf'',
              fh_path = ''https://p.supabase.co/storage/v1/object/public/files/u1/1_a.pdf'',
              fh_folder_id = None, fh_created_at = 1, fh_rank = 0\<rparr>],
          sr_folders =
            [\<lparr>foh_id = folder_r_id, foh_name = ''Reports'', foh_parent_id = None,
              foh_created_at = 1, foh_rank = 0\<rparr>],
          sr_page = 1, sr_limit = 20, sr_hasMore = False\<rparr> \<and>
   f_owner_id file_a = ''u1'' \<and> f_deleted_at file_a = None \<and>
   matches match_all (f_name file_a) ''report'' \<and>
   fo_owner_id folder_r = ''u1'' \<and> fo_deleted_at folder_r = None \<and>
   matches match_all (fo_name folder_r) ''report''"
  by code_simp

section \<open>The share token has 122 free bits\<close>














end
